(* ===== verification/Prelude.thy ===== *)
theory Prelude
  imports Complex_Main "HOL-Library.Char_ord" "HOL-Library.List_Lexorder" "HOL-Library.Product_Lexorder"
begin

text \<open>
  Vocabulary shared by every component: exceptions as values, the result monad in which a
  fallible Python function is written, insertion-ordered dictionaries, and the few string
  methods the code uses (\<open>str.strip\<close>, \<open>str.lower\<close>, \<open>str.startswith\<close>, \<open>str.split\<close>,
  \<open>str.isdigit\<close>).

  A Python function that may raise returns \<open>'a res\<close>: \<open>Inl\<close> of the exception or \<open>Inr\<close> of the
  value. A method that may raise after it has changed its object returns the object too, so
  that a handler whose exception is swallowed by its caller leaves the partial update behind.
\<close>

named_theorems val_simps "reading decimal operations as rounded rational operations"
named_theorems step_defs "definitions of the operations of a component"

section \<open>Exceptions and results\<close>

datatype py_exc =
    ValueError string
  | KeyError string
  | TypeError string
  | RuntimeError string
  | InvalidOperation
  | DivisionByZero
  | AssertionFailure

type_synonym 'a res = "py_exc + 'a"

definition bind_res :: "'a res \<Rightarrow> ('a \<Rightarrow> 'b res) \<Rightarrow> 'b res" where
  "bind_res r f = (case r of Inl e \<Rightarrow> Inl e | Inr x \<Rightarrow> f x)"

lemma bind_res_simps [simp]:
  "bind_res (Inl e) f = Inl e"
  "bind_res (Inr x) f = f x"
  by (simp_all add: bind_res_def)

lemma bind_res_eq_Inr: "bind_res r f = Inr y \<longleftrightarrow> (\<exists>x. r = Inr x \<and> f x = Inr y)"
  by (cases r) auto

lemma bind_res_InrE:
  assumes "bind_res r f = Inr y"
  obtains x where "r = Inr x" "f x = Inr y"
  using assms by (auto simp: bind_res_eq_Inr)

lemma if_Inl_InrE:
  assumes "(if b then Inl e else r) = Inr y"
  obtains "\<not> b" "r = Inr y"
  using assms by (auto split: if_splits)

lemma bind_res_eq_Inl:
  "bind_res r f = Inl e \<longleftrightarrow> r = Inl e \<or> (\<exists>x. r = Inr x \<and> f x = Inl e)"
  by (cases r) auto

definition guard_res :: "bool \<Rightarrow> py_exc \<Rightarrow> unit res" where
  "guard_res b e = (if b then Inr () else Inl e)"

lemma guard_res_Inr [simp]: "guard_res b e = Inr u \<longleftrightarrow> b"
  by (simp add: guard_res_def)

lemma guard_res_Inl [simp]: "guard_res b e = Inl e' \<longleftrightarrow> \<not> b \<and> e' = e"
  by (auto simp: guard_res_def)

lemma map_sum_eq_Inr: "map_sum g f r = Inr y \<longleftrightarrow> (\<exists>x. r = Inr x \<and> y = f x)"
  by (cases r) auto

text \<open>A loop that raises at the first failing element: the results in order.\<close>

fun map_res :: "('a \<Rightarrow> 'b res) \<Rightarrow> 'a list \<Rightarrow> 'b list res" where
  "map_res f [] = Inr []"
| "map_res f (x # xs) = bind_res (f x) (\<lambda>y. bind_res (map_res f xs) (\<lambda>ys. Inr (y # ys)))"

lemma map_res_Inr_iff:
  "map_res f xs = Inr ys \<longleftrightarrow> list_all2 (\<lambda>x y. f x = Inr y) xs ys"
  by (induction xs arbitrary: ys) (auto simp: bind_res_eq_Inr list_all2_Cons1)

fun fold_res :: "('a \<Rightarrow> 's \<Rightarrow> 's res) \<Rightarrow> 'a list \<Rightarrow> 's \<Rightarrow> 's res" where
  "fold_res f [] s = Inr s"
| "fold_res f (x # xs) s = bind_res (f x s) (fold_res f xs)"

lemma fold_res_invariant:
  assumes "fold_res f xs s = Inr t" and "P s"
    and "\<And>x s t. x \<in> set xs \<Longrightarrow> P s \<Longrightarrow> f x s = Inr t \<Longrightarrow> P t"
  shows "P t"
  using assms
proof (induction xs arbitrary: s)
  case Nil
  then show ?case by simp
next
  case (Cons x xs)
  from Cons.prems(1) obtain u where "f x s = Inr u" and rest: "fold_res f xs u = Inr t"
    by (auto simp: bind_res_eq_Inr)
  with Cons.prems have "P u" by auto
  with rest Cons.prems(3) show ?case by (intro Cons.IH[of u]) auto
qed

section \<open>Insertion-ordered dictionaries\<close>

text \<open>
  A Python \<open>dict\<close> keeps its keys in the order of their first insertion: assigning to a key
  that is present keeps its place. It is an association list with distinct keys.
\<close>

type_synonym ('k, 'v) dict = "('k \<times> 'v) list"

abbreviation dict_get :: "('k, 'v) dict \<Rightarrow> 'k \<Rightarrow> 'v option" where
  "dict_get d k \<equiv> map_of d k"

abbreviation dict_keys :: "('k, 'v) dict \<Rightarrow> 'k list" where
  "dict_keys d \<equiv> map fst d"

abbreviation dict_values :: "('k, 'v) dict \<Rightarrow> 'v list" where
  "dict_values d \<equiv> map snd d"

fun dict_put :: "'k \<Rightarrow> 'v \<Rightarrow> ('k, 'v) dict \<Rightarrow> ('k, 'v) dict" where
  "dict_put k v [] = [(k, v)]"
| "dict_put k v ((k', v') # d) = (if k' = k then (k, v) # d else (k', v') # dict_put k v d)"

definition dict_del :: "'k \<Rightarrow> ('k, 'v) dict \<Rightarrow> ('k, 'v) dict" where
  "dict_del k d = filter (\<lambda>p. fst p \<noteq> k) d"

definition dict_get_default :: "('k, 'v) dict \<Rightarrow> 'k \<Rightarrow> 'v \<Rightarrow> 'v" where
  "dict_get_default d k v = (case dict_get d k of None \<Rightarrow> v | Some w \<Rightarrow> w)"

lemma dict_get_put: "dict_get (dict_put k v d) k' = (if k' = k then Some v else dict_get d k')"
  by (induction d) auto

lemma dict_get_SomeD: "dict_get d k = Some v \<Longrightarrow> (k, v) \<in> set d"
  by (induction d) (auto split: if_splits)

lemma map_of_dict_put [simp]: "map_of (dict_put k v d) = (map_of d)(k \<mapsto> v)"
  by (rule ext) (simp add: dict_get_put)

lemma dict_keys_put:
  "dict_keys (dict_put k v d) = (if k \<in> set (dict_keys d) then dict_keys d else dict_keys d @ [k])"
  by (induction d) (force split: if_splits)+

lemma set_dict_keys_put [simp]: "set (dict_keys (dict_put k v d)) = insert k (set (dict_keys d))"
  by (induction k v d rule: dict_put.induct) (auto split: if_splits)

lemma distinct_dict_put: "distinct (dict_keys d) \<Longrightarrow> distinct (dict_keys (dict_put k v d))"
  by (simp add: dict_keys_put)

lemma dict_put_absent: "dict_get d k = None \<Longrightarrow> dict_put k v d = d @ [(k, v)]"
  by (induction d) (auto split: if_splits)

lemma set_dict_put_subset: "set (dict_put k v d) \<subseteq> insert (k, v) (set d)"
  by (induction k v d rule: dict_put.induct) (auto split: if_splits)

lemma dict_del_get [simp]: "dict_get (dict_del k d) k' = (if k' = k then None else dict_get d k')"
  by (induction d) (auto simp: dict_del_def)

lemma dict_put_all:
  assumes "\<forall>x \<in> set (dict_values d). P x" and "P v"
  shows "\<forall>x \<in> set (dict_values (dict_put k v d)). P x"
  using assms by (induction k v d rule: dict_put.induct) (auto split: if_splits)

lemma dict_values_get: "dict_get d k = Some v \<Longrightarrow> v \<in> set (dict_values d)"
  by (induction d) (auto split: if_splits)

text \<open>Where the keys are distinct, an update changes one summand of a sum over the values.\<close>

lemma sum_list_dict_put:
  fixes f :: "'v \<Rightarrow> 'a::ab_group_add"
  assumes "distinct (dict_keys d)"
  shows "sum_list (map f (dict_values (dict_put k v d))) =
    sum_list (map f (dict_values d)) + f v - (case dict_get d k of None \<Rightarrow> 0 | Some w \<Rightarrow> f w)"
  using assms by (induction d) (auto simp: algebra_simps)

section \<open>Strings\<close>

text \<open>
  Characters are the code points below 256 of a Python string; the white space and digit
  classes are Python's on that range.
\<close>

definition is_space :: "char \<Rightarrow> bool" where
  "is_space c = (let n = of_char c :: nat in
     (9 \<le> n \<and> n \<le> 13) \<or> (28 \<le> n \<and> n \<le> 32) \<or> n = 133 \<or> n = 160)"

definition is_digit_char :: "char \<Rightarrow> bool" where
  "is_digit_char c = (let n = of_char c :: nat in
     (48 \<le> n \<and> n \<le> 57) \<or> n = 178 \<or> n = 179 \<or> n = 185)"

definition str_isdigit :: "string \<Rightarrow> bool" where
  "str_isdigit s = (s \<noteq> [] \<and> list_all is_digit_char s)"

definition str_strip :: "string \<Rightarrow> string" where
  "str_strip s = rev (dropWhile is_space (rev (dropWhile is_space s)))"

definition lower_char :: "char \<Rightarrow> char" where
  "lower_char c = (let n = of_char c :: nat in
     if (65 \<le> n \<and> n \<le> 90) \<or> (192 \<le> n \<and> n \<le> 222 \<and> n \<noteq> 215) then char_of (n + 32) else c)"

definition str_lower :: "string \<Rightarrow> string" where
  "str_lower s = map lower_char s"

text \<open>
  \<open>str.upper\<close> on the characters whose upper case is again below 256 (so not on the three
  characters 181, 223 and 255).
\<close>

definition upper_char :: "char \<Rightarrow> char" where
  "upper_char c = (let n = of_char c :: nat in
     if (97 \<le> n \<and> n \<le> 122) \<or> (224 \<le> n \<and> n \<le> 254 \<and> n \<noteq> 247) then char_of (n - 32) else c)"

definition str_upper :: "string \<Rightarrow> string" where
  "str_upper s = map upper_char s"

definition str_startswith :: "string \<Rightarrow> string list \<Rightarrow> bool" where
  "str_startswith s ps = list_ex (\<lambda>p. take (length p) s = p) ps"

definition str_replace_char :: "char \<Rightarrow> char \<Rightarrow> string \<Rightarrow> string" where
  "str_replace_char a b s = map (\<lambda>c. if c = a then b else c) s"

definition str_before :: "char \<Rightarrow> string \<Rightarrow> string" where
  "str_before sep s = takeWhile (\<lambda>c. c \<noteq> sep) s"

lemma str_strip_Nil [simp]: "str_strip [] = []"
  by (simp add: str_strip_def)

lemma dropWhile_hd_fixed: "dropWhile P xs = [] \<or> \<not> P (hd (dropWhile P xs))"
  by (induction xs) auto

lemma str_strip_ends:
  assumes "str_strip s \<noteq> []"
  shows "\<not> is_space (hd (str_strip s)) \<and> \<not> is_space (last (str_strip s))"
proof -
  let ?a = "dropWhile is_space s"
  let ?b = "dropWhile is_space (rev ?a)"
  have b: "?b \<noteq> []" using assms by (simp add: str_strip_def)
  have "last (str_strip s) = hd ?b" using b by (simp add: str_strip_def last_rev)
  then have l: "\<not> is_space (last (str_strip s))" using dropWhile_hd_fixed[of is_space "rev ?a"] b
    by (metis (no_types))
  obtain pre where pre: "rev ?a = pre @ ?b" by (metis takeWhile_dropWhile_id)
  then have "?a = rev ?b @ rev pre" by (metis rev_append rev_rev_ident)
  then have "hd ?a = hd (rev ?b)" using b by (metis hd_append2 rev_is_Nil_conv)
  moreover have "?a \<noteq> []" using b by (metis dropWhile.simps(1) rev.simps(1))
  ultimately have "\<not> is_space (hd (rev ?b))" using dropWhile_hd_fixed[of is_space s]
    by (metis (no_types))
  with l show ?thesis by (simp add: str_strip_def)
qed

lemma str_strip_idem [simp]: "str_strip (str_strip s) = str_strip s"
proof (cases "str_strip s = []")
  case False
  have fixed: "dropWhile P xs = xs" if "xs \<noteq> []" "\<not> P (hd xs)" for P and xs :: string
    using that by (cases xs) auto
  from str_strip_ends[OF False] False show ?thesis
    by (simp add: str_strip_def[of "str_strip s"] fixed hd_rev)
qed simp

text \<open>Searching a table to which rows were added.\<close>

lemma find_append: "find P (xs @ ys) = (case find P xs of None \<Rightarrow> find P ys | Some x \<Rightarrow> Some x)"
  by (induction xs) auto

end
