(* ===== verification/Rounding.thy ===== *)
theory Rounding
  imports Prelude
begin

text \<open>
  Correct rounding of a rational number to a given number of significant decimal digits,
  ties to the even digit: the specification against which the decimal arithmetic of theory
  \<open>Decimals\<close> is proved. \<open>rnd p x\<close> is the value nearest to \<open>x\<close> that has at most \<open>p\<close>
  significant digits. The lemmas say that rounding is monotone, odd, keeps the sign, is exact
  on numbers with at most \<open>p\<close> digits, and moves a number by at most half a unit of its last
  digit.
\<close>

section \<open>Rounding to an integer\<close>

definition round_even :: "rat \<Rightarrow> int" where
  "round_even x = (let q = \<lfloor>x\<rfloor>; r = x - of_int q in
     if r < 1/2 then q else if r > 1/2 then q + 1 else if even q then q else q + 1)"

lemma round_even_of_int [simp]: "round_even (of_int k) = k"
  by (simp add: round_even_def Let_def)

lemma round_even_error: "\<bar>of_int (round_even x) - x\<bar> \<le> 1/2"
proof -
  have "of_int \<lfloor>x\<rfloor> \<le> x" "x < of_int \<lfloor>x\<rfloor> + 1" using floor_correct[of x] by auto
  then show ?thesis unfolding round_even_def Let_def by (auto simp: abs_le_iff)
qed

lemma round_even_ge_floor: "\<lfloor>x\<rfloor> \<le> round_even x"
  by (auto simp: round_even_def Let_def)

lemma round_even_le_Suc_floor: "round_even x \<le> \<lfloor>x\<rfloor> + 1"
  by (auto simp: round_even_def Let_def)

lemma round_even_mono: "x \<le> y \<Longrightarrow> round_even x \<le> round_even y"
proof -
  assume xy: "x \<le> y"
  then consider "\<lfloor>x\<rfloor> = \<lfloor>y\<rfloor>" | "\<lfloor>x\<rfloor> + 1 \<le> \<lfloor>y\<rfloor>" using floor_mono[of x y] by linarith
  then show ?thesis
  proof cases
    case 1
    with xy show ?thesis by (auto simp: round_even_def Let_def)
  next
    case 2
    then show ?thesis using round_even_le_Suc_floor[of x] round_even_ge_floor[of y] by linarith
  qed
qed

lemma round_even_minus: "round_even (- x) = - round_even x"
proof (cases "x = of_int \<lfloor>x\<rfloor>")
  case True
  then show ?thesis by (metis of_int_minus round_even_of_int)
next
  case False
  then have f: "\<lfloor>- x\<rfloor> = - \<lfloor>x\<rfloor> - 1"
    using floor_correct[of x] by (intro floor_unique) (auto simp: less_le)
  show ?thesis by (auto simp: round_even_def Let_def f algebra_simps)
qed

lemma round_even_between: "of_int a \<le> x \<Longrightarrow> x \<le> of_int b \<Longrightarrow> a \<le> round_even x \<and> round_even x \<le> b"
  by (metis round_even_mono round_even_of_int)

section \<open>The decimal magnitude of a number\<close>

definition adj :: "rat \<Rightarrow> int" where
  "adj x = \<lfloor>log 10 (real_of_rat \<bar>x\<bar>)\<rfloor>"

lemma adj_bounds:
  assumes "x \<noteq> 0"
  shows "10 powi adj x \<le> \<bar>x\<bar>" "\<bar>x\<bar> < 10 powi (adj x + 1)"
proof -
  let ?y = "real_of_rat \<bar>x\<bar>"
  have y: "?y > 0" using assms by simp
  then have l: "10 powr (log 10 ?y) = ?y" by simp
  have f: "real_of_int (adj x) \<le> log 10 ?y" "log 10 ?y < real_of_int (adj x + 1)"
    unfolding adj_def using floor_correct[of "log 10 ?y"] by auto
  have a: "10 powr real_of_int (adj x) \<le> ?y"
    using powr_mono[OF f(1), of 10] l by linarith
  have b: "?y < 10 powr real_of_int (adj x + 1)"
    using powr_less_mono[OF f(2), of 10] l by linarith
  have c: "10 powr real_of_int k = real_of_rat (10 powi k)" for k
    by (simp add: powr_real_of_int' power_int_def of_rat_power of_rat_inverse of_rat_divide)
  show "10 powi adj x \<le> \<bar>x\<bar>" using a unfolding c by (simp add: of_rat_less_eq)
  show "\<bar>x\<bar> < 10 powi (adj x + 1)" using b unfolding c by (simp add: of_rat_less)
qed

lemma powi10_pos: "(0::rat) < 10 powi k"
  by (simp add: zero_less_power_int)

lemma powi10_not_nonpos [simp]:
  "\<not> (10::rat) powi k \<le> 0" "\<not> (10::rat) powi k < 0" "(10::rat) powi k \<noteq> 0"
  using powi10_pos[of k] by linarith+

lemma powi10_le_iff [simp]: "(10::rat) powi a \<le> 10 powi b \<longleftrightarrow> a \<le> b"
  using power_int_increasing[of a b "10::rat"] power_int_strict_increasing[of b a "10::rat"] by force

lemma powi10_less_iff [simp]: "(10::rat) powi a < 10 powi b \<longleftrightarrow> a < b"
  using powi10_le_iff[of b a] by linarith

lemma powi10_nonneg: "0 \<le> k \<Longrightarrow> (10::rat) powi k = of_int (10 ^ nat k)"
  by (simp add: power_int_def)

lemma powi10_neg: "k \<le> 0 \<Longrightarrow> (10::rat) powi k = 1 / of_int (10 ^ nat (- k))"
  using power_int_minus[of "10::rat" "- k"] by (simp add: powi10_nonneg divide_inverse)

lemma powi10_add: "(10::rat) powi (a + b) = 10 powi a * 10 powi b"
  by (rule power_int_add) simp

lemma adj_unique:
  assumes "10 powi k \<le> \<bar>x\<bar>" "\<bar>x\<bar> < 10 powi (k + 1)"
  shows "adj x = k"
proof -
  have "0 < \<bar>x\<bar>" using assms(1) powi10_pos[of k] by linarith
  then have x: "x \<noteq> 0" by simp
  note b = adj_bounds[OF x]
  from b(1) assms(2) have "10 powi adj x < (10::rat) powi (k + 1)" by (rule le_less_trans)
  moreover from assms(1) b(2) have "10 powi k < (10::rat) powi (adj x + 1)" by (rule le_less_trans)
  ultimately show ?thesis by simp
qed

lemma adj_minus [simp]: "adj (- x) = adj x"
  by (simp add: adj_def)

lemma adj_mono: "0 < x \<Longrightarrow> x \<le> y \<Longrightarrow> adj x \<le> adj y"
proof -
  assume a: "0 < x" "x \<le> y"
  then have "10 powi adj x \<le> x" "y < 10 powi (adj y + 1)"
    using adj_bounds[of x] adj_bounds[of y] by auto
  with a have "10 powi adj x < (10::rat) powi (adj y + 1)" by linarith
  then show ?thesis by simp
qed

section \<open>Rounding to significant digits\<close>

definition rnd :: "nat \<Rightarrow> rat \<Rightarrow> rat" where
  "rnd p x = (if x = 0 then 0
     else let u = 10 powi (adj x - int p + 1) in of_int (round_even (x / u)) * u)"

lemma rnd_0 [simp]: "rnd p 0 = 0"
  by (simp add: rnd_def)

lemma rnd_minus: "rnd p (- x) = - rnd p x"
  by (simp add: rnd_def Let_def round_even_minus)

text \<open>The scaled number lies between two powers of ten, and so does its rounding.\<close>

lemma rnd_between:
  assumes "0 < x" and p: "0 < p"
  shows "10 powi adj x \<le> rnd p x \<and> rnd p x \<le> 10 powi (adj x + 1)"
proof -
  define k where "k = adj x - int p + 1"
  define u where "u = (10::rat) powi k"
  have u: "u > 0" by (simp add: u_def)
  have b: "10 powi adj x \<le> x" "x < 10 powi (adj x + 1)" using adj_bounds[of x] assms by auto
  have e1: "10 powi adj x = of_int (10 ^ (p - 1)) * u"
  proof -
    have "adj x = int (p - 1) + k" using p by (simp add: k_def)
    then show ?thesis by (simp add: u_def powi10_add)
  qed
  have e2: "10 powi (adj x + 1) = of_int (10 ^ p) * u"
  proof -
    have "adj x + 1 = int p + k" by (simp add: k_def)
    then show ?thesis by (simp add: u_def powi10_add)
  qed
  have "of_int (10 ^ (p - 1)) \<le> x / u" "x / u \<le> of_int (10 ^ p)"
    using b u unfolding e1 e2 by (simp_all add: field_simps)
  then have r: "10 ^ (p - 1) \<le> round_even (x / u) \<and> round_even (x / u) \<le> 10 ^ p"
    by (rule round_even_between)
  have "rnd p x = of_int (round_even (x / u)) * u"
    using assms by (simp add: rnd_def Let_def u_def k_def)
  then show ?thesis unfolding e1 e2 using u r by (simp only: mult_le_cancel_right of_int_le_iff) auto
qed

lemma rnd_pos: "0 < x \<Longrightarrow> 0 < p \<Longrightarrow> 0 < rnd p x"
  using rnd_between[of x p] powi10_pos[of "adj x"] by linarith

lemma rnd_mono_pos:
  assumes "0 < x" "x \<le> y" "0 < p"
  shows "rnd p x \<le> rnd p y"
proof (cases "adj x = adj y")
  case True
  have "round_even (x / 10 powi (adj y - int p + 1)) \<le> round_even (y / 10 powi (adj y - int p + 1))"
    using assms by (intro round_even_mono) (simp add: divide_right_mono)
  with True assms show ?thesis by (simp add: rnd_def Let_def)
next
  case False
  with adj_mono[of x y] assms have "adj x + 1 \<le> adj y" by linarith
  then have "10 powi (adj x + 1) \<le> (10::rat) powi adj y" by simp
  with rnd_between[of x p] rnd_between[of y p] assms show ?thesis by linarith
qed

lemma rnd_mono: "x \<le> y \<Longrightarrow> 0 < p \<Longrightarrow> rnd p x \<le> rnd p y"
proof -
  assume a: "x \<le> y" and p: "0 < p"
  consider "0 < x" | "y < 0" | "x \<le> 0" "0 \<le> y" by linarith
  then show ?thesis
  proof cases
    case 1
    then show ?thesis using a p by (rule rnd_mono_pos)
  next
    case 2
    then have "rnd p (- y) \<le> rnd p (- x)" using a p by (intro rnd_mono_pos) auto
    then show ?thesis by (simp add: rnd_minus)
  next
    case 3
    have "rnd p x \<le> 0"
      using 3(1) rnd_pos[of "- x" p] p by (cases "x = 0") (auto simp: rnd_minus)
    moreover have "0 \<le> rnd p y" using 3(2) rnd_pos[of y p] p by (cases "y = 0") auto
    ultimately show ?thesis by linarith
  qed
qed

lemma rnd_nonneg: "0 \<le> x \<Longrightarrow> 0 < p \<Longrightarrow> 0 \<le> rnd p x"
  using rnd_mono[of 0 x p] by simp

lemma rnd_nonpos: "x \<le> 0 \<Longrightarrow> 0 < p \<Longrightarrow> rnd p x \<le> 0"
  using rnd_mono[of x 0 p] by simp

lemma rnd_eq_0_iff: "0 < p \<Longrightarrow> rnd p x = 0 \<longleftrightarrow> x = 0"
  using rnd_pos[of x p] rnd_pos[of "- x" p] by (cases x "0::rat" rule: linorder_cases) (auto simp: rnd_minus)

lemma rnd_sign: "0 < p \<Longrightarrow> 0 \<le> rnd p x \<longleftrightarrow> 0 \<le> x"
  using rnd_pos[of "- x" p] rnd_nonneg[of x p] by (force simp: rnd_minus)

lemma rnd_sign_strict: "0 < p \<Longrightarrow> 0 < rnd p x \<longleftrightarrow> 0 < x"
  using rnd_nonpos[of x p] rnd_pos[of x p] by force

section \<open>Exactly representable numbers\<close>

definition fits :: "nat \<Rightarrow> rat \<Rightarrow> bool" where
  "fits p x = (\<exists>c k. \<bar>c\<bar> \<le> 10 ^ p \<and> x = of_int c * 10 powi k)"

lemma fitsI: "\<bar>c\<bar> \<le> 10 ^ p \<Longrightarrow> fits p (of_int c * 10 powi k)"
  by (auto simp: fits_def)

lemma fits_of_int: "\<bar>c\<bar> \<le> 10 ^ p \<Longrightarrow> fits p (of_int c)"
  using fitsI[of c p 0] by simp

lemma fits_0 [simp]: "fits p 0"
  using fits_of_int[of 0 p] by simp

lemma fits_minus: "fits p x \<Longrightarrow> fits p (- x)"
proof -
  assume "fits p x"
  then obtain c k where "\<bar>c\<bar> \<le> 10 ^ p" "x = of_int c * 10 powi k" by (auto simp: fits_def)
  then show ?thesis using fitsI[of "- c" p k] by simp
qed

lemma rnd_exact_pos:
  assumes x: "0 < x" and f: "fits p x" and p: "0 < p"
  shows "rnd p x = x"
proof -
  obtain c k where c: "\<bar>c\<bar> \<le> 10 ^ p" and xc: "x = of_int c * 10 powi k"
    using f by (auto simp: fits_def)
  have "(0::rat) < of_int c" using x powi10_pos[of k] unfolding xc by (rule zero_less_mult_pos2)
  then have c0: "0 < c" by simp
  define j where "j = adj x - int p + 1"
  have xu: "x / 10 powi j = of_int c * 10 powi (k - j)"
    by (simp add: xc power_int_diff)
  have "\<exists>m. x / 10 powi j = of_int m"
  proof (cases "j \<le> k")
    case True
    then have "x / 10 powi j = of_int (c * 10 ^ nat (k - j))" by (simp add: xu powi10_nonneg)
    then show ?thesis by blast
  next
    case False
    \<comment> \<open>then the coefficient has more than \<open>p\<close> digits, so it is \<open>10 ^ p\<close>\<close>
    have "10 powi adj x \<le> x" using adj_bounds[of x] x by simp
    then have "10 powi (j + int p - 1) \<le> of_int c * (10::rat) powi k" by (simp add: j_def xc)
    moreover have "(10::rat) powi (k + int p) \<le> 10 powi (j + int p - 1)" using False by simp
    ultimately have "10 powi (k + int p) \<le> of_int c * (10::rat) powi k" by (rule order.trans[rotated])
    then have "10 powi int p * 10 powi k \<le> of_int c * (10::rat) powi k"
      by (simp only: powi10_add mult.commute)
    then have "(10::rat) powi int p \<le> of_int c" by (simp only: mult_le_cancel_right) (use powi10_pos[of k] in auto)
    then have "(of_int (10 ^ p) :: rat) \<le> of_int c" by simp
    then have "10 ^ p \<le> c" by (simp only: of_int_le_iff)
    with c have "c = 10 ^ p" by linarith
    then have "x = 10 powi (int p + k)" by (simp add: xc powi10_add)
    then have "adj x = int p + k" by (intro adj_unique) auto
    then have "j = k + 1" by (simp add: j_def)
    with \<open>x = 10 powi (int p + k)\<close> have "x / 10 powi j = 10 powi (int p - 1)"
      by (simp flip: power_int_diff)
    also have "\<dots> = of_int (10 ^ (p - 1))" using p by (simp add: powi10_nonneg nat_diff_distrib)
    finally have "x / 10 powi j = of_int (10 ^ (p - 1))" .
    then show ?thesis by blast
  qed
  then obtain m where m: "x / 10 powi j = of_int m" by blast
  have "rnd p x = of_int (round_even (x / 10 powi j)) * 10 powi j"
    using x by (simp add: rnd_def Let_def j_def)
  also have "\<dots> = x / 10 powi j * 10 powi j" by (simp add: m)
  finally show ?thesis by simp
qed

lemma rnd_exact: "fits p x \<Longrightarrow> 0 < p \<Longrightarrow> rnd p x = x"
  using rnd_exact_pos[of x p] rnd_exact_pos[of "- x" p] fits_minus[of p x]
  by (cases x "0::rat" rule: linorder_cases) (auto simp: rnd_minus)

text \<open>Scaling by a power of ten commutes with rounding.\<close>

lemma adj_scale: "x \<noteq> 0 \<Longrightarrow> adj (x * 10 powi k) = adj x + k"
proof (rule adj_unique)
  assume x: "x \<noteq> 0"
  have e: "\<bar>x * 10 powi k\<bar> = \<bar>x\<bar> * 10 powi k" using powi10_pos[of k] by (simp add: abs_mult)
  show "10 powi (adj x + k) \<le> \<bar>x * 10 powi k\<bar>"
    unfolding e powi10_add using adj_bounds(1)[OF x] powi10_pos[of k] by (intro mult_right_mono) auto
  have "adj x + k + 1 = (adj x + 1) + k" by simp
  then show "\<bar>x * 10 powi k\<bar> < 10 powi (adj x + k + 1)"
    unfolding e using adj_bounds(2)[OF x] powi10_pos[of k] by (simp only: powi10_add mult_less_cancel_right) auto
qed

lemma rnd_scale: "rnd p (x * 10 powi k) = rnd p x * 10 powi k"
proof (cases "x = 0")
  case False
  have e: "10 powi (adj x + k - int p + 1) = 10 powi (adj x - int p + 1) * (10::rat) powi k"
    unfolding powi10_add[symmetric] by (simp add: algebra_simps)
  show ?thesis using False by (simp add: rnd_def Let_def adj_scale e)
qed simp

text \<open>Two numbers strictly between the same neighbouring half-integers round alike.\<close>

lemma round_even_same_half:
  assumes "of_int j / 2 < x" "x < of_int (j + 1) / 2" "of_int j / 2 < y" "y < of_int (j + 1) / 2"
  shows "round_even x = round_even y"
proof (cases "even j")
  case True
  then obtain i where j: "j = 2 * i" by (elim evenE)
  have "round_even z = i" if "of_int j / 2 < z" "z < of_int (j + 1) / 2" for z
  proof -
    have "\<lfloor>z\<rfloor> = i" using that j by (intro floor_unique) auto
    then show ?thesis using that j by (simp add: round_even_def Let_def)
  qed
  then show ?thesis using assms by simp
next
  case False
  then obtain i where j: "j = 2 * i + 1" by (elim oddE)
  have "round_even z = i + 1" if "of_int j / 2 < z" "z < of_int (j + 1) / 2" for z
  proof -
    have "\<lfloor>z\<rfloor> = i" using that j by (intro floor_unique) auto
    then show ?thesis using that j by (simp add: round_even_def Let_def)
  qed
  then show ?thesis using assms by simp
qed

lemma rnd_le_exact: "x \<le> y \<Longrightarrow> fits p y \<Longrightarrow> 0 < p \<Longrightarrow> rnd p x \<le> y"
  using rnd_mono[of x y p] by (simp add: rnd_exact)

lemma rnd_ge_exact: "y \<le> x \<Longrightarrow> fits p y \<Longrightarrow> 0 < p \<Longrightarrow> y \<le> rnd p x"
  using rnd_mono[of y x p] by (simp add: rnd_exact)

lemma rnd_fits: "0 < p \<Longrightarrow> fits p (rnd p x)"
proof -
  assume p: "0 < p"
  have pos: "fits p (rnd p y)" if "0 < y" for y
  proof -
    let ?u = "10 powi (adj y - int p + 1) :: rat"
    have e: "rnd p y = of_int (round_even (y / ?u)) * ?u" using that by (simp add: rnd_def Let_def)
    have "10 powi (adj y + 1) = of_int (10 ^ p) * ?u"
      using powi10_add[of "int p" "adj y - int p + 1"] by (simp add: algebra_simps)
    with rnd_between[OF that p] e have "round_even (y / ?u) \<le> 10 ^ p"
      by (metis mult_le_cancel_right_pos of_int_le_iff powi10_pos)
    moreover have "0 \<le> round_even (y / ?u)"
      using round_even_mono[of 0 "y / ?u"] round_even_of_int[of 0] that by simp
    ultimately show ?thesis unfolding e by (intro fitsI) simp
  qed
  show ?thesis
    using pos[of x] pos[of "- x"] fits_minus[of p "rnd p (- x)"]
    by (cases x "0::rat" rule: linorder_cases) (auto simp: rnd_minus)
qed

lemma rnd_idem [simp]: "0 < p \<Longrightarrow> rnd p (rnd p x) = rnd p x"
  by (simp add: rnd_exact rnd_fits)

text \<open>Rounding moves a number by at most half a unit in the last place.\<close>

lemma rnd_error:
  assumes "0 < p"
  shows "\<bar>rnd p x - x\<bar> \<le> \<bar>x\<bar> * 10 powi (1 - int p) / 2"
proof (cases "x = 0")
  case False
  define u where "u = (10::rat) powi (adj x - int p + 1)"
  have u: "u > 0" by (simp add: u_def)
  have "\<bar>of_int (round_even (x / u)) * u - x\<bar> = \<bar>of_int (round_even (x / u)) - x / u\<bar> * u"
    using u by (simp add: abs_mult_pos left_diff_distrib[symmetric] flip: abs_mult) (simp add: abs_mult left_diff_distrib)
  also have "\<dots> \<le> 1/2 * u" using round_even_error[of "x / u"] u by (intro mult_right_mono) auto
  also have "1/2 * u \<le> \<bar>x\<bar> * 10 powi (1 - int p) / 2"
  proof -
    have "u = 10 powi adj x * 10 powi (1 - int p)"
      unfolding u_def powi10_add[symmetric] by (simp add: algebra_simps)
    also have "\<dots> \<le> \<bar>x\<bar> * 10 powi (1 - int p)"
      using adj_bounds(1)[OF False] powi10_pos[of "1 - int p"] by (intro mult_right_mono) auto
    finally show ?thesis by simp
  qed
  finally show ?thesis using False by (simp add: rnd_def Let_def u_def)
qed simp

text \<open>
  A number with at most \<open>p\<close> digits is recovered from any value close enough to it: closer than
  half a unit of a \<open>(p + 1)\<close>-digit place.
\<close>

lemma round_even_near: "of_int m - 1/2 < x \<Longrightarrow> x < of_int m + 1/2 \<Longrightarrow> round_even x = m"
proof (cases "of_int m \<le> x")
  case True
  moreover assume "x < of_int m + 1/2"
  ultimately have "\<lfloor>x\<rfloor> = m" "x - of_int m < 1/2" by (auto intro: floor_unique)
  then show ?thesis by (simp add: round_even_def Let_def)
next
  case False
  moreover assume "of_int m - 1/2 < x"
  ultimately have "\<lfloor>x\<rfloor> = m - 1" "1/2 < x - of_int (m - 1)" by (auto intro: floor_unique)
  then show ?thesis by (simp add: round_even_def Let_def)
qed

lemma rnd_near_at:
  assumes y: "0 < y" and k: "adj y - int p + 1 = k"
    and near: "\<bar>y - of_int m * 10 powi k\<bar> < 10 powi k / 2"
  shows "rnd p y = of_int m * 10 powi k"
proof -
  have u: "(0::rat) < 10 powi k" by (rule powi10_pos)
  have "\<bar>y / 10 powi k - of_int m\<bar> * 10 powi k = \<bar>y - of_int m * 10 powi k\<bar>"
  proof -
    have "y - of_int m * 10 powi k = (y / 10 powi k - of_int m) * 10 powi k"
      using u by (simp add: left_diff_distrib)
    then show ?thesis using u by (simp only: abs_mult abs_of_pos)
  qed
  with near have "\<bar>y / 10 powi k - of_int m\<bar> * 10 powi k < 1/2 * 10 powi k" by simp
  then have "\<bar>y / 10 powi k - of_int m\<bar> < 1/2" using u by (simp only: mult_less_cancel_right)
  then have "round_even (y / 10 powi k) = m" by (intro round_even_near) linarith+
  then show ?thesis using y by (simp add: rnd_def Let_def k)
qed

lemma rnd_near:
  assumes x: "0 < x" "fits p x" and p: "0 < p"
    and near: "\<bar>y - x\<bar> < x * 10 powi (- int p - 1) / 2"
  shows "rnd p y = x"
proof -
  define a where "a = adj x"
  define k where "k = a - int p + 1"
  have ab: "10 powi a \<le> x" "x < 10 powi (a + 1)" using adj_bounds[of x] x by (auto simp: a_def)
  have u: "(0::rat) < 10 powi k" by (rule powi10_pos)
  have top: "10 powi (a + 1) = of_int (10 ^ p) * (10::rat) powi k"
    using powi10_add[of "int p" k] by (simp add: k_def)
  have bot: "10 powi a = of_int (10 ^ (p - 1)) * (10::rat) powi k"
  proof -
    have "a = int (p - 1) + k" using p by (simp add: k_def)
    then have "10 powi a = 10 powi int (p - 1) * (10::rat) powi k" by (simp only: powi10_add)
    then show ?thesis by simp
  qed
  obtain m where m: "x = of_int m * 10 powi k"
    using rnd_exact[OF x(2) p] x(1) by (metis a_def k_def rnd_def less_irrefl)
  have mlt: "m < 10 ^ p"
  proof -
    have "of_int m * (10::rat) powi k < of_int (10 ^ p) * 10 powi k" using ab(2) unfolding top m .
    then have "(of_int m :: rat) < of_int (10 ^ p)" using u by (simp only: mult_less_cancel_right)
    then show ?thesis by (simp only: of_int_less_iff)
  qed
  have mge: "10 ^ (p - 1) \<le> m"
  proof -
    have "of_int (10 ^ (p - 1)) * (10::rat) powi k \<le> of_int m * 10 powi k" using ab(1) unfolding bot m .
    then have "(of_int (10 ^ (p - 1)) :: rat) \<le> of_int m" using u by (simp only: mult_le_cancel_right)
    then show ?thesis by (simp only: of_int_le_iff)
  qed
  \<comment> \<open>the distance is below half a unit of the next smaller place\<close>
  have small: "\<bar>y - x\<bar> < 10 powi (k - 1) / 2"
  proof -
    have "x * 10 powi (- int p - 1) \<le> 10 powi (a + 1) * 10 powi (- int p - 1)"
      using ab(2) powi10_pos[of "- int p - 1"] by (intro mult_right_mono) auto
    also have "\<dots> = 10 powi (k - 1)" unfolding powi10_add[symmetric] by (simp add: k_def)
    finally show ?thesis using near by linarith
  qed
  have k1: "(10::rat) powi k = 10 * 10 powi (k - 1)" using powi10_add[of 1 "k - 1"] by simp
  have v: "(0::rat) < 10 powi (k - 1)" by (rule powi10_pos)
  have y0: "0 < y"
  proof -
    have "10 powi (k - 1) \<le> (10::rat) powi a" using p by (simp add: k_def)
    then show ?thesis using small ab(1) v by linarith
  qed
  consider "10 powi a \<le> y" | "y < 10 powi a" by linarith
  then show ?thesis
  proof cases
    case 1
    have "of_int (m + 1) \<le> (of_int (10 ^ p) :: rat)" using mlt by (simp only: of_int_le_iff)
    then have "of_int (m + 1) * (10::rat) powi k \<le> 10 powi (a + 1)"
      unfolding top using u by (intro mult_right_mono) auto
    then have "x + 10 powi k \<le> 10 powi (a + 1)" by (simp add: m algebra_simps)
    then have "y < 10 powi (a + 1)" using small k1 v by linarith
    then have "adj y = a" using 1 y0 by (intro adj_unique) auto
    then have "adj y - int p + 1 = k" by (simp add: k_def)
    moreover have "\<bar>y - of_int m * 10 powi k\<bar> < 10 powi k / 2" using small k1 v unfolding m by linarith
    ultimately show ?thesis unfolding m using y0 by (intro rnd_near_at)
  next
    case 2
    have "x < 10 powi a + 10 powi k" using 2 small k1 v by linarith
    then have "of_int m * (10::rat) powi k < of_int (10 ^ (p - 1) + 1) * 10 powi k"
      unfolding bot m by (simp add: algebra_simps)
    then have "(of_int m :: rat) < of_int (10 ^ (p - 1) + 1)" using u by (simp only: mult_less_cancel_right)
    then have "m < 10 ^ (p - 1) + 1" by (simp only: of_int_less_iff)
    with mge have "m = 10 ^ (p - 1)" by simp
    then have xa: "x = 10 powi a" unfolding m bot by simp
    have xm: "x = of_int (10 ^ p) * 10 powi (k - 1)"
      using powi10_add[of "int p" "k - 1"] by (simp add: xa k_def)
    have "10 powi a = 10 * (10::rat) powi (a - 1)" using powi10_add[of 1 "a - 1"] by simp
    moreover have "10 powi (k - 1) \<le> (10::rat) powi (a - 1)" using p by (simp add: k_def)
    ultimately have "10 powi (a - 1) \<le> y" using small xa v by linarith
    then have "adj y = a - 1" using 2 y0 by (intro adj_unique) auto
    then have "adj y - int p + 1 = k - 1" by (simp add: k_def)
    then show ?thesis unfolding xm using small xm y0 by (intro rnd_near_at) auto
  qed
qed

end
