(* ===== verification/Decimals.thy ===== *)
theory Decimals
  imports Rounding "HOL-Library.Log_Nat"
begin

text \<open>
  Python's \<open>decimal.Decimal\<close> under the default context (28 significant digits, ties to even,
  traps for invalid operations and division by zero), as the code uses it. A finite number is
  its coefficient and exponent, so representation-dependent operations (\<open>quantize\<close>,
  \<open>as_tuple\<close>) can be written as well as the arithmetic. Every operation computes on integers and
  is proved equal to the exact rational operation followed by the rounding \<open>rnd 28\<close> of theory
  \<open>Rounding\<close>; the collection \<open>val_simps\<close> holds these equations. The exponent range of the
  context (\<open>Emin\<close>, \<open>Emax\<close>: 999999 digits) and the sign of a zero are not modelled.
\<close>

section \<open>Numbers\<close>

datatype decimal = Decimal (coeff: int) (expo: int)

definition val :: "decimal \<Rightarrow> rat" where
  "val d = of_int (coeff d) * 10 powi expo d"

lemma val_Decimal: "val (Decimal c e) = of_int c * 10 powi e"
  by (simp add: val_def)

abbreviation DZERO :: decimal where "DZERO \<equiv> Decimal 0 0"

abbreviation DONE :: decimal where "DONE \<equiv> Decimal 1 0"

definition dec_of_int :: "int \<Rightarrow> decimal" where
  "dec_of_int n = Decimal n 0"

lemma val_DZERO [simp]: "val (Decimal 0 e) = 0"
  by (simp add: val_def)

lemma val_expo_0 [simp]: "val (Decimal c 0) = of_int c"
  by (simp add: val_def)

lemma val_dec_of_int [simp]: "val (dec_of_int n) = of_int n"
  by (simp add: dec_of_int_def)

lemma val_eq_0_iff: "val d = 0 \<longleftrightarrow> coeff d = 0"
  by (simp add: val_def)

lemma val_pos_iff: "0 < val d \<longleftrightarrow> 0 < coeff d"
  using powi10_pos[of "expo d"] by (auto simp: val_def zero_less_mult_iff)

text \<open>Two numbers brought to a common exponent, as comparison and addition do.\<close>

definition aligned :: "decimal \<Rightarrow> decimal \<Rightarrow> int \<times> int \<times> int" where
  "aligned a b = (let e = min (expo a) (expo b) in
     (coeff a * 10 ^ nat (expo a - e), coeff b * 10 ^ nat (expo b - e), e))"

lemma aligned_val:
  assumes "aligned a b = (x, y, e)"
  shows "val a = of_int x * 10 powi e" "val b = of_int y * 10 powi e"
proof -
  have e: "e = min (expo a) (expo b)" and x: "x = coeff a * 10 ^ nat (expo a - e)"
    and y: "y = coeff b * 10 ^ nat (expo b - e)" using assms by (auto simp: aligned_def Let_def)
  have s: "(10::rat) powi k = of_int (10 ^ nat (k - e)) * 10 powi e" if "e \<le> k" for k
    using powi10_add[of "k - e" e] that by (simp add: powi10_nonneg)
  show "val a = of_int x * 10 powi e" using s[of "expo a"] e by (simp add: val_def x)
  show "val b = of_int y * 10 powi e" using s[of "expo b"] e by (simp add: val_def y)
qed

definition dle :: "decimal \<Rightarrow> decimal \<Rightarrow> bool" where
  "dle a b = (case aligned a b of (x, y, e) \<Rightarrow> x \<le> y)"

definition dlt :: "decimal \<Rightarrow> decimal \<Rightarrow> bool" where
  "dlt a b = (case aligned a b of (x, y, e) \<Rightarrow> x < y)"

definition deq :: "decimal \<Rightarrow> decimal \<Rightarrow> bool" where
  "deq a b = (case aligned a b of (x, y, e) \<Rightarrow> x = y)"

lemma dle_val [val_simps]: "dle a b \<longleftrightarrow> val a \<le> val b"
proof -
  obtain x y e where al: "aligned a b = (x, y, e)" by (cases "aligned a b")
  show ?thesis using aligned_val[OF al] powi10_pos[of e] by (simp add: dle_def al)
qed

lemma dlt_val [val_simps]: "dlt a b \<longleftrightarrow> val a < val b"
proof -
  obtain x y e where al: "aligned a b = (x, y, e)" by (cases "aligned a b")
  show ?thesis using aligned_val[OF al] powi10_pos[of e] by (simp add: dlt_def al)
qed

lemma deq_val [val_simps]: "deq a b \<longleftrightarrow> val a = val b"
proof -
  obtain x y e where al: "aligned a b = (x, y, e)" by (cases "aligned a b")
  show ?thesis using aligned_val[OF al] powi10_pos[of e] by (simp add: deq_def al)
qed

text \<open>Python's \<open>max\<close> and \<open>min\<close> return their first argument where the two are equal.\<close>

definition dmax :: "decimal \<Rightarrow> decimal \<Rightarrow> decimal" where
  "dmax a b = (if dlt a b then b else a)"

definition dmin :: "decimal \<Rightarrow> decimal \<Rightarrow> decimal" where
  "dmin a b = (if dlt b a then b else a)"

lemma val_dmax [val_simps]: "val (dmax a b) = max (val a) (val b)"
  by (simp add: dmax_def dlt_val)

lemma val_dmin [val_simps]: "val (dmin a b) = min (val a) (val b)"
  by (simp add: dmin_def dlt_val)

section \<open>Rounding to the context\<close>

definition div_even :: "int \<Rightarrow> int \<Rightarrow> int" where
  "div_even c m = (let q = c div m; r = c mod m in
     if 2 * r < m then q else if 2 * r > m then q + 1 else if even q then q else q + 1)"

lemma div_even_round:
  assumes "0 < m"
  shows "div_even c m = round_even (of_int c / of_int m)"
proof -
  have f: "\<lfloor>of_int c / of_int m :: rat\<rfloor> = c div m" by (rule floor_divide_of_int_eq)
  have "of_int c = of_int (c div m) * of_int m + (of_int (c mod m) :: rat)"
    by (metis div_mult_mod_eq of_int_add of_int_mult)
  then have r: "of_int c / of_int m - of_int (c div m) = (of_int (c mod m) / of_int m :: rat)"
    using assms by (simp add: field_simps)
  have lt: "of_int (c mod m) / of_int m < (1/2 :: rat) \<longleftrightarrow> 2 * (c mod m) < m"
    using assms by (simp add: field_simps) (metis mult.commute of_int_less_iff of_int_mult of_int_numeral)
  have gt: "of_int (c mod m) / of_int m > (1/2 :: rat) \<longleftrightarrow> 2 * (c mod m) > m"
    using assms by (simp add: field_simps) (metis mult.commute of_int_less_iff of_int_mult of_int_numeral)
  show ?thesis unfolding div_even_def round_even_def Let_def f r lt gt by simp
qed

text \<open>The number of decimal digits of a positive integer, by repeated division.\<close>

function ndig :: "int \<Rightarrow> nat" where
  "ndig n = (if n \<le> 0 then 0 else Suc (ndig (n div 10)))"
  by pat_completeness auto
termination
  by (relation "measure nat") auto

declare ndig.simps [simp del]

lemma ndig_floorlog: "ndig n = floorlog 10 (nat n)"
proof (induction n rule: ndig.induct)
  case (1 n)
  show ?case
  proof (cases "n \<le> 0")
    case True
    then show ?thesis by (simp add: ndig.simps[of n] floorlog_def)
  next
    case False
    then have "ndig n = Suc (floorlog 10 (nat (n div 10)))" using 1 by (simp add: ndig.simps[of n])
    also have "nat (n div 10) = nat n div 10" using False by (simp add: nat_div_distrib)
    also have "Suc (floorlog 10 (nat n div 10)) = floorlog 10 (nat n)"
      using False compute_floorlog[of 10 "nat n"] by simp
    finally show ?thesis .
  qed
qed

definition fix_prec :: "nat \<Rightarrow> decimal \<Rightarrow> decimal" where
  "fix_prec p d = (let n = ndig \<bar>coeff d\<bar> in
     if n \<le> p then d
     else let s = n - p; q = div_even (coeff d) (10 ^ s) in
       if ndig \<bar>q\<bar> > p then Decimal (q div 10) (expo d + int s + 1)
       else Decimal q (expo d + int s))"

lemma floorlog_int_bounds:
  assumes "c \<noteq> (0::int)"
  shows "10 ^ (floorlog 10 (nat \<bar>c\<bar>) - 1) \<le> \<bar>c\<bar>" "\<bar>c\<bar> < 10 ^ floorlog 10 (nat \<bar>c\<bar>)"
    "0 < floorlog 10 (nat \<bar>c\<bar>)"
proof -
  have n: "0 < nat \<bar>c\<bar>" using assms by simp
  note b = floorlog_bounds[OF n, of 10]
  show "10 ^ (floorlog 10 (nat \<bar>c\<bar>) - 1) \<le> \<bar>c\<bar>"
    using b by (metis abs_ge_zero nat_le_eq_zle nat_power_eq nat_numeral one_less_numeral_iff semiring_norm(76) zero_le_numeral)
  show "\<bar>c\<bar> < 10 ^ floorlog 10 (nat \<bar>c\<bar>)"
    using b n by (metis nat_less_iff of_nat_numeral of_nat_power abs_ge_zero one_less_numeral_iff semiring_norm(76))
  show "0 < floorlog 10 (nat \<bar>c\<bar>)" using n floorlog_eq_zero_iff[of 10 "nat \<bar>c\<bar>"] by simp
qed

lemma adj_val:
  assumes "coeff d \<noteq> 0"
  shows "adj (val d) = int (floorlog 10 (nat \<bar>coeff d\<bar>)) - 1 + expo d"
proof (rule adj_unique)
  let ?n = "floorlog 10 (nat \<bar>coeff d\<bar>)"
  note b = floorlog_int_bounds[OF assms]
  have u: "0 < (10::rat) powi expo d" by (rule powi10_pos)
  have v: "\<bar>val d\<bar> = of_int \<bar>coeff d\<bar> * 10 powi expo d" using u by (simp add: val_def abs_mult)
  have "of_int (10 ^ (?n - 1)) \<le> (of_int \<bar>coeff d\<bar> :: rat)" using b(1) by (simp only: of_int_le_iff)
  moreover have "10 powi (int ?n - 1 + expo d) = of_int (10 ^ (?n - 1)) * (10::rat) powi expo d"
    unfolding powi10_add using b(3) by (simp add: powi10_nonneg nat_diff_distrib)
  ultimately show "10 powi (int ?n - 1 + expo d) \<le> \<bar>val d\<bar>" using u unfolding v by simp
  have "of_int \<bar>coeff d\<bar> < (of_int (10 ^ ?n) :: rat)" using b(2) by (simp only: of_int_less_iff)
  moreover have "10 powi (int ?n - 1 + expo d + 1) = of_int (10 ^ ?n) * (10::rat) powi expo d"
    using powi10_add[of "int ?n" "expo d"] by simp
  ultimately show "\<bar>val d\<bar> < 10 powi (int ?n - 1 + expo d + 1)" using u unfolding v by simp
qed

lemma val_fix_prec [val_simps]:
  assumes p: "0 < p"
  shows "val (fix_prec p d) = rnd p (val d)"
proof (cases "floorlog 10 (nat \<bar>coeff d\<bar>) \<le> p")
  case True
  have "\<bar>coeff d\<bar> \<le> 10 ^ p"
  proof (cases "coeff d = 0")
    case False
    note floorlog_int_bounds(2)[OF this]
    also have "(10::int) ^ floorlog 10 (nat \<bar>coeff d\<bar>) \<le> 10 ^ p" using True by (intro power_increasing) auto
    finally show ?thesis by simp
  qed simp
  then have "fits p (val d)" unfolding val_def by (rule fitsI)
  with True p show ?thesis by (simp add: fix_prec_def ndig_floorlog Let_def rnd_exact)
next
  case False
  let ?n = "floorlog 10 (nat \<bar>coeff d\<bar>)"
  define s where "s = ?n - p"
  define q where "q = div_even (coeff d) (10 ^ s)"
  have c: "coeff d \<noteq> 0" using False floorlog_eq_zero_iff[of 10 "nat \<bar>coeff d\<bar>"] by auto
  have k: "adj (val d) - int p + 1 = expo d + int s" using False by (simp add: adj_val[OF c] s_def)
  have vu: "val d / 10 powi (expo d + int s) = of_int (coeff d) / of_int (10 ^ s)"
    using powi10_pos[of "expo d"] by (simp add: val_def powi10_add)
  have qr: "q = round_even (val d / 10 powi (expo d + int s))"
    unfolding q_def vu by (rule div_even_round) simp
  have main: "rnd p (val d) = of_int q * 10 powi (expo d + int s)"
    unfolding rnd_def Let_def k qr using c by (simp add: val_eq_0_iff)
  show ?thesis
  proof (cases "floorlog 10 (nat \<bar>q\<bar>) > p")
    case True
    then have q0: "q \<noteq> 0" using floorlog_eq_zero_iff[of 10 "nat \<bar>q\<bar>"] by auto
    have "(10::int) ^ p \<le> 10 ^ (floorlog 10 (nat \<bar>q\<bar>) - 1)" using True by (intro power_increasing) auto
    also note floorlog_int_bounds(1)[OF q0]
    finally have lo: "10 ^ p \<le> \<bar>q\<bar>" .
    have "\<bar>coeff d\<bar> < 10 ^ ?n" by (rule floorlog_int_bounds(2)[OF c])
    also have "(10::int) ^ ?n = 10 ^ p * 10 ^ s" using False by (simp add: s_def flip: power_add)
    finally have "of_int \<bar>coeff d\<bar> \<le> (of_int (10 ^ p * 10 ^ s) :: rat)" by (simp only: of_int_le_iff)
    then have "\<bar>of_int (coeff d)\<bar> / of_int (10 ^ s) \<le> (of_int (10 ^ p) :: rat)" by (simp add: field_simps)
    then have "of_int (- (10 ^ p)) \<le> (of_int (coeff d) / of_int (10 ^ s) :: rat)"
      "(of_int (coeff d) / of_int (10 ^ s) :: rat) \<le> of_int (10 ^ p)"
      by (auto simp: abs_le_iff minus_le_iff field_simps)
    then have "- (10 ^ p) \<le> q \<and> q \<le> 10 ^ p" unfolding qr vu by (rule round_even_between)
    with lo have "q = 10 ^ p \<or> q = - (10 ^ p)" by auto
    then have "10 dvd q" using p by (auto intro: dvd_power)
    then have "(of_int (q div 10) :: rat) * 10 = of_int q"
      by (metis dvd_div_mult_self of_int_mult of_int_numeral)
    then show ?thesis using False True
      by (simp add: fix_prec_def ndig_floorlog Let_def s_def[symmetric] q_def[symmetric] main val_Decimal powi10_add mult.commute mult.left_commute)
  next
    case False2: False
    then show ?thesis using False
      by (simp add: fix_prec_def ndig_floorlog Let_def s_def[symmetric] q_def[symmetric] main val_Decimal)
  qed
qed

section \<open>Arithmetic\<close>

definition exact_add :: "decimal \<Rightarrow> decimal \<Rightarrow> decimal" where
  "exact_add a b = (case aligned a b of (x, y, e) \<Rightarrow> Decimal (x + y) e)"

definition exact_mul :: "decimal \<Rightarrow> decimal \<Rightarrow> decimal" where
  "exact_mul a b = Decimal (coeff a * coeff b) (expo a + expo b)"

definition exact_neg :: "decimal \<Rightarrow> decimal" where
  "exact_neg a = Decimal (- coeff a) (expo a)"

lemma val_exact_add [val_simps]: "val (exact_add a b) = val a + val b"
proof -
  obtain x y e where al: "aligned a b = (x, y, e)" by (cases "aligned a b")
  show ?thesis using aligned_val[OF al] by (simp add: exact_add_def al val_Decimal algebra_simps)
qed

lemma val_exact_mul [val_simps]: "val (exact_mul a b) = val a * val b"
  by (simp add: exact_mul_def val_def powi10_add)

lemma val_exact_neg [val_simps]: "val (exact_neg a) = - val a"
  by (simp add: exact_neg_def val_def)

definition dadd :: "decimal \<Rightarrow> decimal \<Rightarrow> decimal" where
  "dadd a b = fix_prec 28 (exact_add a b)"

definition dsub :: "decimal \<Rightarrow> decimal \<Rightarrow> decimal" where
  "dsub a b = fix_prec 28 (exact_add a (exact_neg b))"

definition dmul :: "decimal \<Rightarrow> decimal \<Rightarrow> decimal" where
  "dmul a b = fix_prec 28 (exact_mul a b)"

text \<open>The unary operators and \<open>abs\<close> round to the context as well.\<close>

definition dneg :: "decimal \<Rightarrow> decimal" where
  "dneg a = fix_prec 28 (exact_neg a)"

definition dabs :: "decimal \<Rightarrow> decimal" where
  "dabs a = fix_prec 28 (Decimal \<bar>coeff a\<bar> (expo a))"

definition dsum :: "decimal list \<Rightarrow> decimal" where
  "dsum xs = foldl dadd DZERO xs"

abbreviation cr :: "rat \<Rightarrow> rat" where "cr \<equiv> rnd 28"

lemma val_dadd [val_simps]: "val (dadd a b) = cr (val a + val b)"
  by (simp add: dadd_def val_simps)

lemma val_dsub [val_simps]: "val (dsub a b) = cr (val a - val b)"
  by (simp add: dsub_def val_simps)

lemma val_dmul [val_simps]: "val (dmul a b) = cr (val a * val b)"
  by (simp add: dmul_def val_simps)

lemma val_dneg [val_simps]: "val (dneg a) = - cr (val a)"
  by (simp add: dneg_def val_simps rnd_minus)

lemma val_dabs [val_simps]: "val (dabs a) = \<bar>cr (val a)\<bar>"
proof -
  have "val (Decimal \<bar>coeff a\<bar> (expo a)) = \<bar>val a\<bar>" by (simp add: val_def abs_mult)
  then have "val (dabs a) = cr \<bar>val a\<bar>" by (simp add: dabs_def val_simps)
  then show ?thesis
    using rnd_nonneg[of "val a" 28] rnd_nonneg[of "- val a" 28] by (auto simp: abs_if rnd_minus)
qed

lemma val_dabs_nonneg [simp]: "0 \<le> val (dabs a)"
  by (simp add: val_dabs)

lemma dsum_Nil [simp]: "dsum [] = DZERO"
  by (simp add: dsum_def)

lemma dsum_snoc [simp]: "dsum (xs @ [x]) = dadd (dsum xs) x"
  by (simp add: dsum_def)

lemma val_dsum_nonneg: "\<forall>x \<in> set xs. 0 \<le> val x \<Longrightarrow> 0 \<le> val (dsum xs)"
  by (induction xs rule: rev_induct) (auto simp: val_simps intro!: rnd_nonneg)

text \<open>A sum of whole numbers within the precision is exact.\<close>

lemma dsum_whole:
  assumes "\<forall>x \<in> set xs. 0 \<le> f x \<and> val (g x) = of_int (f x)" "sum_list (map f xs) \<le> 10 ^ 28"
  shows "val (dsum (map g xs)) = of_int (sum_list (map f xs)) \<and> 0 \<le> sum_list (map f xs)"
  using assms
proof (induction xs rule: rev_induct)
  case (snoc x xs)
  from snoc.prems have x: "0 \<le> f x" "val (g x) = of_int (f x)" by auto
  with snoc.prems have IH: "val (dsum (map g xs)) = of_int (sum_list (map f xs))" "0 \<le> sum_list (map f xs)"
    using snoc.IH by auto
  have e: "val (dsum (map g xs)) + val (g x) = of_int (sum_list (map f (xs @ [x])))" using IH x by simp
  have "fits 28 (of_int (sum_list (map f (xs @ [x]))))"
    using snoc.prems(2) IH(2) x(1) by (intro fits_of_int) auto
  then show ?case using e x(1) IH(2) by (simp add: val_simps rnd_exact)
qed simp

text \<open>
  Division. As the reference implementation does, the quotient is taken with one or two digits
  more than the precision; an inexact quotient whose last digit is 0 or 5 is bumped by one, so
  that the final rounding cannot mistake it for a tie or an exact value; an exact quotient is
  reduced towards the ideal exponent.
\<close>

fun drop_zeros :: "nat \<Rightarrow> int \<Rightarrow> int \<Rightarrow> decimal" where
  "drop_zeros 0 c e = Decimal c e"
| "drop_zeros (Suc k) c e = (if c mod 10 = 0 then drop_zeros k (c div 10) (e + 1) else Decimal c e)"

definition quotient_digits :: "nat \<Rightarrow> decimal \<Rightarrow> decimal \<Rightarrow> decimal" where
  "quotient_digits p a b =
     (let n = \<bar>coeff a\<bar>; m = \<bar>coeff b\<bar>;
          shift = int (ndig m) - int (ndig n) + int p + 1;
          ex = expo a - expo b - shift;
          num = (if 0 \<le> shift then n * 10 ^ nat shift else n);
          den = (if 0 \<le> shift then m else m * 10 ^ nat (- shift));
          q = num div den
      in if num mod den \<noteq> 0 then Decimal (if q mod 5 = 0 then q + 1 else q) ex
         else drop_zeros (nat (expo a - expo b - ex)) q ex)"

definition ddiv_prec :: "nat \<Rightarrow> decimal \<Rightarrow> decimal \<Rightarrow> decimal res" where
  "ddiv_prec p a b =
     (if coeff b = 0 then Inl (if coeff a = 0 then InvalidOperation else DivisionByZero)
      else if coeff a = 0 then Inr (Decimal 0 (expo a - expo b))
      else let d = quotient_digits p a b
           in Inr (fix_prec p (if (coeff a < 0) = (coeff b < 0) then d else exact_neg d)))"

definition ddiv :: "decimal \<Rightarrow> decimal \<Rightarrow> decimal res" where
  "ddiv a b = ddiv_prec 28 a b"

lemma val_drop_zeros: "val (drop_zeros k c e) = of_int c * 10 powi e"
proof (induction k arbitrary: c e)
  case (Suc k)
  show ?case
  proof (cases "c mod 10 = 0")
    case True
    then have "(of_int (c div 10) :: rat) * 10 = of_int c"
      by (metis dvd_div_mult_self mod_0_imp_dvd of_int_mult of_int_numeral)
    then show ?thesis using True Suc.IH[of "c div 10" "e + 1"]
      by (simp add: powi10_add mult.commute mult.left_commute)
  qed (simp add: val_Decimal)
qed (simp add: val_Decimal)

text \<open>The bumped quotient rounds as the exact one does.\<close>

lemma sticky_round:
  fixes q q' :: int and y :: rat
  assumes q: "10 ^ p \<le> q" and p: "0 < p" and y: "of_int q < y" "y < of_int (q + 1)"
    and q': "q' = (if q mod 5 = 0 then q + 1 else q)"
  shows "rnd p (of_int q') = rnd p y"
proof -
  define n where "n = adj (of_int q)"
  have q0: "0 < q" using q by (smt (verit) zero_less_power)
  have nb: "10 powi n \<le> (of_int q :: rat)" "of_int q < (10::rat) powi (n + 1)"
    using adj_bounds[of "of_int q"] q0 by (auto simp: n_def)
  have np: "int p \<le> n"
  proof -
    have "(of_int (10 ^ p) :: rat) \<le> of_int q" using q by (simp only: of_int_le_iff)
    then have "(10::rat) powi int p \<le> of_int q" by simp
    with nb(2) have "(10::rat) powi int p < 10 powi (n + 1)" by linarith
    then have "int p < n + 1" by (simp only: powi10_less_iff)
    then show ?thesis by simp
  qed
  define M where "M = (10::int) ^ nat (n + 1)"
  have M: "(10::rat) powi (n + 1) = of_int M" using np by (simp add: M_def powi10_nonneg)
  have "q < M" using nb(2) unfolding M by simp
  have M5: "5 dvd M"
  proof -
    have "M = 10 * 10 ^ nat n" using np by (simp add: M_def nat_add_distrib)
    then show ?thesis by simp
  qed
  have q'M: "q' < M"
  proof (cases "q mod 5 = 0")
    case True
    have "q + 1 \<noteq> M"
    proof
      assume "q + 1 = M"
      with M5 have "5 dvd q + 1" by simp
      with True show False by presburger
    qed
    with True \<open>q < M\<close> show ?thesis by (simp add: q')
  next
    case False
    with \<open>q < M\<close> show ?thesis by (simp add: q')
  qed
  have aq': "adj (of_int q') = n"
    using nb(1) q'M q0 M by (intro adj_unique) (auto simp: q')
  have ay: "adj y = n"
  proof (intro adj_unique)
    show "10 powi n \<le> \<bar>y\<bar>" using nb(1) y q0 by auto
    have "of_int (q + 1) \<le> (of_int M :: rat)" using \<open>q < M\<close> by (simp only: of_int_le_iff)
    then show "\<bar>y\<bar> < 10 powi (n + 1)" using y q0 unfolding M by auto
  qed
  \<comment> \<open>multiples of half a unit of the last kept digit are multiples of five\<close>
  define h where "h = (5::int) * 10 ^ nat (n - int p)"
  have h0: "0 < h" by (simp add: h_def)
  have u: "(10::rat) powi (n - int p + 1) = of_int (2 * h)"
    using np by (simp add: h_def powi10_add powi10_nonneg)
  define j where "j = q div h"
  have lo: "j * h \<le> q" and hi: "q + 1 \<le> (j + 1) * h"
  proof -
    have "q = j * h + q mod h" by (simp add: j_def)
    moreover have "(j + 1) * h = j * h + h" by (simp add: algebra_simps)
    ultimately show "j * h \<le> q" "q + 1 \<le> (j + 1) * h"
      using pos_mod_bound[OF h0, of q] pos_mod_sign[OF h0, of q] by linarith+
  qed
  have dv: "5 dvd j * h" "5 dvd (j + 1) * h" by (simp_all add: h_def)
  have q'lo: "j * h < q'" and q'hi: "q' < (j + 1) * h"
  proof -
    show "j * h < q'" using lo dv(1) unfolding q' by (cases "j * h = q") auto
    show "q' < (j + 1) * h"
    proof (cases "q mod 5 = 0")
      case True
      have "q + 1 \<noteq> (j + 1) * h"
      proof
        assume "q + 1 = (j + 1) * h"
        with dv(2) have "5 dvd q + 1" by simp
        with True show False by presburger
      qed
      with True hi show ?thesis by (simp add: q')
    next
      case False
      with hi show ?thesis by (simp add: q')
    qed
  qed
  have ylo: "of_int (j * h) < y" and yhi: "y < of_int ((j + 1) * h)"
    using y lo hi by (metis le_less_trans of_int_le_iff) (metis y(2) hi less_le_trans of_int_le_iff)
  have sc: "of_int j / 2 < z / of_int (2 * h) \<and> z / of_int (2 * h) < of_int (j + 1) / 2"
    if "of_int (j * h) < z" "z < of_int ((j + 1) * h)" for z :: rat
    using that h0 by (simp add: field_simps)
  have "round_even (of_int q' / of_int (2 * h)) = round_even (y / of_int (2 * h))"
    using sc[of "of_int q'"] sc[of y] q'lo q'hi ylo yhi
    by (intro round_even_same_half[of j]) (simp_all only: of_int_less_iff)
  moreover have "q' \<noteq> 0" "y \<noteq> 0" using q0 y by (auto simp: q')
  ultimately show ?thesis by (simp add: rnd_def Let_def aq' ay u)
qed

lemma quotient_digits_round:
  assumes a: "coeff a \<noteq> 0" and b: "coeff b \<noteq> 0" and p: "0 < p"
  shows "rnd p (val (quotient_digits p a b)) = rnd p (\<bar>val a\<bar> / \<bar>val b\<bar>)"
proof -
  define n where "n = \<bar>coeff a\<bar>"
  define m where "m = \<bar>coeff b\<bar>"
  define la where "la = floorlog 10 (nat n)"
  define lb where "lb = floorlog 10 (nat m)"
  define shift where "shift = int lb - int la + int p + 1"
  define ex where "ex = expo a - expo b - shift"
  define num where "num = (if 0 \<le> shift then n * 10 ^ nat shift else n)"
  define den where "den = (if 0 \<le> shift then m else m * 10 ^ nat (- shift))"
  define q where "q = num div den"
  have n0: "0 < n" and m0: "0 < m" using a b by (auto simp: n_def m_def)
  then have den0: "0 < den" and num0: "0 < num" by (auto simp: den_def num_def)
  have Y: "of_int num / of_int den = (of_int n / of_int m * 10 powi shift :: rat)"
    by (cases "0 \<le> shift") (simp_all add: num_def den_def powi10_nonneg powi10_neg)
  have absv: "\<bar>val a\<bar> = of_int n * 10 powi expo a" "\<bar>val b\<bar> = of_int m * 10 powi expo b"
    using powi10_pos by (auto simp: val_def n_def m_def abs_mult)
  have s: "10 powi (expo a - expo b) = 10 powi shift * (10::rat) powi ex"
    unfolding powi10_add[symmetric] by (simp add: ex_def)
  have "\<bar>val a\<bar> / \<bar>val b\<bar> = of_int n / of_int m * 10 powi (expo a - expo b)"
    unfolding absv by (simp add: power_int_diff)
  then have X: "\<bar>val a\<bar> / \<bar>val b\<bar> = of_int num / of_int den * 10 powi ex"
    unfolding s Y by simp
  have qd: "quotient_digits p a b = (if num mod den \<noteq> 0
      then Decimal (if q mod 5 = 0 then q + 1 else q) ex
      else drop_zeros (nat (expo a - expo b - ex)) q ex)"
    unfolding quotient_digits_def Let_def ndig_floorlog n_def[symmetric] m_def[symmetric] la_def[symmetric]
      lb_def[symmetric] shift_def[symmetric] ex_def[symmetric] num_def[symmetric] den_def[symmetric]
      q_def[symmetric] ..
  show ?thesis
  proof (cases "num mod den = 0")
    case True
    then have "num = q * den" unfolding q_def by (metis dvd_div_mult_self mod_0_imp_dvd)
    then have "of_int num / of_int den = (of_int q :: rat)" using den0 by simp
    with True show ?thesis unfolding qd X by (simp add: val_drop_zeros)
  next
    case False
    have big: "10 ^ p \<le> q"
    proof -
      have "m * 10 ^ (la + p) \<le> 10 ^ lb * 10 ^ (la + p)"
        using floorlog_int_bounds(2)[OF b] by (intro mult_right_mono) (auto simp: m_def lb_def)
      also have "10 ^ lb * (10::int) ^ (la + p) = 10 ^ (la - 1) * 10 ^ (lb + p + 1)"
      proof -
        have "lb + (la + p) = (la - 1) + (lb + p + 1)"
          using floorlog_int_bounds(3)[OF a] by (simp add: la_def n_def)
        then show ?thesis by (simp only: power_add[symmetric])
      qed
      also have "\<dots> \<le> n * 10 ^ (lb + p + 1)"
        using floorlog_int_bounds(1)[OF a] by (intro mult_right_mono) (auto simp: n_def la_def)
      finally have nm: "m * 10 ^ (la + p) \<le> n * 10 ^ (lb + p + 1)" .
      have "10 ^ p * den \<le> num"
      proof (cases "0 \<le> shift")
        case True
        have e: "lb + p + 1 = nat shift + la" using True by (simp add: shift_def)
        have "(10 ^ p * m) * 10 ^ la \<le> (n * 10 ^ nat shift) * 10 ^ la"
          using nm unfolding e by (simp add: power_add mult.commute mult.left_commute)
        then show ?thesis using True by (simp add: den_def num_def)
      next
        case False
        have e: "la = nat (- shift) + (lb + p + 1)" using False by (simp add: shift_def)
        have "(10 ^ p * (m * 10 ^ nat (- shift))) * 10 ^ (lb + p + 1) \<le> n * 10 ^ (lb + p + 1)"
          using nm unfolding e by (simp add: power_add mult.commute mult.left_commute)
        then show ?thesis using False by (simp add: den_def num_def del: power_Suc)
      qed
      then show ?thesis using zdiv_mono1[of "10 ^ p * den" num den] den0 by (simp add: q_def)
    qed
    have eq: "(of_int num :: rat) = of_int q * of_int den + of_int (num mod den)"
      by (metis q_def div_mult_mod_eq of_int_add of_int_mult)
    have "0 < num mod den" "num mod den < den"
      using False pos_mod_sign[OF den0, of num] pos_mod_bound[OF den0, of num] by auto
    then have y: "of_int q < of_int num / (of_int den :: rat)"
      "of_int num / (of_int den :: rat) < of_int (q + 1)"
      using den0 eq by (simp_all add: field_simps)
    have "rnd p (of_int (if q mod 5 = 0 then q + 1 else q)) = rnd p (of_int num / of_int den)"
      using sticky_round[OF big p y refl] .
    with False show ?thesis unfolding qd X by (simp only: val_Decimal rnd_scale if_True simp_thms)
  qed
qed

lemma val_ddiv_prec:
  assumes "val b \<noteq> 0" and p: "0 < p"
  shows "\<exists>d. ddiv_prec p a b = Inr d \<and> val d = rnd p (val a / val b)"
proof (cases "coeff a = 0")
  case True
  then show ?thesis using assms by (simp add: ddiv_prec_def val_eq_0_iff) (simp add: val_def)
next
  case False
  from assms have b: "coeff b \<noteq> 0" by (simp add: val_eq_0_iff)
  let ?d = "quotient_digits p a b"
  have r: "rnd p (val ?d) = rnd p (\<bar>val a\<bar> / \<bar>val b\<bar>)" using quotient_digits_round[OF False b p] .
  have sa: "\<bar>val a\<bar> = (if coeff a < 0 then - val a else val a)"
    and sb: "\<bar>val b\<bar> = (if coeff b < 0 then - val b else val b)"
    using powi10_pos by (auto simp: val_def abs_mult abs_if mult_less_0_iff)
  show ?thesis using False b r p by (auto simp: ddiv_prec_def Let_def val_simps rnd_minus sa sb)
qed

lemma ddiv_prec_Inr:
  "ddiv_prec p a b = Inr d \<Longrightarrow> 0 < p \<Longrightarrow> val b \<noteq> 0 \<and> val d = rnd p (val a / val b)"
  using val_ddiv_prec[of b p a] by (cases "coeff b = 0") (auto simp: ddiv_prec_def val_eq_0_iff)

lemma val_ddiv: "val b \<noteq> 0 \<Longrightarrow> \<exists>d. ddiv a b = Inr d \<and> val d = cr (val a / val b)"
  unfolding ddiv_def by (rule val_ddiv_prec) auto

lemma ddiv_zero_divisor: "val b = 0 \<Longrightarrow> \<exists>e. ddiv a b = Inl e"
  by (simp add: ddiv_def ddiv_prec_def val_eq_0_iff)

lemma ddiv_Inr: "ddiv a b = Inr d \<Longrightarrow> val b \<noteq> 0 \<and> val d = cr (val a / val b)"
  unfolding ddiv_def by (rule ddiv_prec_Inr) auto

text \<open>An addition in a context that traps the loss of digits.\<close>

definition dadd_trap_inexact :: "decimal \<Rightarrow> decimal \<Rightarrow> decimal option" where
  "dadd_trap_inexact a b = (let s = exact_add a b; r = fix_prec 28 s in
     if deq r s then Some r else None)"

lemma dadd_trap_inexact_Some: "dadd_trap_inexact a b = Some r \<Longrightarrow> val r = val a + val b"
  by (auto simp: dadd_trap_inexact_def Let_def val_simps split: if_splits)

lemma dadd_trap_inexact_fits: "fits 28 (val a + val b) \<Longrightarrow> \<exists>r. dadd_trap_inexact a b = Some r"
  by (simp add: dadd_trap_inexact_def Let_def val_simps rnd_exact)

section \<open>Integer parts and quantisation\<close>

text \<open>\<open>int(d)\<close> truncates towards zero.\<close>

definition dtrunc :: "decimal \<Rightarrow> int" where
  "dtrunc d = (if 0 \<le> expo d then coeff d * 10 ^ nat (expo d)
     else sgn (coeff d) * (\<bar>coeff d\<bar> div 10 ^ nat (- expo d)))"

lemma dtrunc_floor: "0 \<le> val d \<Longrightarrow> dtrunc d = \<lfloor>val d\<rfloor>"
proof (cases "0 \<le> expo d")
  case True
  then have "val d = of_int (dtrunc d)" by (simp add: val_def dtrunc_def powi10_nonneg)
  then show ?thesis by simp
next
  case False
  assume "0 \<le> val d"
  then have c: "0 \<le> coeff d" by (auto simp: val_def zero_le_mult_iff)
  have "val d = of_int (coeff d) / of_int (10 ^ nat (- expo d))"
    using False by (simp add: val_def powi10_neg)
  then have "\<lfloor>val d\<rfloor> = coeff d div 10 ^ nat (- expo d)" by (simp only: floor_divide_of_int_eq)
  then show ?thesis using False c by (cases "coeff d = 0") (auto simp: dtrunc_def)
qed

lemma dtrunc_nonneg: "0 \<le> val d \<Longrightarrow> 0 \<le> dtrunc d"
  by (simp add: dtrunc_floor)

text \<open>\<open>a // b\<close>: the integer part of the quotient, refused beyond the precision.\<close>

definition dfloordiv :: "decimal \<Rightarrow> decimal \<Rightarrow> decimal res" where
  "dfloordiv a b =
     (if coeff b = 0 then Inl (if coeff a = 0 then InvalidOperation else DivisionByZero)
      else case aligned a b of (x, y, e) \<Rightarrow>
        let q = \<bar>x\<bar> div \<bar>y\<bar> in
        if 10 ^ 28 \<le> q then Inl InvalidOperation
        else Inr (Decimal (if (x < 0) = (y < 0) then q else - q) 0))"

lemma dfloordiv_Inr:
  assumes "dfloordiv a b = Inr d" and "0 \<le> val a" and "0 < val b"
  shows "val d = of_int \<lfloor>val a / val b\<rfloor> \<and> 0 \<le> \<lfloor>val a / val b\<rfloor> \<and> \<lfloor>val a / val b\<rfloor> < 10 ^ 28"
proof -
  obtain x y e where al: "aligned a b = (x, y, e)" by (cases "aligned a b")
  note v = aligned_val[OF al]
  have x: "0 \<le> x" and y: "0 < y" using assms(2,3) v by (auto simp: zero_le_mult_iff zero_less_mult_iff)
  have "val a / val b = of_int x / of_int y" unfolding v by simp
  then have f: "\<lfloor>val a / val b\<rfloor> = x div y" by (simp only: floor_divide_of_int_eq)
  show ?thesis using assms(1) x y unfolding f
    by (auto simp: dfloordiv_def al Let_def val_eq_0_iff pos_imp_zdiv_nonneg_iff split: if_splits)
qed

lemma dfloordiv_total:
  assumes "0 < val b" and "\<bar>val a\<bar> / val b < 10 ^ 28"
  shows "\<exists>d. dfloordiv a b = Inr d"
proof -
  obtain x y e where al: "aligned a b = (x, y, e)" by (cases "aligned a b")
  note v = aligned_val[OF al]
  have y: "0 < y" using assms(1) v by (auto simp: zero_less_mult_iff)
  have "\<bar>val a\<bar> / val b = of_int \<bar>x\<bar> / of_int y" unfolding v by (simp add: abs_mult)
  then have "\<lfloor>\<bar>val a\<bar> / val b\<rfloor> = \<bar>x\<bar> div y" by (simp only: floor_divide_of_int_eq)
  with assms(2) have "\<bar>x\<bar> div y < 10 ^ 28" by (simp add: floor_less_iff flip: \<open>\<lfloor>\<bar>val a\<bar> / val b\<rfloor> = \<bar>x\<bar> div y\<close>)
  then show ?thesis using y assms(1) by (auto simp: dfloordiv_def al Let_def val_pos_iff)
qed

definition is_whole :: "decimal \<Rightarrow> bool" where
  "is_whole d = (0 \<le> expo d \<or> coeff d mod 10 ^ nat (- expo d) = 0)"

lemma is_whole_iff: "is_whole d \<longleftrightarrow> (\<exists>n. val d = of_int n)"
proof (cases "0 \<le> expo d")
  case True
  then have "val d = of_int (coeff d * 10 ^ nat (expo d))" by (simp add: val_def powi10_nonneg)
  then have "\<exists>n. val d = of_int n" by (rule exI)
  with True show ?thesis by (simp add: is_whole_def)
next
  case False
  let ?m = "10 ^ nat (- expo d) :: int"
  have v: "val d = of_int (coeff d) / of_int ?m" using False by (simp add: val_def powi10_neg)
  have "(\<exists>n. val d = of_int n) \<longleftrightarrow> (\<exists>n. coeff d = n * ?m)"
  proof -
    have "val d = of_int n \<longleftrightarrow> coeff d = n * ?m" for n
    proof -
      have "val d = of_int n \<longleftrightarrow> (of_int (coeff d) :: rat) = of_int (n * ?m)"
        unfolding v by (simp add: field_simps)
      then show ?thesis by (simp only: of_int_eq_iff)
    qed
    then show ?thesis by blast
  qed
  then show ?thesis using False by (auto simp: is_whole_def mod_eq_0_iff_dvd dvd_def mult.commute)
qed

text \<open>Half-up division of magnitudes, and \<open>quantize\<close> to the exponent of a tick.\<close>

definition div_half_up :: "int \<Rightarrow> int \<Rightarrow> int" where
  "div_half_up c m = sgn c * ((2 * \<bar>c\<bar> + m) div (2 * m))"

definition rescale :: "(int \<Rightarrow> int \<Rightarrow> int) \<Rightarrow> decimal \<Rightarrow> int \<Rightarrow> decimal" where
  "rescale rounding d t = (if t \<le> expo d then Decimal (coeff d * 10 ^ nat (expo d - t)) t
     else Decimal (rounding (coeff d) (10 ^ nat (t - expo d))) t)"

definition quantize :: "(int \<Rightarrow> int \<Rightarrow> int) \<Rightarrow> decimal \<Rightarrow> decimal \<Rightarrow> decimal res" where
  "quantize rounding d tick = (let r = rescale rounding d (expo tick) in
     if ndig \<bar>coeff r\<bar> > 28 then Inl InvalidOperation else Inr r)"

section \<open>Amounts on a grid\<close>

text \<open>
  A number is on the grid of exponent \<open>k\<close> when it is at most \<open>10 ^ 28\<close> times the unit \<open>10 powi k\<close>
  and a whole multiple of it: quantities in hundredths of a share, amounts in cents. Sums and
  differences that stay on the grid are exact.
\<close>

definition gridv :: "int \<Rightarrow> rat \<Rightarrow> bool" where
  "gridv k x = (of_int \<lfloor>x / 10 powi k\<rfloor> * 10 powi k = x \<and> \<bar>x\<bar> \<le> 10 ^ 28 * 10 powi k)"

abbreviation grid :: "int \<Rightarrow> decimal \<Rightarrow> bool" where
  "grid k d \<equiv> gridv k (val d)"

lemma gridv_iff: "gridv k x \<longleftrightarrow> (\<exists>n. x = of_int n * 10 powi k \<and> \<bar>n\<bar> \<le> 10 ^ 28)"
proof
  assume g: "gridv k x"
  let ?n = "\<lfloor>x / 10 powi k\<rfloor>"
  have x: "x = of_int ?n * 10 powi k" using g by (simp add: gridv_def)
  have "\<bar>of_int ?n * 10 powi k\<bar> \<le> 10 ^ 28 * (10::rat) powi k" using g x by (simp only: gridv_def)
  then have "\<bar>of_int ?n\<bar> * (10::rat) powi k \<le> of_int (10 ^ 28) * 10 powi k" by (simp add: abs_mult)
  then have "of_int \<bar>?n\<bar> \<le> (of_int (10 ^ 28) :: rat)"
    using powi10_pos[of k] by (simp only: mult_le_cancel_right of_int_abs)
  then have "\<bar>?n\<bar> \<le> 10 ^ 28" by (simp only: of_int_le_iff)
  with x show "\<exists>n. x = of_int n * 10 powi k \<and> \<bar>n\<bar> \<le> 10 ^ 28" by (intro exI[of _ ?n] conjI)
next
  assume "\<exists>n. x = of_int n * 10 powi k \<and> \<bar>n\<bar> \<le> 10 ^ 28"
  then obtain n where n: "x = of_int n * 10 powi k" "\<bar>n\<bar> \<le> 10 ^ 28" by blast
  have "of_int \<bar>n\<bar> \<le> (of_int (10 ^ 28) :: rat)" using n(2) by (simp only: of_int_le_iff)
  then have "\<bar>x\<bar> \<le> 10 ^ 28 * 10 powi k"
    unfolding n(1) using powi10_pos[of k] by (simp add: abs_mult)
  then show "gridv k x" using powi10_pos[of k] by (simp add: gridv_def n(1))
qed

lemma gridv_0 [simp]: "gridv k 0"
  by (simp add: gridv_def)

lemma gridv_int: "\<bar>n\<bar> \<le> 10 ^ 28 \<Longrightarrow> gridv 0 (of_int n)"
  unfolding gridv_iff by auto

lemma gridv_fits: "gridv k x \<Longrightarrow> fits 28 x"
  unfolding gridv_iff using fitsI by blast

lemma gridv_rnd [simp]: "gridv k x \<Longrightarrow> cr x = x"
  by (simp add: gridv_fits rnd_exact)

lemma gridv_minus: "gridv k x \<Longrightarrow> gridv k (- x)"
  unfolding gridv_iff by (metis abs_minus_cancel mult_minus_left of_int_minus)

lemma gridv_add:
  assumes "gridv k x" "gridv k y" "\<bar>x + y\<bar> \<le> 10 ^ 28 * 10 powi k"
  shows "gridv k (x + y)"
proof -
  obtain n m where "x = of_int n * 10 powi k" "y = of_int m * 10 powi k"
    using assms(1,2) unfolding gridv_iff by blast
  then have "x + y = of_int (n + m) * 10 powi k" by (simp add: algebra_simps)
  with assms(3) show ?thesis unfolding gridv_def using powi10_pos[of k]
    by (metis floor_of_int less_irrefl nonzero_mult_div_cancel_right)
qed

lemma gridv_diff:
  assumes "gridv k x" "gridv k y" "0 \<le> y" "y \<le> x"
  shows "gridv k (x - y)"
proof -
  have "x \<le> 10 ^ 28 * 10 powi k" using assms by (simp add: gridv_def abs_le_iff)
  then show ?thesis using gridv_add[OF assms(1) gridv_minus[OF assms(2)]] assms(3,4) by simp
qed

lemma gridv_sub_nonneg:
  assumes "gridv k x" "gridv k y" "0 \<le> x" "0 \<le> y"
  shows "gridv k (x - y)"
proof (cases "y \<le> x")
  case False
  then have "gridv k (- (y - x))" using gridv_diff[of k y x] assms gridv_minus by (metis linear)
  then show ?thesis by simp
qed (use assms gridv_diff in blast)

lemma dsum_grid:
  assumes "\<forall>x \<in> set xs. grid k x \<and> 0 \<le> val x" "sum_list (map val xs) \<le> 10 ^ 28 * 10 powi k"
  shows "val (dsum xs) = sum_list (map val xs) \<and> gridv k (sum_list (map val xs)) \<and> 0 \<le> sum_list (map val xs)"
  using assms
proof (induction xs rule: rev_induct)
  case (snoc x xs)
  then have x: "grid k x" "0 \<le> val x" by auto
  with snoc have IH: "val (dsum xs) = sum_list (map val xs)" "gridv k (sum_list (map val xs))"
    "0 \<le> sum_list (map val xs)" by auto
  then have "gridv k (sum_list (map val xs) + val x)"
    using snoc.prems(2) x by (intro gridv_add) auto
  then show ?case using IH x by (simp add: val_simps)
qed simp

text \<open>A value handed to a function that checks \<open>isinstance(v, Decimal)\<close> and \<open>v.is_finite()\<close>.\<close>

datatype pynum = Num decimal | NonFinite | NotDecimal

end
