(* ===== verification/Core_Types.thy ===== *)
theory Core_Types
  imports Decimals
begin

text \<open>
  The vocabulary of \<open>core/types.py\<close>, \<open>core/events.py\<close> and \<open>core/clock.py\<close>: the enumerations with
  their persisted texts, the exact instrument identity, the frozen event dataclasses and the
  simulated clock. A timestamp is its number of microseconds on the wall clock of the data, a
  date its number of days; symbols are strings. Text renderings of a \<open>Decimal\<close> inside metadata
  are kept as the number they render.
\<close>

type_synonym symbol = string
type_synonym timestamp = int
type_synonym date = int

definition day_of :: "timestamp \<Rightarrow> date" where
  "day_of t = t div 86400000000"

section \<open>Enumerations\<close>

datatype asset_class = AC_STOCK | AC_FUND | AC_GOLD | AC_BOND | AC_INDEX

fun asset_class_value :: "asset_class \<Rightarrow> string" where
  "asset_class_value AC_STOCK = ''stock''"
| "asset_class_value AC_FUND = ''fund''"
| "asset_class_value AC_GOLD = ''gold''"
| "asset_class_value AC_BOND = ''bond''"
| "asset_class_value AC_INDEX = ''index''"

datatype instrument_type =
  IT_STOCK | IT_ETF | IT_OPEN_END_FUND | IT_GOLD | IT_BOND | IT_INDEX | IT_UNKNOWN

fun instrument_type_value :: "instrument_type \<Rightarrow> string" where
  "instrument_type_value IT_STOCK = ''stock''"
| "instrument_type_value IT_ETF = ''etf''"
| "instrument_type_value IT_OPEN_END_FUND = ''open_end_fund''"
| "instrument_type_value IT_GOLD = ''gold''"
| "instrument_type_value IT_BOND = ''bond''"
| "instrument_type_value IT_INDEX = ''index''"
| "instrument_type_value IT_UNKNOWN = ''unknown''"

datatype bar_frequency = TICK | MIN_1 | MIN_5 | DAILY | WEEKLY

datatype order_side = BUY | SELL

fun order_side_value :: "order_side \<Rightarrow> string" where
  "order_side_value BUY = ''buy''"
| "order_side_value SELL = ''sell''"

datatype order_type = MARKET | LIMIT | STOP

datatype order_status = OS_PENDING | OS_ACCEPTED | OS_PARTIAL | OS_FILLED | OS_CANCELLED | OS_REJECTED

datatype settlement = T_PLUS_0 | T_PLUS_1

datatype commission_type = CT_STOCK_A | CT_FUND_ETF | CT_FUND_OPENEND | CT_GOLD_SPOT | CT_BOND_EXCHANGE

section \<open>Persisted instrument identity\<close>

text \<open>
  \<open>InstrumentType.from_persisted\<close>: a value is an enumeration member, an object carrying a text
  (itself or in its \<open>value\<close> attribute), or missing.
\<close>

datatype persisted = PEnum instrument_type | PText string | PMissing

fun persisted_text :: "persisted \<Rightarrow> string" where
  "persisted_text (PEnum t) = instrument_type_value t"
| "persisted_text (PText s) = s"
| "persisted_text PMissing = []"

definition persisted_aliases :: "(string, instrument_type) dict" where
  "persisted_aliases =
    [(''stock'', IT_STOCK), (''etf'', IT_ETF), (''fund'', IT_OPEN_END_FUND),
     (''open_end_fund'', IT_OPEN_END_FUND), (''openend_fund'', IT_OPEN_END_FUND),
     (''gold'', IT_GOLD), (''bond'', IT_BOND), (''index'', IT_INDEX)]"

definition from_persisted :: "persisted \<Rightarrow> instrument_type res" where
  "from_persisted v =
    (case v of PEnum t \<Rightarrow> Inr t
     | _ \<Rightarrow>
       let normalized = str_replace_char CHR ''-'' CHR ''_'' (str_lower (str_strip (persisted_text v)))
       in (case dict_get persisted_aliases normalized of
             None \<Rightarrow> Inl (ValueError ''authoritative instrument type is unresolved'')
           | Some t \<Rightarrow> Inr t))"

record instrument_key =
  key_symbol :: string
  key_type :: instrument_type

definition make_instrument_key :: "string \<Rightarrow> instrument_type \<Rightarrow> instrument_key res" where
  "make_instrument_key s t =
    (let normalized = str_strip s in
     if normalized = [] then Inl (ValueError ''instrument symbol is missing'')
     else if t = IT_UNKNOWN then Inl (ValueError ''authoritative instrument type is unresolved'')
     else Inr \<lparr>key_symbol = normalized, key_type = t\<rparr>)"

definition key_from_values :: "string \<Rightarrow> persisted \<Rightarrow> instrument_key res" where
  "key_from_values s t = bind_res (from_persisted t) (make_instrument_key s)"

definition storage_tuple :: "instrument_key \<Rightarrow> string \<times> string" where
  "storage_tuple k = (key_symbol k, instrument_type_value (key_type k))"

lemma from_persisted_value [simp]:
  "t \<noteq> IT_UNKNOWN \<Longrightarrow> from_persisted (PText (instrument_type_value t)) = Inr t"
  by (cases t) (simp_all, code_simp+)

section \<open>Constants\<close>

definition DEFAULT_STOCK_COMMISSION_RATE :: decimal where "DEFAULT_STOCK_COMMISSION_RATE = Decimal 3 (- 4)"
definition MIN_STOCK_COMMISSION :: decimal where "MIN_STOCK_COMMISSION = Decimal 5 0"
definition STAMP_TAX_RATE :: decimal where "STAMP_TAX_RATE = Decimal 5 (- 4)"
definition TRANSFER_FEE_RATE :: decimal where "TRANSFER_FEE_RATE = Decimal 1 (- 5)"
definition DEFAULT_ETF_COMMISSION_RATE :: decimal where "DEFAULT_ETF_COMMISSION_RATE = Decimal 3 (- 4)"
definition MIN_ETF_COMMISSION :: decimal where "MIN_ETF_COMMISSION = Decimal 5 0"
definition GOLD_SPOT_COMMISSION_RATE :: decimal where "GOLD_SPOT_COMMISSION_RATE = Decimal 8 (- 4)"
definition BOND_COMMISSION_RATE :: decimal where "BOND_COMMISSION_RATE = Decimal 4 (- 5)"
definition MIN_BOND_COMMISSION :: decimal where "MIN_BOND_COMMISSION = Decimal 1 0"
definition MAIN_BOARD_LIMIT_PCT :: decimal where "MAIN_BOARD_LIMIT_PCT = Decimal 10 (- 2)"
definition GEM_LIMIT_PCT :: decimal where "GEM_LIMIT_PCT = Decimal 20 (- 2)"

section \<open>Events\<close>

text \<open>A JSON value as it appears in a fee breakdown or in metadata; \<open>JDec\<close> is a rendered decimal.\<close>

datatype json =
    JNull
  | JText string
  | JDec decimal
  | JInt int
  | JBool bool
  | JTexts "string list"
  | JObject "(string \<times> json) list"

type_synonym json_object = "(string, json) dict"

record market_event =
  me_timestamp :: timestamp
  me_symbol :: symbol
  me_open :: decimal
  me_high :: decimal
  me_low :: decimal
  me_close :: decimal
  me_volume :: decimal
  me_frequency :: bar_frequency
  me_asset_class :: "asset_class option"
  me_instrument_type :: "instrument_type option"
  me_available_at :: "timestamp option"

record signal_event =
  sg_timestamp :: timestamp
  sg_strategy_id :: string
  sg_symbol :: symbol
  sg_target_weight :: decimal
  sg_price :: "decimal option"

record order_intent_event =
  oi_timestamp :: timestamp
  oi_intent_id :: string
  oi_strategy_id :: string
  oi_symbol :: symbol
  oi_side :: order_side
  oi_target_weight :: decimal
  oi_quantity :: decimal
  oi_reference_price :: decimal
  oi_asset_class :: "asset_class option"
  oi_source_signal_id :: "string option"
  oi_reason :: string
  oi_metadata :: json_object

record risk_decision_event =
  rd_timestamp :: timestamp
  rd_decision_id :: string
  rd_intent_id :: string
  rd_passed :: bool
  rd_symbol :: symbol
  rd_side :: order_side
  rd_reasons :: "string list"
  rd_resulting_order_id :: "string option"
  rd_severity :: string
  rd_metadata :: json_object

record order_event =
  or_timestamp :: timestamp
  or_order_id :: string
  or_symbol :: symbol
  or_side :: order_side
  or_order_type :: order_type
  or_quantity :: decimal
  or_price :: "decimal option"
  or_intent_id :: "string option"
  or_risk_decision_id :: "string option"
  or_execution_mode :: string
  or_asset_class :: "asset_class option"

record fill_event =
  fl_timestamp :: timestamp
  fl_fill_id :: string
  fl_order_id :: string
  fl_symbol :: symbol
  fl_side :: order_side
  fl_price :: decimal
  fl_quantity :: decimal
  fl_commission :: decimal
  fl_slippage :: decimal
  fl_fee_breakdown :: "json_object option"
  fl_fee_rule_id :: "string option"
  fl_fee_rule_version :: "string option"

record risk_alert_event =
  ra_timestamp :: timestamp
  ra_alert_id :: string
  ra_rule_name :: string
  ra_severity :: string
  ra_message :: string
  ra_symbol :: "symbol option"
  ra_order_id :: "string option"

datatype event =
    MarketEv market_event
  | SignalEv signal_event
  | IntentEv order_intent_event
  | DecisionEv risk_decision_event
  | OrderEv order_event
  | FillEv fill_event
  | AlertEv risk_alert_event

text \<open>The registered event classes; every class derives from \<open>Event\<close>.\<close>

datatype event_class =
  C_Event | C_Market | C_Signal | C_Intent | C_Decision | C_Order | C_Fill | C_Alert

fun class_of_event :: "event \<Rightarrow> event_class" where
  "class_of_event (MarketEv _) = C_Market"
| "class_of_event (SignalEv _) = C_Signal"
| "class_of_event (IntentEv _) = C_Intent"
| "class_of_event (DecisionEv _) = C_Decision"
| "class_of_event (OrderEv _) = C_Order"
| "class_of_event (FillEv _) = C_Fill"
| "class_of_event (AlertEv _) = C_Alert"

definition is_instance :: "event \<Rightarrow> event_class \<Rightarrow> bool" where
  "is_instance e c = (c = C_Event \<or> c = class_of_event e)"

section \<open>The simulated clock\<close>

type_synonym simulated_clock = "timestamp option"

definition clock_now :: "simulated_clock \<Rightarrow> timestamp res" where
  "clock_now c = (case c of None \<Rightarrow> Inl (RuntimeError ''SimulatedClock has not been set'') | Some t \<Rightarrow> Inr t)"

definition clock_set_time :: "timestamp \<Rightarrow> simulated_clock \<Rightarrow> simulated_clock" where
  "clock_set_time t c = Some t"

definition clock_advance_to :: "timestamp \<Rightarrow> simulated_clock \<Rightarrow> simulated_clock res" where
  "clock_advance_to t c =
    (case c of Some now \<Rightarrow> if t < now then Inl (ValueError ''Cannot advance backwards'') else Inr (Some t)
     | None \<Rightarrow> Inr (Some t))"

text \<open>Driving the clock along a list of timestamps succeeds only along a nondecreasing one.\<close>

lemma clock_advance_fold:
  "fold_res clock_advance_to ts c = Inr c' \<Longrightarrow>
    sorted ts \<and> (\<forall>now t. c = Some now \<longrightarrow> t \<in> set ts \<longrightarrow> now \<le> t) \<and>
    c' = (if ts = [] then c else Some (last ts))"
proof (induction ts arbitrary: c)
  case (Cons t ts)
  from Cons.prems obtain u where adv: "clock_advance_to t c = Inr u"
    and rest: "fold_res clock_advance_to ts u = Inr c'"
    by (auto simp: bind_res_eq_Inr)
  from adv have u: "u = Some t" by (auto simp: clock_advance_to_def split: option.splits if_splits)
  from adv have "c = Some now \<Longrightarrow> now \<le> t" for now by (auto simp: clock_advance_to_def split: if_splits)
  moreover from Cons.IH[OF rest] u have "sorted ts" "\<forall>u \<in> set ts. t \<le> u" "c' = (if ts = [] then Some t else Some (last ts))"
    by auto
  ultimately show ?case by force
qed simp

end
