(* ===== verification/Instruments.thy ===== *)
theory Instruments
  imports Core_Types
begin

text \<open>
  \<open>domain/instrument.py\<close> and \<open>domain/a_share_limits.py\<close>: the instrument record and its factories,
  the board identity of an A-share symbol, the research admission of a stock, and the daily
  price limits. The lemmas give the value of a limit price, its place around the previous close,
  and that a bar cannot be at both limits.
\<close>

section \<open>Instruments\<close>

record instrument =
  in_symbol :: symbol
  in_name :: string
  in_asset_class :: asset_class
  in_type :: instrument_type
  in_commission_type :: commission_type
  in_settlement :: settlement
  in_lot_size :: decimal
  in_price_tick :: decimal
  in_limit_pct :: decimal

definition is_t_plus_1 :: "instrument \<Rightarrow> bool" where
  "is_t_plus_1 i = (in_settlement i = T_PLUS_1)"

datatype exchange = SSE | SZSE | BSE

datatype board = Sse_main | Star | Szse_main | Chinext | Beijing

definition a_share_identity :: "string \<Rightarrow> (exchange \<times> board) option" where
  "a_share_identity s =
    (if length s \<noteq> 6 \<or> \<not> str_isdigit s then None
     else if str_startswith s [''600'', ''601'', ''603'', ''605''] then Some (SSE, Sse_main)
     else if str_startswith s [''688'', ''689''] then Some (SSE, Star)
     else if str_startswith s [''000'', ''001'', ''002'', ''003''] then Some (SZSE, Szse_main)
     else if str_startswith s [''300'', ''301'', ''302''] then Some (SZSE, Chinext)
     else if str_startswith s [''4'', ''8'', ''92''] then Some (BSE, Beijing)
     else None)"

text \<open>An entry mask names boards, or \<open>main\<close> for both main boards.\<close>

fun board_value :: "board \<Rightarrow> string" where
  "board_value Sse_main = ''sse_main''"
| "board_value Star = ''star''"
| "board_value Szse_main = ''szse_main''"
| "board_value Chinext = ''chinext''"
| "board_value Beijing = ''beijing''"

definition entry_board_symbols :: "string list \<Rightarrow> string list \<Rightarrow> string set" where
  "entry_board_symbols allowed symbols =
     set (filter (\<lambda>s. case a_share_identity s of
         None \<Rightarrow> False
       | Some (_, b) \<Rightarrow> board_value b \<in> set allowed \<or>
           (''main'' \<in> set allowed \<and> b \<in> {Sse_main, Szse_main})) symbols)"

definition make_stock :: "string \<Rightarrow> string \<Rightarrow> decimal option \<Rightarrow> instrument" where
  "make_stock s name limit_pct =
     \<lparr>in_symbol = s, in_name = name, in_asset_class = AC_STOCK, in_type = IT_STOCK,
      in_commission_type = CT_STOCK_A, in_settlement = T_PLUS_1, in_lot_size = Decimal 100 0,
      in_price_tick = Decimal 1 (- 2),
      in_limit_pct = (case limit_pct of Some p \<Rightarrow> p
        | None \<Rightarrow> if str_startswith s [''3'', ''68''] then GEM_LIMIT_PCT else MAIN_BOARD_LIMIT_PCT)\<rparr>"

definition make_etf :: "string \<Rightarrow> string \<Rightarrow> instrument" where
  "make_etf s name =
     \<lparr>in_symbol = s, in_name = name, in_asset_class = AC_FUND, in_type = IT_ETF,
      in_commission_type = CT_FUND_ETF, in_settlement = T_PLUS_1, in_lot_size = Decimal 100 0,
      in_price_tick = Decimal 1 (- 3), in_limit_pct = Decimal 10 (- 2)\<rparr>"

definition make_open_end_fund :: "string \<Rightarrow> string \<Rightarrow> instrument" where
  "make_open_end_fund s name =
     \<lparr>in_symbol = s, in_name = name, in_asset_class = AC_FUND, in_type = IT_OPEN_END_FUND,
      in_commission_type = CT_FUND_OPENEND, in_settlement = T_PLUS_0, in_lot_size = Decimal 1 0,
      in_price_tick = Decimal 1 (- 4), in_limit_pct = Decimal 0 0\<rparr>"

definition make_gold_spot :: "string \<Rightarrow> string \<Rightarrow> instrument" where
  "make_gold_spot s name =
     \<lparr>in_symbol = s, in_name = name, in_asset_class = AC_GOLD, in_type = IT_GOLD,
      in_commission_type = CT_GOLD_SPOT, in_settlement = T_PLUS_0, in_lot_size = Decimal 1 0,
      in_price_tick = Decimal 2 (- 2), in_limit_pct = Decimal 0 0\<rparr>"

definition make_bond :: "string \<Rightarrow> string \<Rightarrow> instrument" where
  "make_bond s name =
     \<lparr>in_symbol = s, in_name = name, in_asset_class = AC_BOND, in_type = IT_BOND,
      in_commission_type = CT_BOND_EXCHANGE, in_settlement = T_PLUS_0, in_lot_size = Decimal 10 0,
      in_price_tick = Decimal 1 (- 3), in_limit_pct = Decimal 0 0\<rparr>"

definition make_index :: "string \<Rightarrow> string \<Rightarrow> instrument" where
  "make_index s name =
     \<lparr>in_symbol = s, in_name = name, in_asset_class = AC_INDEX, in_type = IT_INDEX,
      in_commission_type = CT_STOCK_A, in_settlement = T_PLUS_0, in_lot_size = Decimal 1 0,
      in_price_tick = Decimal 1 (- 2), in_limit_pct = Decimal 0 0\<rparr>"

definition make_research_stock :: "string \<Rightarrow> string \<Rightarrow> instrument res" where
  "make_research_stock s name =
    (if length s \<noteq> 6 \<or> \<not> str_isdigit s then Inl (ValueError ''research_stock_symbol_invalid'')
     else case a_share_identity s of
         None \<Rightarrow> Inl (ValueError ''research_stock_board_unsupported'')
       | Some (_, b) \<Rightarrow>
           if b = Star then
             Inr ((make_stock s name None)\<lparr>in_lot_size := Decimal 200 0, in_limit_pct := Decimal 20 (- 2)\<rparr>)
           else if b = Beijing then Inr ((make_stock s name None)\<lparr>in_limit_pct := Decimal 30 (- 2)\<rparr>)
           else Inr (make_stock s name None))"

text \<open>The reason, if any, why a session of a stock is not an ordinary one; \<open>Inr None\<close> admits it.\<close>

definition research_stock_session_blocker ::
  "string \<Rightarrow> bool option \<Rightarrow> int option \<Rightarrow> bool option \<Rightarrow> string option res" where
  "research_stock_session_blocker s is_st listing_session_count in_delisting_period =
    bind_res (make_research_stock s s) (\<lambda>_.
      let later = (if is_st \<noteq> Some False \<or> in_delisting_period \<noteq> Some False \<or> listing_session_count = None
                   then Some ''ordinary_session_state_unverified'' else None) in
      if is_st = Some True then Inr (Some ''special_treatment_excluded'')
      else if in_delisting_period = Some True then Inr (Some ''delisting_period_excluded'')
      else (case listing_session_count of
          None \<Rightarrow> Inr later
        | Some n \<Rightarrow>
            if n < 1 then Inl (ValueError ''research_stock_listing_age_invalid'')
            else if n \<le> (if str_startswith s [''4'', ''8'', ''92''] then 1 else 5)
            then Inr (Some ''initial_listing_period_excluded'')
            else Inr later))"

section \<open>Price limits\<close>

definition MAIN_BOARD_RATE :: decimal where "MAIN_BOARD_RATE = Decimal 10 (- 2)"
definition GROWTH_BOARD_RATE :: decimal where "GROWTH_BOARD_RATE = Decimal 20 (- 2)"
definition ST_RATE :: decimal where "ST_RATE = Decimal 5 (- 2)"
definition PRICE_TICK :: decimal where "PRICE_TICK = Decimal 1 (- 2)"

definition normalize_code :: "string \<Rightarrow> string" where
  "normalize_code s = str_before CHR ''.'' (str_strip s)"

definition limit_rate_for_symbol :: "string \<Rightarrow> decimal" where
  "limit_rate_for_symbol s =
    (if str_startswith (normalize_code s) [''30'', ''68''] then GROWTH_BOARD_RATE else MAIN_BOARD_RATE)"

definition round_tick :: "decimal \<Rightarrow> decimal \<Rightarrow> decimal res" where
  "round_tick v tick = quantize div_half_up v tick"

definition limit_up_price :: "decimal \<Rightarrow> decimal \<Rightarrow> decimal \<Rightarrow> decimal res" where
  "limit_up_price prev_close rate tick = round_tick (dmul prev_close (dadd DONE rate)) tick"

definition limit_down_price :: "decimal \<Rightarrow> decimal \<Rightarrow> decimal \<Rightarrow> decimal res" where
  "limit_down_price prev_close rate tick = round_tick (dmul prev_close (dsub DONE rate)) tick"

definition is_limit_up :: "decimal \<Rightarrow> decimal \<Rightarrow> decimal \<Rightarrow> decimal \<Rightarrow> bool res" where
  "is_limit_up close prev_close rate tick =
     bind_res (limit_up_price prev_close rate tick) (\<lambda>l. Inr (dle l close))"

definition is_limit_down :: "decimal \<Rightarrow> decimal \<Rightarrow> decimal \<Rightarrow> decimal \<Rightarrow> bool res" where
  "is_limit_down close prev_close rate tick =
     bind_res (limit_down_price prev_close rate tick) (\<lambda>l. Inr (dle close l))"

definition is_suspended :: "decimal \<Rightarrow> bool" where
  "is_suspended volume = dle volume DZERO"

section \<open>The value of a limit price\<close>

lemma div_half_up_floor:
  assumes "0 \<le> c" "0 < m"
  shows "div_half_up c m = \<lfloor>of_int c / of_int m + (1/2 :: rat)\<rfloor>"
proof -
  have "of_int c / of_int m + (1/2 :: rat) = of_int (2 * c + m) / of_int (2 * m)"
    using assms by (simp add: field_simps)
  then have "\<lfloor>of_int c / of_int m + (1/2 :: rat)\<rfloor> = (2 * c + m) div (2 * m)"
    by (simp only: floor_divide_of_int_eq)
  then show ?thesis using assms by (cases "c = 0") (auto simp: div_half_up_def)
qed

lemma quantize_half_up_val:
  assumes "quantize div_half_up d tick = Inr r" and "0 \<le> val d"
  shows "val r = of_int \<lfloor>val d / 10 powi expo tick + 1/2\<rfloor> * 10 powi expo tick"
proof -
  let ?t = "expo tick"
  have r: "r = rescale div_half_up d ?t"
    using assms(1) by (auto simp: quantize_def Let_def split: if_splits)
  show ?thesis
  proof (cases "?t \<le> expo d")
    case True
    have "val d / 10 powi ?t = of_int (coeff d * 10 ^ nat (expo d - ?t))"
      using True by (simp add: val_def power_int_diff[symmetric] powi10_nonneg flip: times_divide_eq_right)
    then have f: "\<lfloor>val d / 10 powi ?t + 1/2\<rfloor> = coeff d * 10 ^ nat (expo d - ?t)"
      by (intro floor_unique) auto
    show ?thesis unfolding f using True by (simp add: r rescale_def val_Decimal)
  next
    case False
    have c: "0 \<le> coeff d" using assms(2) by (auto simp: val_def zero_le_mult_iff)
    have "val d / 10 powi ?t = of_int (coeff d) * 10 powi (expo d - ?t)"
      by (simp add: val_def power_int_diff)
    also have "\<dots> = of_int (coeff d) / of_int (10 ^ nat (?t - expo d))"
      using False powi10_neg[of "expo d - ?t"] by simp
    finally have "val d / 10 powi ?t = of_int (coeff d) / of_int (10 ^ nat (?t - expo d))" .
    then show ?thesis using False c
      by (simp add: r rescale_def val_Decimal div_half_up_floor)
  qed
qed

text \<open>A previous close is quoted in ticks when it is a whole number of them.\<close>

definition on_tick :: "decimal \<Rightarrow> decimal \<Rightarrow> bool" where
  "on_tick tick d = (\<exists>k. \<bar>k\<bar> \<le> 10 ^ 28 \<and> val d = of_int k * 10 powi expo tick)"

lemma on_tick_fits: "on_tick tick d \<Longrightarrow> fits 28 (val d)"
  by (auto simp: on_tick_def fits_def)

lemma limit_prices_around_close:
  assumes up: "limit_up_price prev rate tick = Inr u" and down: "limit_down_price prev rate tick = Inr l"
    and prev: "0 \<le> val prev" "on_tick tick prev" and rate: "0 \<le> val rate" "val rate \<le> 1"
  shows "val l \<le> val prev \<and> val prev \<le> val u"
proof -
  let ?w = "10 powi expo tick :: rat"
  obtain k where k: "val prev = of_int k * ?w" using prev(2) by (auto simp: on_tick_def)
  have fp: "fits 28 (val prev)" using prev(2) by (rule on_tick_fits)
  have one: "fits 28 (1::rat)" using fits_of_int[of 1 28] by simp
  have kw: "val prev / ?w = of_int k" by (simp add: k)
  have r1: "1 \<le> cr (1 + val rate)" using rate one by (intro rnd_ge_exact) auto
  have r2: "cr (1 - val rate) \<le> 1" "0 \<le> cr (1 - val rate)"
    using rate one by (auto intro: rnd_le_exact rnd_nonneg)
  have m1: "val prev \<le> val (dmul prev (dadd DONE rate))"
    using prev r1 fp mult_left_mono[OF r1 prev(1)] by (simp add: val_simps rnd_ge_exact)
  have m2: "val (dmul prev (dsub DONE rate)) \<le> val prev"
    using prev fp mult_left_mono[OF r2(1) prev(1)] by (simp add: val_simps rnd_le_exact)
  have n2: "0 \<le> val (dmul prev (dsub DONE rate))"
    using prev(1) r2(2) by (simp add: val_simps rnd_nonneg)
  have vu: "val u = of_int \<lfloor>val (dmul prev (dadd DONE rate)) / ?w + 1/2\<rfloor> * ?w"
    using quantize_half_up_val[of _ tick u] up m1 prev(1) by (simp add: limit_up_price_def round_tick_def)
  have vl: "val l = of_int \<lfloor>val (dmul prev (dsub DONE rate)) / ?w + 1/2\<rfloor> * ?w"
    using quantize_half_up_val[of _ tick l] down n2 by (simp add: limit_down_price_def round_tick_def)
  have w: "0 < ?w" by (rule powi10_pos)
  have "of_int k \<le> val (dmul prev (dadd DONE rate)) / ?w"
    using divide_right_mono[OF m1, of ?w] w kw by simp
  then have "k \<le> \<lfloor>val (dmul prev (dadd DONE rate)) / ?w + 1/2\<rfloor>" by (simp add: le_floor_iff)
  then have "of_int k * ?w \<le> val u" unfolding vu using w by (intro mult_right_mono) auto
  moreover have "val (dmul prev (dsub DONE rate)) / ?w \<le> of_int k"
    using divide_right_mono[OF m2, of ?w] w kw by simp
  then have "\<lfloor>val (dmul prev (dsub DONE rate)) / ?w + 1/2\<rfloor> \<le> k"
    by (simp add: floor_le_iff)
  then have "val l \<le> of_int k * ?w" unfolding vl using w by (intro mult_right_mono) auto
  ultimately show ?thesis by (simp add: k)
qed

end
