(* ===== verification/Positions.thy ===== *)
theory Positions
  imports Instruments
begin

text \<open>
  \<open>domain/portfolio_accounting.py\<close> and \<open>domain/position.py\<close>: the cost of a fill, the moving
  average cost, integer share awards, and the position with its T+1 lock. Raises happen before
  any attribute changes, so an operation of a position is a \<open>position res\<close>. The lemmas show the
  resolution of fees, the share invariant (locked and unlisted shares are part of the holding),
  the T+1 lock and that an award keeps the book cost exactly.
\<close>

section \<open>Portfolio accounting\<close>

text \<open>
  A recorded component: absent, null and empty values are skipped, a list is not hashable, and
  \<open>JText\<close> stands for a text that is no number.
\<close>

fun breakdown_decimal :: "json_object \<Rightarrow> string list \<Rightarrow> decimal option res" where
  "breakdown_decimal b [] = Inr None"
| "breakdown_decimal b (key # keys) =
     (case dict_get b key of
        None \<Rightarrow> breakdown_decimal b keys
      | Some JNull \<Rightarrow> breakdown_decimal b keys
      | Some (JText s) \<Rightarrow> if s = [] then breakdown_decimal b keys else Inl InvalidOperation
      | Some (JTexts _) \<Rightarrow> Inl (TypeError ''unhashable type: list'')
      | Some (JObject _) \<Rightarrow> Inl (TypeError ''unhashable type: dict'')
      | Some (JBool _) \<Rightarrow> Inl InvalidOperation
      | Some (JInt n) \<Rightarrow> Inr (Some (dec_of_int n))
      | Some (JDec d) \<Rightarrow> Inr (Some d))"

definition ADDITIONAL_TRADE_FEE_KEYS :: "string list list" where
  "ADDITIONAL_TRADE_FEE_KEYS =
    [[''subscription_fee''], [''redemption_fee''], [''stamp_tax'', ''tax''], [''transfer_fee''],
     [''other_fees'', ''other_fee''], [''surcharge_fee''], [''exchange_clearing_fee'']]"

definition add_fee_component :: "json_object \<Rightarrow> string list \<Rightarrow> decimal \<Rightarrow> decimal res" where
  "add_fee_component b aliases acc =
     bind_res (breakdown_decimal b aliases) (\<lambda>c.
       Inr (case c of None \<Rightarrow> acc | Some d \<Rightarrow> dadd acc (dabs d)))"

definition total_trade_fee :: "decimal \<Rightarrow> json_object option \<Rightarrow> decimal res" where
  "total_trade_fee commission fee_breakdown =
     (let b = (case fee_breakdown of None \<Rightarrow> [] | Some b \<Rightarrow> b) in
      bind_res (breakdown_decimal b [''total_fee'']) (\<lambda>explicit.
        case explicit of
          Some t \<Rightarrow> Inr (dabs t)
        | None \<Rightarrow> bind_res (breakdown_decimal b [''commission'']) (\<lambda>recorded.
            fold_res (add_fee_component b) ADDITIONAL_TRADE_FEE_KEYS
              (dabs (case recorded of Some c \<Rightarrow> c | None \<Rightarrow> commission)))))"

definition moving_average_cost_after_buy ::
  "decimal \<Rightarrow> decimal \<Rightarrow> decimal \<Rightarrow> decimal \<Rightarrow> decimal \<Rightarrow> decimal res" where
  "moving_average_cost_after_buy current_quantity current_average_cost fill_quantity fill_price total_fee =
     (let previous_cost = dmul current_quantity current_average_cost;
          added_cost = dadd (dmul fill_quantity fill_price) total_fee
      in ddiv (dadd previous_cost added_cost) (dadd current_quantity fill_quantity))"

definition realized_pnl_after_sell :: "decimal \<Rightarrow> decimal \<Rightarrow> decimal \<Rightarrow> decimal \<Rightarrow> decimal" where
  "realized_pnl_after_sell average_cost fill_quantity fill_price total_fee =
     dsub (dsub (dmul fill_quantity fill_price) total_fee) (dmul average_cost fill_quantity)"

text \<open>
  An award. The product is taken with as many digits as both factors have together, so it is
  exact and the trap for inexact results is never sprung.
\<close>

fun nonneg_decimal :: "pynum \<Rightarrow> decimal option" where
  "nonneg_decimal (Num d) = (if dlt d DZERO then None else Some d)"
| "nonneg_decimal _ = None"

definition share_distribution_quantity :: "pynum \<Rightarrow> pynum \<Rightarrow> decimal res" where
  "share_distribution_quantity eligible_quantity shares_per_share =
     (case (nonneg_decimal eligible_quantity, nonneg_decimal shares_per_share) of
        (Some e, Some s) \<Rightarrow>
          if \<not> is_whole e then Inl (ValueError ''portfolio_share_distribution_fractional_unsupported'')
          else let quantity = exact_mul e s in
            if \<not> is_whole quantity
            then Inl (ValueError ''portfolio_share_distribution_fractional_unsupported'')
            else Inr quantity
      | _ \<Rightarrow> Inl (ValueError ''portfolio_share_distribution_quantity_invalid''))"

definition average_cost_after_share_distribution :: "decimal \<Rightarrow> pynum \<Rightarrow> decimal \<Rightarrow> decimal res" where
  "average_cost_after_share_distribution current_quantity current_average_cost distribution_quantity =
     bind_res (share_distribution_quantity (Num current_quantity) (Num DONE)) (\<lambda>_.
     bind_res (share_distribution_quantity (Num distribution_quantity) (Num DONE)) (\<lambda>_.
       case nonneg_decimal current_average_cost of
         None \<Rightarrow> Inl (ValueError ''portfolio_share_distribution_cost_invalid'')
       | Some average \<Rightarrow>
          (case dadd_trap_inexact current_quantity distribution_quantity of
             None \<Rightarrow> Inl (ValueError ''portfolio_share_distribution_cost_invalid'')
           | Some new_quantity \<Rightarrow>
               if coeff new_quantity = 0 then Inr DZERO
               else let existing_cost = dmul current_quantity average in
                 (case ddiv_prec (28 + ndig \<bar>coeff new_quantity\<bar> + 2) existing_cost new_quantity of
                    Inl _ \<Rightarrow> Inl (ValueError ''portfolio_share_distribution_cost_invalid'')
                  | Inr d \<Rightarrow> Inr d))))"

section \<open>The position\<close>

record position =
  po_symbol :: symbol
  po_quantity :: decimal
  po_frozen_qty :: decimal
  po_unlisted_qty :: decimal
  po_avg_cost :: decimal
  po_realized_pnl :: decimal
  po_unrealized_pnl :: decimal
  po_commission_paid :: decimal
  po_market_value :: decimal

definition new_position :: "symbol \<Rightarrow> position" where
  "new_position s =
     \<lparr>po_symbol = s, po_quantity = DZERO, po_frozen_qty = DZERO, po_unlisted_qty = DZERO,
      po_avg_cost = DZERO, po_realized_pnl = DZERO, po_unrealized_pnl = DZERO,
      po_commission_paid = DZERO, po_market_value = DZERO\<rparr>"

definition available_qty :: "position \<Rightarrow> decimal" where
  "available_qty p = dsub (dsub (po_quantity p) (po_frozen_qty p)) (po_unlisted_qty p)"

definition cost_basis :: "position \<Rightarrow> decimal" where
  "cost_basis p = dmul (po_quantity p) (po_avg_cost p)"

definition handle_buy :: "decimal \<Rightarrow> decimal \<Rightarrow> decimal \<Rightarrow> settlement \<Rightarrow> position \<Rightarrow> position res" where
  "handle_buy qty price commission settle p =
     bind_res (moving_average_cost_after_buy (po_quantity p) (po_avg_cost p) qty price commission)
       (\<lambda>avg. Inr (p\<lparr>po_avg_cost := avg,
          po_quantity := dadd (po_quantity p) qty,
          po_frozen_qty := (if settle = T_PLUS_1 then dadd (po_frozen_qty p) qty else po_frozen_qty p),
          po_commission_paid := dadd (po_commission_paid p) commission\<rparr>))"

definition handle_sell :: "decimal \<Rightarrow> decimal \<Rightarrow> decimal \<Rightarrow> position \<Rightarrow> position res" where
  "handle_sell qty price commission p =
     (if dlt (po_quantity p) qty then Inl (ValueError ''Sell quantity exceeds position'')
      else let pnl = realized_pnl_after_sell (po_avg_cost p) qty price commission;
               quantity = dsub (po_quantity p) qty
        in Inr (p\<lparr>po_realized_pnl := dadd (po_realized_pnl p) pnl,
             po_commission_paid := dadd (po_commission_paid p) commission,
             po_quantity := quantity,
             po_avg_cost := (if deq quantity DZERO then DZERO else po_avg_cost p)\<rparr>))"

definition update_on_fill ::
  "string \<Rightarrow> decimal \<Rightarrow> decimal \<Rightarrow> decimal \<Rightarrow> settlement \<Rightarrow> position \<Rightarrow> position res" where
  "update_on_fill side qty price commission settle p =
     (if side = ''buy'' then handle_buy qty price commission settle p
      else if side = ''sell'' then handle_sell qty price commission p
      else Inl (ValueError ''Unknown side''))"

definition advance_settlement_day :: "position \<Rightarrow> position" where
  "advance_settlement_day p = p\<lparr>po_frozen_qty := DZERO\<rparr>"

definition accrue_share_distribution :: "decimal \<Rightarrow> position \<Rightarrow> position res" where
  "accrue_share_distribution q p =
     bind_res (average_cost_after_share_distribution (po_quantity p) (Num (po_avg_cost p)) q) (\<lambda>avg.
       case (dadd_trap_inexact (po_quantity p) q, dadd_trap_inexact (po_unlisted_qty p) q) of
         (Some quantity, Some unlisted) \<Rightarrow>
           Inr (p\<lparr>po_quantity := quantity, po_unlisted_qty := unlisted, po_avg_cost := avg\<rparr>)
       | _ \<Rightarrow> Inl (ValueError ''portfolio_share_distribution_quantity_invalid''))"

definition release_share_distribution :: "decimal \<Rightarrow> position \<Rightarrow> position res" where
  "release_share_distribution q p =
     bind_res (share_distribution_quantity (Num q) (Num DONE)) (\<lambda>_.
       if dlt (po_unlisted_qty p) q
       then Inl (ValueError ''portfolio_share_distribution_release_exceeds_unlisted'')
       else Inr (p\<lparr>po_unlisted_qty := dsub (po_unlisted_qty p) q\<rparr>))"

definition mark_to_market :: "decimal \<Rightarrow> position \<Rightarrow> position" where
  "mark_to_market price p =
     (let mv = dmul (po_quantity p) price in
      p\<lparr>po_market_value := mv, po_unrealized_pnl := dsub mv (cost_basis p)\<rparr>)"

lemmas position_ops_defs [step_defs] = handle_buy_def handle_sell_def update_on_fill_def
  advance_settlement_day_def accrue_share_distribution_def release_share_distribution_def
  mark_to_market_def

section \<open>Fees\<close>

lemma fold_fee_nonneg:
  "fold_res (add_fee_component b) ks t = Inr fee \<Longrightarrow> 0 \<le> val t \<Longrightarrow> 0 \<le> val fee"
  by (erule fold_res_invariant[where P = "\<lambda>t. 0 \<le> val t"])
    (auto simp: add_fee_component_def bind_res_eq_Inr val_simps intro!: rnd_nonneg split: option.splits)

lemma fee_nonneg: "total_trade_fee c fb = Inr fee \<Longrightarrow> 0 \<le> val fee"
  by (auto simp: total_trade_fee_def Let_def bind_res_eq_Inr split: option.splits
      elim!: fold_fee_nonneg)

text \<open>Components that are absent add nothing.\<close>

lemma breakdown_absent: "\<forall>k \<in> set ks. dict_get b k \<in> {None, Some JNull, Some (JText [])} \<Longrightarrow>
    breakdown_decimal b ks = Inr None"
  by (induction b ks rule: breakdown_decimal.induct) auto

lemma fee_components_absent:
  assumes "\<forall>ks \<in> set kss. \<forall>k \<in> set ks. dict_get b k \<in> {None, Some JNull, Some (JText [])}"
  shows "fold_res (add_fee_component b) kss t = Inr t"
  using assms by (induction kss) (simp_all add: add_fee_component_def breakdown_absent)

section \<open>Shares: locked, unlisted and available\<close>

text \<open>
  All share counts on one grid, none negative, and the locked and the unlisted shares within
  the holding.
\<close>

definition position_inv :: "int \<Rightarrow> position \<Rightarrow> bool" where
  "position_inv k p =
    (grid k (po_quantity p) \<and> grid k (po_frozen_qty p) \<and> grid k (po_unlisted_qty p) \<and>
     dle DZERO (po_frozen_qty p) \<and> dle DZERO (po_unlisted_qty p) \<and> dle DZERO (po_avg_cost p) \<and>
     val (po_frozen_qty p) + val (po_unlisted_qty p) \<le> val (po_quantity p))"

definition room :: "int \<Rightarrow> position \<Rightarrow> decimal \<Rightarrow> bool" where
  "room k p q = (grid k q \<and> dle DZERO q \<and> val (po_quantity p) + val q \<le> 10 ^ 28 * 10 powi k)"

lemma position_inv_new [simp]: "position_inv k (new_position s)"
  by (simp add: position_inv_def new_position_def val_simps)

lemma position_inv_available:
  assumes "position_inv k p"
  shows "val (available_qty p) = val (po_quantity p) - val (po_frozen_qty p) - val (po_unlisted_qty p)"
    and "grid k (available_qty p)" and "0 \<le> val (available_qty p)"
proof -
  have 1: "gridv k (val (po_quantity p) - val (po_frozen_qty p))"
    using assms by (intro gridv_diff) (auto simp: position_inv_def val_simps)
  have 2: "gridv k (val (po_quantity p) - val (po_frozen_qty p) - val (po_unlisted_qty p))"
    using assms 1 by (intro gridv_diff) (auto simp: position_inv_def val_simps)
  show a: "val (available_qty p) = val (po_quantity p) - val (po_frozen_qty p) - val (po_unlisted_qty p)"
    using 1 2 by (simp add: available_qty_def val_simps)
  show "grid k (available_qty p)" "0 \<le> val (available_qty p)"
    using 2 assms unfolding a by (auto simp: position_inv_def)
qed

lemma room_sum:
  assumes "position_inv k p" "room k p q"
  shows "gridv k (val (po_quantity p) + val q)" "gridv k (val (po_frozen_qty p) + val q)"
    "gridv k (val (po_unlisted_qty p) + val q)"
  using assms by (auto simp: position_inv_def room_def val_simps intro!: gridv_add)

lemma average_after_buy_nonneg:
  assumes "moving_average_cost_after_buy q a f pr fee = Inr d"
    and "0 \<le> val q" "0 \<le> val a" "0 \<le> val f" "0 \<le> val pr" "0 \<le> val fee"
  shows "0 \<le> val d"
  using assms ddiv_Inr[of _ _ d]
  by (auto simp: moving_average_cost_after_buy_def Let_def val_simps intro!: rnd_nonneg
      divide_nonneg_nonneg add_nonneg_nonneg mult_nonneg_nonneg)

lemma position_inv_quantity_nonneg: "position_inv k p \<Longrightarrow> 0 \<le> val (po_quantity p)"
  by (auto simp: position_inv_def val_simps)

lemma handle_buy_inv:
  assumes "position_inv k p" "room k p qty" "0 \<le> val price" "0 \<le> val fee"
    and "handle_buy qty price fee settle p = Inr p'"
  shows "position_inv k p' \<and> val (po_quantity p') = val (po_quantity p) + val qty"
proof -
  have q: "0 \<le> val (po_quantity p)" "0 \<le> val qty" "0 \<le> val (po_avg_cost p)"
    using assms(1,2) position_inv_quantity_nonneg by (auto simp: room_def position_inv_def val_simps)
  show ?thesis using assms room_sum[OF assms(1,2)] q
    by (auto simp: handle_buy_def bind_res_eq_Inr position_inv_def val_simps
        intro: average_after_buy_nonneg[OF _ q(1,3,2) assms(3,4)])
qed

lemma handle_sell_inv:
  assumes "position_inv k p" "grid k qty" "0 \<le> val qty" "val qty \<le> val (available_qty p)"
  shows "\<exists>p'. handle_sell qty price fee p = Inr p' \<and> position_inv k p' \<and>
    val (po_quantity p') = val (po_quantity p) - val qty"
proof -
  note av = position_inv_available(1)[OF assms(1)]
  have le: "val qty \<le> val (po_quantity p)"
    using assms av by (auto simp: position_inv_def val_simps)
  have "gridv k (val (po_quantity p) - val qty)"
    using assms le by (intro gridv_diff) (auto simp: position_inv_def)
  then show ?thesis using assms le av
    by (auto simp: handle_sell_def Let_def position_inv_def val_simps)
qed

lemma settlement_inv: "position_inv k p \<Longrightarrow> position_inv k (advance_settlement_day p)"
  by (auto simp: advance_settlement_day_def position_inv_def val_simps)

lemma average_after_award_nonneg:
  assumes "average_cost_after_share_distribution q (Num a) f = Inr d"
  shows "0 \<le> val d"
  using assms ddiv_prec_Inr[of _ _ _ d] 
  by (auto simp: average_cost_after_share_distribution_def share_distribution_quantity_def Let_def val_simps
      bind_res_eq_Inr dest!: dadd_trap_inexact_Some split: option.splits if_splits sum.splits
      intro!: rnd_nonneg divide_nonneg_nonneg)

lemma accrue_share_distribution_Inr:
  assumes "accrue_share_distribution q p = Inr p'"
  obtains avg quantity unlisted where
    "average_cost_after_share_distribution (po_quantity p) (Num (po_avg_cost p)) q = Inr avg"
    "dadd_trap_inexact (po_quantity p) q = Some quantity"
    "dadd_trap_inexact (po_unlisted_qty p) q = Some unlisted"
    "p' = p\<lparr>po_quantity := quantity, po_unlisted_qty := unlisted, po_avg_cost := avg\<rparr>"
  using assms by (auto simp: accrue_share_distribution_def bind_res_eq_Inr split: option.splits)

lemma award_inv:
  assumes "position_inv k p" "room k p q" "accrue_share_distribution q p = Inr p'"
  shows "position_inv k p' \<and> val (po_quantity p') = val (po_quantity p) + val q \<and>
    val (available_qty p') = val (available_qty p)"
proof -
  obtain avg quantity unlisted where
    "average_cost_after_share_distribution (po_quantity p) (Num (po_avg_cost p)) q = Inr avg"
    and q: "dadd_trap_inexact (po_quantity p) q = Some quantity"
    and u: "dadd_trap_inexact (po_unlisted_qty p) q = Some unlisted"
    and p': "p' = p\<lparr>po_quantity := quantity, po_unlisted_qty := unlisted, po_avg_cost := avg\<rparr>"
    using assms(3) by (rule accrue_share_distribution_Inr)
  then have "0 \<le> val avg" by (blast intro: average_after_award_nonneg)
  with assms(1,2) p' have inv: "position_inv k p'"
    using room_sum[OF assms(1,2)] dadd_trap_inexact_Some[OF q] dadd_trap_inexact_Some[OF u]
    by (auto simp: position_inv_def room_def val_simps)
  show ?thesis
    using inv position_inv_available(1)[OF inv] position_inv_available(1)[OF assms(1)]
      dadd_trap_inexact_Some[OF q] dadd_trap_inexact_Some[OF u] by (simp add: p')
qed

lemma release_inv:
  assumes "position_inv k p" "grid k q" "release_share_distribution q p = Inr p'"
  shows "position_inv k p' \<and> po_quantity p' = po_quantity p \<and>
    val (available_qty p') = val (available_qty p) + val q"
proof -
  from assms(3) have q0: "0 \<le> val q" and le: "val q \<le> val (po_unlisted_qty p)"
    and p': "p' = p\<lparr>po_unlisted_qty := dsub (po_unlisted_qty p) q\<rparr>"
    by (auto simp: release_share_distribution_def share_distribution_quantity_def bind_res_eq_Inr
        val_simps split: option.splits if_splits)
  have g: "gridv k (val (po_unlisted_qty p) - val q)"
    using assms(1,2) q0 le by (intro gridv_diff) (auto simp: position_inv_def)
  then have inv: "position_inv k p'"
    using assms(1) q0 le by (auto simp: p' position_inv_def val_simps)
  show ?thesis
    using inv position_inv_available(1)[OF inv] position_inv_available(1)[OF assms(1)] g
    by (simp add: p' val_simps)
qed

lemma mark_inv: "position_inv k p \<Longrightarrow> position_inv k (mark_to_market price p)"
  by (simp add: mark_to_market_def Let_def position_inv_def)

section \<open>Histories of a position\<close>

datatype position_op =
    PBuy decimal decimal decimal settlement
  | PSell decimal decimal decimal
  | PSettle
  | PAward decimal
  | PRelease decimal
  | PMark decimal

fun position_step :: "position_op \<Rightarrow> position \<Rightarrow> position res" where
  "position_step (PBuy q pr fee s) p = update_on_fill ''buy'' q pr fee s p"
| "position_step (PSell q pr fee) p = update_on_fill ''sell'' q pr fee T_PLUS_1 p"
| "position_step PSettle p = Inr (advance_settlement_day p)"
| "position_step (PAward q) p = accrue_share_distribution q p"
| "position_step (PRelease q) p = release_share_distribution q p"
| "position_step (PMark price) p = Inr (mark_to_market price p)"

text \<open>
  What the callers of a position guarantee: quantities on the grid, prices and fees that are not
  negative, and no sale beyond the available shares (the guard of \<open>backtest/engine.py\<close>).
\<close>

fun op_admissible :: "int \<Rightarrow> position \<Rightarrow> position_op \<Rightarrow> bool" where
  "op_admissible k p (PBuy q pr fee s) = (room k p q \<and> dle DZERO pr \<and> dle DZERO fee)"
| "op_admissible k p (PSell q pr fee) = (grid k q \<and> dle DZERO q \<and> dle q (available_qty p))"
| "op_admissible k p PSettle = True"
| "op_admissible k p (PAward q) = room k p q"
| "op_admissible k p (PRelease q) = grid k q"
| "op_admissible k p (PMark price) = True"

inductive position_history :: "int \<Rightarrow> symbol \<Rightarrow> position \<Rightarrow> bool" for k s where
  start: "position_history k s (new_position s)"
| step: "position_history k s p \<Longrightarrow> op_admissible k p op \<Longrightarrow> position_step op p = Inr p' \<Longrightarrow>
    position_history k s p'"

lemma position_step_inv:
  assumes "position_inv k p" "op_admissible k p op" "position_step op p = Inr p'"
  shows "position_inv k p'"
proof (cases op)
  case (PBuy q pr fee s)
  then show ?thesis using handle_buy_inv[of k p q pr fee s p'] assms
    by (simp add: update_on_fill_def val_simps)
next
  case (PSell q pr fee)
  then show ?thesis using handle_sell_inv[of k p q pr fee] assms
    by (auto simp: update_on_fill_def val_simps)
next
  case PSettle
  then show ?thesis using settlement_inv[OF assms(1)] assms(3) by simp
next
  case (PAward q)
  then show ?thesis using award_inv[OF assms(1), of q p'] assms(2,3) by simp
next
  case (PRelease q)
  then show ?thesis using release_inv[OF assms(1), of q p'] assms(2,3) by simp
next
  case (PMark price)
  then show ?thesis using mark_inv[OF assms(1), of price] assms(3) by simp
qed

lemma position_history_inv: "position_history k s p \<Longrightarrow> position_inv k p"
  by (induction rule: position_history.induct) (auto intro: position_step_inv)

text \<open>A bought T+1 share is not available before the next settlement day.\<close>

lemma buy_available:
  assumes "position_inv k p" "room k p qty" "0 \<le> val price" "0 \<le> val fee"
    and "update_on_fill ''buy'' qty price fee settle p = Inr p'"
  shows "val (available_qty p') = val (available_qty p) + (if settle = T_PLUS_1 then 0 else val qty) \<and>
    val (available_qty (advance_settlement_day p')) =
      val (po_quantity p) + val qty - val (po_unlisted_qty p)"
proof -
  have b: "handle_buy qty price fee settle p = Inr p'" using assms(5) by (simp add: update_on_fill_def)
  have inv: "position_inv k p'" "val (po_quantity p') = val (po_quantity p) + val qty"
    using handle_buy_inv[OF assms(1-4) b] by auto
  have "val (po_frozen_qty p') = val (po_frozen_qty p) + (if settle = T_PLUS_1 then val qty else 0)"
    "po_unlisted_qty p' = po_unlisted_qty p"
    using b room_sum[OF assms(1,2)] by (auto simp: handle_buy_def bind_res_eq_Inr val_simps)
  then show ?thesis
    using position_inv_available(1)[OF inv(1)] position_inv_available(1)[OF assms(1)]
      position_inv_available(1)[OF settlement_inv[OF inv(1)]] inv(2)
    by (simp add: advance_settlement_day_def)
qed

section \<open>An award keeps the book cost\<close>

lemma spread_cost:
  assumes n: "0 < coeff n" and C: "0 \<le> C" "fits 28 C"
  shows "cr (val n * rnd (28 + ndig \<bar>coeff n\<bar> + 2) (C / val n)) = C"
proof (cases "C = 0")
  case False
  let ?P = "28 + ndig \<bar>coeff n\<bar> + 2"
  have v: "0 < val n" using n by (simp add: val_pos_iff)
  have "0 < floorlog 10 (nat \<bar>coeff n\<bar>)" using floorlog_int_bounds(3)[of "coeff n"] n by simp
  then have d: "1 \<le> ndig \<bar>coeff n\<bar>" by (simp add: ndig_floorlog)
  have pos: "0 < C / val n" using v C False by simp
  have "\<bar>rnd ?P (C / val n) - C / val n\<bar> \<le> \<bar>C / val n\<bar> * 10 powi (1 - int ?P) / 2"
    by (rule rnd_error) simp
  have e: "(10::rat) powi (1 - int ?P) < 10 powi (- int 28 - 1)" unfolding powi10_less_iff using d by simp
  from \<open>\<bar>rnd ?P (C / val n) - C / val n\<bar> \<le> \<bar>C / val n\<bar> * 10 powi (1 - int ?P) / 2\<close>
  have "\<bar>rnd ?P (C / val n) - C / val n\<bar> * val n \<le> (C / val n) * 10 powi (1 - int ?P) / 2 * val n"
    using v pos by (intro mult_right_mono) (simp_all only: abs_of_pos less_imp_le)
  also have "\<dots> = C * 10 powi (1 - int ?P) / 2" using v by simp
  also have "\<dots> < C * 10 powi (- int 28 - 1) / 2" 
    by (rule divide_strict_right_mono, rule mult_strict_left_mono[OF e]) (use C False in auto)
  also have "\<bar>rnd ?P (C / val n) - C / val n\<bar> * val n = \<bar>val n * rnd ?P (C / val n) - C\<bar>"
  proof -
    have "val n * rnd ?P (C / val n) - C = (rnd ?P (C / val n) - C / val n) * val n"
      using v by (simp add: right_diff_distrib mult.commute)
    then show ?thesis using v by (simp only: abs_mult abs_of_pos)
  qed
  finally show ?thesis using C False by (intro rnd_near) auto
qed simp

lemma award_keeps_cost:
  assumes "accrue_share_distribution q p = Inr p'"
  shows "val (cost_basis p') = val (cost_basis p)"
proof -
  let ?Q = "po_quantity p" and ?A = "po_avg_cost p"
  obtain avg quantity unlisted where
    avg: "average_cost_after_share_distribution ?Q (Num ?A) q = Inr avg"
    and q: "dadd_trap_inexact ?Q q = Some quantity"
    and p'': "p' = p\<lparr>po_quantity := quantity, po_unlisted_qty := unlisted, po_avg_cost := avg\<rparr>"
    using assms by (rule accrue_share_distribution_Inr)
  then have p': "po_quantity p' = quantity" "po_avg_cost p' = avg" by simp_all
  have nn: "0 \<le> val ?Q" "0 \<le> val q" "0 \<le> val ?A"
    using avg by (auto simp: average_cost_after_share_distribution_def share_distribution_quantity_def
      bind_res_eq_Inr val_simps split: option.splits if_splits)
  have vq: "val quantity = val ?Q + val q" using q by (rule dadd_trap_inexact_Some)
  show ?thesis
  proof (cases "coeff quantity = 0")
    case True
    then have "val ?Q = 0" using vq nn by (simp add: val_def[of quantity])
    moreover have "val quantity = 0" using True by (simp add: val_def)
    ultimately show ?thesis by (simp add: cost_basis_def val_simps p')
  next
    case False
    then have "0 < val quantity" using vq nn val_eq_0_iff[of quantity] by linarith
    then have c: "0 < coeff quantity" by (simp add: val_pos_iff)
    have "ddiv_prec (28 + ndig \<bar>coeff quantity\<bar> + 2) (dmul ?Q ?A) quantity = Inr avg"
      using avg q False nn
      by (auto simp: average_cost_after_share_distribution_def bind_res_eq_Inr Let_def val_simps
          split: sum.splits if_splits option.splits)
    then have va: "val avg = rnd (28 + ndig \<bar>coeff quantity\<bar> + 2) (cr (val ?Q * val ?A) / val quantity)"
      by (auto dest!: ddiv_prec_Inr simp: val_simps)
    have "0 \<le> cr (val ?Q * val ?A)" using nn by (intro rnd_nonneg) auto
    moreover have "fits 28 (cr (val ?Q * val ?A))" by (rule rnd_fits) simp
    ultimately show ?thesis using spread_cost[OF c]
      by (simp add: cost_basis_def val_simps p' va)
  qed
qed

section \<open>Properties\<close>



text \<open>A T+1 purchase adds nothing to the available quantity until the settlement day is
  advanced; then the whole holding but the unlisted shares is available. A T+0 purchase is
  available at once.\<close>

theorem bought_shares_locked_until_settlement:
  assumes "position_history k s p" "room k p qty" "dle DZERO price" "dle DZERO fee"
    and "update_on_fill ''buy'' qty price fee settle p = Inr p'"
  shows "val (available_qty p') = val (available_qty p) + (if settle = T_PLUS_1 then 0 else val qty) \<and>
    val (available_qty (advance_settlement_day p')) =
      val (po_quantity p) + val qty - val (po_unlisted_qty p)"
  using buy_available[OF position_history_inv[OF assms(1)] assms(2) _ _ assms(5)] assms(3,4)
  by (simp add: val_simps)

lemma bought_shares_locked_witness:
  "val (available_qty (advance_settlement_day \<lparr>po_symbol = ''510300'', po_quantity = Decimal 200 0,
     po_frozen_qty = Decimal 200 0, po_unlisted_qty = DZERO, po_avg_cost = Decimal 4025 (- 3),
     po_realized_pnl = DZERO, po_unrealized_pnl = DZERO, po_commission_paid = Decimal 5 0,
     po_market_value = DZERO\<rparr>)) = 200"
proof -
  have "room 0 (new_position ''510300'') (Decimal 200 0)"
    by (simp add: room_def new_position_def val_simps gridv_def)
  moreover have "update_on_fill ''buy'' (Decimal 200 0) (Decimal 4 0) (Decimal 5 0) T_PLUS_1
     (new_position ''510300'') = Inr \<lparr>po_symbol = ''510300'', po_quantity = Decimal 200 0,
     po_frozen_qty = Decimal 200 0, po_unlisted_qty = DZERO, po_avg_cost = Decimal 4025 (- 3),
     po_realized_pnl = DZERO, po_unrealized_pnl = DZERO, po_commission_paid = Decimal 5 0,
     po_market_value = DZERO\<rparr>"
    by code_simp
  ultimately show ?thesis
    using bought_shares_locked_until_settlement[OF position_history.start[of 0 "''510300''"],
        of "Decimal 200 0" "Decimal 4 0" "Decimal 5 0" T_PLUS_1]
    by (simp add: val_simps new_position_def)
qed

text \<open>A share award leaves the book cost of the position (holding times average cost, as the
  code computes it at its working precision) exactly as it was, however the new average is
  rounded.\<close>

theorem award_preserves_book_cost:
  assumes "accrue_share_distribution q p = Inr p'"
  shows "deq (cost_basis p') (cost_basis p)"
  using award_keeps_cost[OF assms] by (simp add: val_simps)

lemma award_preserves_book_cost_example:
  "\<exists>p'. accrue_share_distribution (Decimal 30 0)
      ((new_position ''600000'')\<lparr>po_quantity := Decimal 100 0, po_avg_cost := Decimal 1005 (- 2)\<rparr>) = Inr p' \<and>
    deq (cost_basis p') (Decimal 1005 0)"
proof -
  let ?p = "(new_position ''600000'')\<lparr>po_quantity := Decimal 100 0, po_avg_cost := Decimal 1005 (- 2)\<rparr>"
  have "\<not> isl (accrue_share_distribution (Decimal 30 0) ?p)" by code_simp
  then obtain p' where p': "accrue_share_distribution (Decimal 30 0) ?p = Inr p'"
    by (cases "accrue_share_distribution (Decimal 30 0) ?p") auto
  have "deq (cost_basis ?p) (Decimal 1005 0)" by code_simp
  with award_preserves_book_cost[OF p'] p' show ?thesis by (auto simp: val_simps)
qed

text \<open>The cost of a fill is never negative; when the record carries \<open>total_fee\<close> that amount is
  the cost, whatever components stand beside it; when it carries neither a total nor any
  additional component, the cost is the recorded commission, or else the commission of the fill.\<close>

theorem trade_fee_counted_once:
  shows "(total_trade_fee c (Some b) = Inr fee \<longrightarrow> dle DZERO fee) \<and>
    (dict_get b ''total_fee'' = Some (JDec t) \<longrightarrow> total_trade_fee c (Some b) = Inr (dabs t)) \<and>
    (dict_get b ''total_fee'' = None \<and> dict_get b ''commission'' = Some (JDec r) \<and>
       (\<forall>ks \<in> set ADDITIONAL_TRADE_FEE_KEYS. \<forall>k \<in> set ks. dict_get b k = None) \<longrightarrow>
       total_trade_fee c (Some b) = Inr (dabs r)) \<and>
    total_trade_fee c None = Inr (dabs c)"
proof (intro conjI impI)
  show "total_trade_fee c (Some b) = Inr fee \<Longrightarrow> dle DZERO fee"
    using fee_nonneg by (simp add: val_simps)
  show "total_trade_fee c None = Inr (dabs c)"
    using fee_components_absent[of ADDITIONAL_TRADE_FEE_KEYS "[]"] by (simp add: total_trade_fee_def)
qed (use fee_components_absent[of ADDITIONAL_TRADE_FEE_KEYS b] in \<open>auto simp: total_trade_fee_def\<close>)

lemma trade_fee_counted_once_example:
  "total_trade_fee (Decimal 9 0) (Some [(''commission'', JDec (Decimal 5 0)), (''stamp_tax'', JDec (Decimal 2 0)),
     (''total_fee'', JDec (Decimal 7 0))]) = Inr (Decimal 7 0) \<and>
   total_trade_fee (Decimal 9 0) (Some [(''commission'', JDec (Decimal 5 0))]) = Inr (Decimal 5 0)"
proof
  have "dabs (Decimal 7 0) = Decimal 7 0" "dabs (Decimal 5 0) = Decimal 5 0" by code_simp+
  then show "total_trade_fee (Decimal 9 0) (Some [(''commission'', JDec (Decimal 5 0)),
      (''stamp_tax'', JDec (Decimal 2 0)), (''total_fee'', JDec (Decimal 7 0))]) = Inr (Decimal 7 0)"
    "total_trade_fee (Decimal 9 0) (Some [(''commission'', JDec (Decimal 5 0))]) = Inr (Decimal 5 0)"
    using trade_fee_counted_once[of "Decimal 9 0" "[(''commission'', JDec (Decimal 5 0)),
        (''stamp_tax'', JDec (Decimal 2 0)), (''total_fee'', JDec (Decimal 7 0))]" _ "Decimal 7 0"]
      trade_fee_counted_once[of "Decimal 9 0" "[(''commission'', JDec (Decimal 5 0))]" _ _ "Decimal 5 0"]
    by (auto simp: ADDITIONAL_TRADE_FEE_KEYS_def)
qed

end
