(* ===== verification/Event_Bus.thy ===== *)
theory Event_Bus
  imports Core_Types
begin

text \<open>
  \<open>core/event_bus.py\<close>: a synchronous publish/subscribe bus. \<open>'k\<close> are the registered event
  classes, \<open>'h\<close> the handlers (compared for equality by \<open>unsubscribe\<close>), \<open>'e\<close> the events and
  \<open>'w\<close> whatever else the handlers act on. What a handler does is a parameter of the operations
  that call it: it sees and may change the bus, may raise after changing it, and may not return
  (\<open>None\<close>). A dispatch reads
  the handler table as it stands when the dispatch starts; the code iterates over the live table,
  so a handler that changes the table during a dispatch is outside the model. \<open>drain\<close> need not end, so it spends
  fuel; the locale \<open>draining\<close> gives the fuel that is enough.
\<close>

record ('k, 'h, 'e) bus =
  bus_handlers :: "('k, (int \<times> 'h) list) dict"
  bus_queue :: "'e list"
  bus_raise :: bool

definition new_bus :: "bool \<Rightarrow> ('k, 'h, 'e) bus" where
  "new_bus raise = \<lparr>bus_handlers = [], bus_queue = [], bus_raise = raise\<rparr>"

definition subscribe :: "'k \<Rightarrow> 'h \<Rightarrow> int \<Rightarrow> ('k, 'h, 'e) bus \<Rightarrow> ('k, 'h, 'e) bus" where
  "subscribe k h priority b =
     b\<lparr>bus_handlers :=
        dict_put k (sort_key fst (dict_get_default (bus_handlers b) k [] @ [(priority, h)]))
          (bus_handlers b)\<rparr>"

definition unsubscribe :: "'k \<Rightarrow> 'h \<Rightarrow> ('k, 'h, 'e) bus \<Rightarrow> ('k, 'h, 'e) bus" where
  "unsubscribe k h b =
     b\<lparr>bus_handlers :=
        dict_put k (filter (\<lambda>p. snd p \<noteq> h) (dict_get_default (bus_handlers b) k []))
          (bus_handlers b)\<rparr>"

definition publish :: "'e \<Rightarrow> ('k, 'h, 'e) bus \<Rightarrow> ('k, 'h, 'e) bus" where
  "publish e b = b\<lparr>bus_queue := bus_queue b @ [e]\<rparr>"

definition queue_size :: "('k, 'h, 'e) bus \<Rightarrow> nat" where
  "queue_size b = length (bus_queue b)"

definition clear :: "('k, 'h, 'e) bus \<Rightarrow> ('k, 'h, 'e) bus" where
  "clear b = b\<lparr>bus_queue := [], bus_handlers := []\<rparr>"

section \<open>Dispatch\<close>

type_synonym ('k, 'h, 'e, 'w) world = "('k, 'h, 'e) bus \<times> 'w"

type_synonym ('k, 'h, 'e, 'w) outcome = "(('k, 'h, 'e, 'w) world \<times> py_exc option) option"

type_synonym ('k, 'h, 'e, 'w) runner =
  "'h \<Rightarrow> 'e \<Rightarrow> ('k, 'h, 'e, 'w) world \<Rightarrow> ('k, 'h, 'e, 'w) outcome"

text \<open>A handler's exception is logged and swallowed unless the bus re-raises.\<close>

fun run_handlers ::
  "('k, 'h, 'e, 'w) runner \<Rightarrow> 'h list \<Rightarrow> 'e \<Rightarrow> ('k, 'h, 'e, 'w) world \<Rightarrow> ('k, 'h, 'e, 'w) outcome" where
  "run_handlers run [] e s = Some (s, None)"
| "run_handlers run (h # hs) e s =
     (case run h e s of
        None \<Rightarrow> None
      | Some (s', exc) \<Rightarrow>
          if exc \<noteq> None \<and> bus_raise (fst s') then Some (s', exc) else run_handlers run hs e s')"

definition matching_handlers :: "('e \<Rightarrow> 'k \<Rightarrow> bool) \<Rightarrow> ('k, 'h, 'e) bus \<Rightarrow> 'e \<Rightarrow> 'h list" where
  "matching_handlers isinst b e =
     concat (map (\<lambda>(k, entries). if isinst e k then map snd entries else []) (bus_handlers b))"

definition dispatch ::
  "('e \<Rightarrow> 'k \<Rightarrow> bool) \<Rightarrow> ('k, 'h, 'e, 'w) runner \<Rightarrow> 'e \<Rightarrow> ('k, 'h, 'e, 'w) world
    \<Rightarrow> ('k, 'h, 'e, 'w) outcome" where
  "dispatch isinst run e s = run_handlers run (matching_handlers isinst (fst s) e) e s"

definition publish_and_process ::
  "('e \<Rightarrow> 'k \<Rightarrow> bool) \<Rightarrow> ('k, 'h, 'e, 'w) runner \<Rightarrow> 'e \<Rightarrow> ('k, 'h, 'e, 'w) world
    \<Rightarrow> ('k, 'h, 'e, 'w) outcome" where
  "publish_and_process isinst run e s = dispatch isinst run e s"

text \<open>
  \<open>drain\<close>: the oldest event leaves the queue and is dispatched, until the queue is empty or a
  handler's exception escapes; the number of completed dispatches is counted. \<open>None\<close> means that
  a handler does not return or that the fuel ran out.
\<close>

fun drain ::
  "nat \<Rightarrow> ('e \<Rightarrow> 'k \<Rightarrow> bool) \<Rightarrow> ('k, 'h, 'e, 'w) runner \<Rightarrow> ('k, 'h, 'e, 'w) world
    \<Rightarrow> (('k, 'h, 'e, 'w) world \<times> py_exc option \<times> nat) option" where
  "drain fuel isinst run (b, w) =
     (case bus_queue b of
        [] \<Rightarrow> Some ((b, w), None, 0)
      | e # q \<Rightarrow>
         (case fuel of 0 \<Rightarrow> None
          | Suc n \<Rightarrow>
             (case dispatch isinst run e (b\<lparr>bus_queue := q\<rparr>, w) of
                None \<Rightarrow> None
              | Some (s', Some exc) \<Rightarrow> Some (s', Some exc, 0)
              | Some (s', None) \<Rightarrow>
                  map_option (\<lambda>(s'', exc, k). (s'', exc, Suc k)) (drain n isinst run s'))))"

declare drain.simps [simp del]

section \<open>Subscription order\<close>

lemma sort_key_insert_last:
  "sorted (map fst es) \<Longrightarrow>
    sort_key fst (es @ [(p, h)]) =
      filter (\<lambda>x. fst x \<le> p) es @ (p, h) # filter (\<lambda>x. p < fst x) es" for p :: int
proof (induction es)
  case (Cons x es)
  let ?L = "filter (\<lambda>x. fst x \<le> p) es" and ?R = "filter (\<lambda>x. p < fst x) es"
  have IH: "sort_key fst (es @ [(p, h)]) = ?L @ (p, h) # ?R" using Cons by simp
  have all: "\<forall>y \<in> set es. fst x \<le> fst y" using Cons.prems by auto
  show ?case
  proof (cases "fst x \<le> p")
    case True
    have "insort_key fst x (?L @ (p, h) # ?R) = x # (?L @ (p, h) # ?R)"
      using all True by (intro insort_is_Cons) auto
    with True IH show ?thesis by simp
  next
    case False
    with all have "?L = []" "?R = es" by (auto simp: filter_empty_conv filter_id_conv)
    moreover have "insort_key fst x es = x # es" using all by (intro insort_is_Cons) auto
    ultimately show ?thesis using False IH by simp
  qed
qed simp

definition priorities_sorted :: "('k, 'h, 'e) bus \<Rightarrow> bool" where
  "priorities_sorted b = (\<forall>es \<in> set (dict_values (bus_handlers b)). sorted (map fst es))"

lemma bus_handlers_subscribe:
  "bus_handlers (subscribe k h p b) =
    dict_put k (sort_key fst (dict_get_default (bus_handlers b) k [] @ [(p, h)])) (bus_handlers b)"
  by (simp add: subscribe_def)

lemma bus_handlers_unsubscribe:
  "bus_handlers (unsubscribe k h b) =
    dict_put k (filter (\<lambda>p. snd p \<noteq> h) (dict_get_default (bus_handlers b) k [])) (bus_handlers b)"
  by (simp add: unsubscribe_def)

lemma priorities_sorted_new: "priorities_sorted (new_bus r)"
  by (simp add: priorities_sorted_def new_bus_def)

lemma priorities_sorted_subscribe:
  "priorities_sorted b \<Longrightarrow> priorities_sorted (subscribe k h p b)"
  unfolding priorities_sorted_def bus_handlers_subscribe
  by (rule dict_put_all) (simp_all only: sorted_sort_key)

lemma priorities_sorted_unsubscribe:
  assumes "priorities_sorted b"
  shows "priorities_sorted (unsubscribe k h b)"
proof -
  have "sorted (map fst (dict_get_default (bus_handlers b) k []))"
    using assms dict_values_get[of "bus_handlers b" k]
    by (auto simp: priorities_sorted_def dict_get_default_def split: option.splits)
  then have "sorted (map fst (filter (\<lambda>p. snd p \<noteq> h) (dict_get_default (bus_handlers b) k [])))"
    by (rule sorted_filter)
  with assms show ?thesis
    unfolding priorities_sorted_def bus_handlers_unsubscribe by (intro dict_put_all)
qed

text \<open>
  A new subscriber runs after every subscriber of the same or an earlier priority and before
  those of a later one; the others keep their order.
\<close>

lemma subscribe_order:
  assumes "priorities_sorted b" and "dict_get (bus_handlers b) k = Some es"
  shows "dict_get (bus_handlers (subscribe k h p b)) k =
    Some (filter (\<lambda>x. fst x \<le> p) es @ (p, h) # filter (\<lambda>x. p < fst x) es)"
proof -
  have "sorted (map fst es)"
    using assms dict_values_get[of "bus_handlers b" k es] by (auto simp: priorities_sorted_def)
  then show ?thesis using assms(2) by (simp add: subscribe_def dict_get_default_def sort_key_insert_last)
qed

section \<open>Draining ends\<close>

text \<open>
  If every dispatch of a waiting event adds waiting events whose total weight is below the weight
  of that event, the total weight of the queue is fuel enough: more fuel changes nothing, so a
  drain with that fuel can only fail because a handler does not return.
\<close>

locale draining =
  fixes isinst :: "'e \<Rightarrow> 'k \<Rightarrow> bool"
    and run :: "('k, 'h, 'e, 'w) runner"
    and weight :: "'e \<Rightarrow> nat"
    and waits :: "'e \<Rightarrow> bool"
    and good :: "('k, 'h, 'e, 'w) world \<Rightarrow> bool"
  assumes dispatch_adds: "good s \<Longrightarrow> waits e \<Longrightarrow> dispatch isinst run e s = Some (s', exc) \<Longrightarrow>
    good s' \<and> (\<exists>new. bus_queue (fst s') = bus_queue (fst s) @ new \<and> sum_list (map weight new) < weight e)"
    and good_pop: "good (b, w) \<Longrightarrow> bus_queue b = e # q \<Longrightarrow> waits e \<and> good (b\<lparr>bus_queue := q\<rparr>, w)"
begin

definition load :: "('k, 'h, 'e, 'w) world \<Rightarrow> nat" where
  "load s = sum_list (map weight (bus_queue (fst s)))"

lemma load_step:
  assumes "good (b, w)" "bus_queue b = e # q"
    and "dispatch isinst run e (b\<lparr>bus_queue := q\<rparr>, w) = Some (s', exc)"
  shows "good s' \<and> load s' < load (b, w)"
  using dispatch_adds[OF _ _ assms(3)] good_pop[OF assms(1,2)] assms(2) by (auto simp: load_def)

lemma drain_stable:
  "good s \<Longrightarrow> load s < n \<Longrightarrow> load s < m \<Longrightarrow> drain n isinst run s = drain m isinst run s"
proof (induction n arbitrary: m s)
  case (Suc n)
  obtain b w where s: "s = (b, w)" by (cases s)
  obtain m' where m: "m = Suc m'" using Suc.prems(3) by (cases m) auto
  show ?case
  proof (cases "bus_queue b")
    case Nil
    then show ?thesis by (simp add: s m drain.simps)
  next
    case (Cons e q)
    show ?thesis
    proof (cases "dispatch isinst run e (b\<lparr>bus_queue := q\<rparr>, w)")
      case None
      with Cons show ?thesis by (simp add: s m drain.simps)
    next
      case (Some r)
      obtain s' exc where r: "r = (s', exc)" by (cases r)
      from load_step[of b w e q s' exc] Suc.prems(1) Cons Some r s
      have "good s'" "load s' < load s" by auto
      then have "drain n isinst run s' = drain m' isinst run s'"
        using Suc.prems(2,3) m by (intro Suc.IH) simp_all
      with Cons Some r show ?thesis by (cases exc) (simp_all add: s m drain.simps)
    qed
  qed
qed simp

lemma drain_enough:
  assumes "good s" "load s < n" "drain n isinst run s = None"
  shows "\<exists>t e. good t \<and> waits e \<and> dispatch isinst run e t = None"
  using assms
proof (induction n arbitrary: s)
  case (Suc n)
  obtain b w where s: "s = (b, w)" by (cases s)
  then obtain e q where q: "bus_queue b = e # q"
    using Suc.prems(3) by (auto simp: drain.simps split: list.splits)
  have g: "waits e" "good (b\<lparr>bus_queue := q\<rparr>, w)" using good_pop[OF _ q] Suc.prems(1) s by auto
  show ?case
  proof (cases "dispatch isinst run e (b\<lparr>bus_queue := q\<rparr>, w)")
    case None
    with g show ?thesis by blast
  next
    case (Some r)
    obtain s' exc where r: "r = (s', exc)" by (cases r)
    from load_step[of b w e q s' exc] Suc.prems(1) q Some r s have l: "good s'" "load s' < load s" by auto
    have "drain n isinst run s' = None" using Suc.prems(3) q Some r s
      by (cases exc) (simp_all add: drain.simps[of "Suc n"])
    then show ?thesis using Suc.IH[OF l(1)] l(2) Suc.prems(2) by simp
  qed
qed simp

end

lemma drain_empty:
  "drain fuel isinst run s = Some (s', None, n) \<Longrightarrow> bus_queue (fst s') = []"
proof (induction fuel arbitrary: s n)
  case 0
  then show ?case by (cases s) (auto simp: drain.simps split: list.splits)
next
  case (Suc fuel)
  then show ?case
    by (cases s) (auto simp: drain.simps[of "Suc fuel"] split: list.splits prod.splits option.splits)
qed

lemma drain_more_fuel:
  "drain fuel isinst run s = Some r \<Longrightarrow> fuel \<le> fuel' \<Longrightarrow> drain fuel' isinst run s = Some r"
proof (induction fuel arbitrary: s r fuel')
  case 0
  then show ?case by (cases s) (auto simp: drain.simps split: list.splits)
next
  case (Suc fuel)
  obtain m where m: "fuel' = Suc m" "fuel \<le> m" using Suc.prems(2) by (cases fuel') simp_all
  obtain b w where s: "s = (b, w)" by (cases s)
  from Suc.prems(1) show ?case
    using Suc.IH[OF _ m(2)]
    by (auto simp: s m(1) drain.simps[of "Suc fuel"] drain.simps[of "Suc m"]
        split: list.splits prod.splits option.splits)
qed

text \<open>An invariant of every dispatch is an invariant of the drain.\<close>

lemma run_handlers_invariant:
  assumes "run_handlers run hs e s = Some (s', exc)" "P s"
    and step: "\<And>h t t' x. h \<in> set hs \<Longrightarrow> P t \<Longrightarrow> run h e t = Some (t', x) \<Longrightarrow> P t'"
  shows "P s'"
proof -
  have "\<forall>h \<in> set hs. \<forall>t r. P t \<longrightarrow> run h e t = Some r \<longrightarrow> P (fst r)"
    using step by (metis prod.collapse)
  with assms(1,2) show ?thesis
  proof (induction hs arbitrary: s)
    case (Cons h hs)
    obtain r where h: "run h e s = Some r" using Cons.prems(1) by (auto split: option.splits)
    then have r: "P (fst r)" using Cons.prems(2,3) by (meson list.set_intros(1))
    have tl: "\<forall>h \<in> set hs. \<forall>t r. P t \<longrightarrow> run h e t = Some r \<longrightarrow> P (fst r)"
      using Cons.prems(3) by (meson list.set_intros(2))
    obtain t x where rp: "r = (t, x)" by (cases r)
    then show ?case using Cons.prems(1) Cons.IH[OF _ r tl] r h by (simp split: if_splits)
  qed simp
qed

lemma drain_invariant:
  assumes "drain fuel isinst run s = Some (s', exc, n)" and "P s"
    and step: "\<And>e t t' x. P t \<Longrightarrow> Q e \<Longrightarrow> dispatch isinst run e t = Some (t', x) \<Longrightarrow> P t'"
    and pop: "\<And>b w e q. P (b, w) \<Longrightarrow> bus_queue b = e # q \<Longrightarrow> Q e \<and> P (b\<lparr>bus_queue := q\<rparr>, w)"
  shows "P s'"
  using assms(1,2)
proof (induction fuel arbitrary: s n)
  case 0
  then show ?case by (cases s) (auto simp: drain.simps split: list.splits)
next
  case (Suc fuel)
  obtain b w where s: "s = (b, w)" by (cases s)
  show ?case
  proof (cases "bus_queue b")
    case Nil
    then show ?thesis using Suc.prems by (simp add: s drain.simps)
  next
    case (Cons e q)
    then obtain t x where d: "dispatch isinst run e (b\<lparr>bus_queue := q\<rparr>, w) = Some (t, x)"
      using Suc.prems(1) by (auto simp: s drain.simps split: option.splits)
    have "Q e" "P (b\<lparr>bus_queue := q\<rparr>, w)" using pop[OF _ Cons] Suc.prems(2) s by auto
    then have "P t" using step[OF _ _ d] by blast
    then show ?thesis using Suc.prems(1) Suc.IH[of t] Cons d
      by (auto simp: s drain.simps[of "Suc fuel"] split: option.splits)
  qed
qed

end
