(* ===== verification/Portfolios.thy ===== *)
theory Portfolios
  imports Positions Event_Bus
begin

text \<open>
  \<open>domain/portfolio.py\<close>: the portfolio turns a target weight into a share quantity, applies fills
  to its positions and its cash, and keeps dividend and share-award entitlements by action id.
  \<open>on_fill\<close> may raise after it has created the position, so it returns the portfolio beside the
  exception; the other operations raise before they change anything. The loop that takes lots
  off an order until it is affordable may not end (a lot that rounding swallows), so it is a
  \<open>partial_function (option)\<close> and \<open>None\<close> means that the call does not return. The random part of
  an intent id is an argument.
\<close>

type_synonym entitlement = "symbol \<times> decimal \<times> decimal \<times> decimal"

record portfolio =
  pf_cash :: decimal
  pf_initial_cash :: decimal
  pf_positions :: "(symbol, position) dict"
  pf_instruments :: "(symbol, instrument) dict"
  pf_equity_curve :: "(timestamp \<times> decimal) list"
  pf_cash_dividends :: "(string, entitlement) dict"
  pf_paid_cash_dividends :: "string set"
  pf_share_distributions :: "(string, entitlement) dict"
  pf_released_share_distributions :: "string set"

definition new_portfolio :: "decimal \<Rightarrow> portfolio" where
  "new_portfolio initial_cash =
     \<lparr>pf_cash = initial_cash, pf_initial_cash = initial_cash, pf_positions = [],
      pf_instruments = [], pf_equity_curve = [], pf_cash_dividends = [],
      pf_paid_cash_dividends = {}, pf_share_distributions = [],
      pf_released_share_distributions = {}\<rparr>"

definition add_instrument :: "instrument \<Rightarrow> portfolio \<Rightarrow> portfolio" where
  "add_instrument i pf = pf\<lparr>pf_instruments := dict_put (in_symbol i) i (pf_instruments pf)\<rparr>"

section \<open>Equity\<close>

definition dividend_receivable :: "portfolio \<Rightarrow> decimal" where
  "dividend_receivable pf =
     dsum (map (\<lambda>(_, (_, _, _, amount)). amount)
       (filter (\<lambda>(action_id, _). action_id \<notin> pf_paid_cash_dividends pf) (pf_cash_dividends pf)))"

definition dividend_income :: "portfolio \<Rightarrow> decimal" where
  "dividend_income pf = dsum (map (\<lambda>(_, (_, _, _, amount)). amount) (pf_cash_dividends pf))"

definition total_equity :: "portfolio \<Rightarrow> decimal" where
  "total_equity pf =
     dadd (dadd (pf_cash pf) (dsum (map po_market_value (dict_values (pf_positions pf)))))
       (dividend_receivable pf)"

definition equity_with_prices :: "(symbol, decimal) dict \<Rightarrow> portfolio \<Rightarrow> decimal" where
  "equity_with_prices prices pf =
     dadd (total_equity pf)
       (dsum (concat (map (\<lambda>(s, p). case dict_get prices s of
            None \<Rightarrow> []
          | Some price \<Rightarrow> [dsub (dmul (po_quantity p) price) (po_market_value p)]) (pf_positions pf))))"

definition record_equity :: "timestamp \<Rightarrow> (symbol, decimal) dict \<Rightarrow> portfolio \<Rightarrow> portfolio" where
  "record_equity t prices pf =
     (let point = (t, equity_with_prices prices pf); curve = pf_equity_curve pf in
      pf\<lparr>pf_equity_curve := (if curve \<noteq> [] \<and> fst (last curve) = t
         then butlast curve @ [point] else curve @ [point])\<rparr>)"

definition position_value :: "symbol \<Rightarrow> decimal \<Rightarrow> portfolio \<Rightarrow> decimal" where
  "position_value s price pf =
     (case dict_get (pf_positions pf) s of None \<Rightarrow> DZERO | Some p \<Rightarrow> dmul (po_quantity p) price)"

fun mark_prices :: "(symbol, decimal) dict \<Rightarrow> portfolio \<Rightarrow> portfolio" where
  "mark_prices [] pf = pf"
| "mark_prices ((s, price) # prices) pf =
     mark_prices prices
       (case dict_get (pf_positions pf) s of
          None \<Rightarrow> pf
        | Some p \<Rightarrow> pf\<lparr>pf_positions := dict_put s (mark_to_market price p) (pf_positions pf)\<rparr>)"

section \<open>Order sizing\<close>

text \<open>\<open>while quantity > ZERO and quantity * price > self.cash: quantity -= lot_size\<close>\<close>

partial_function (option) shrink_to_cash :: "decimal \<Rightarrow> decimal \<Rightarrow> decimal \<Rightarrow> decimal \<Rightarrow> decimal option" where
  "shrink_to_cash lot price cash quantity =
     (if dlt DZERO quantity \<and> dlt cash (dmul quantity price)
      then shrink_to_cash lot price cash (dsub quantity lot)
      else Some quantity)"

definition whole_lots :: "decimal \<Rightarrow> decimal \<Rightarrow> decimal \<Rightarrow> decimal res" where
  "whole_lots value_diff price lot =
     bind_res (ddiv value_diff price) (\<lambda>max_shares.
     bind_res (ddiv max_shares lot) (\<lambda>lots. Inr (dmul (dec_of_int (dtrunc lots)) lot)))"

definition calculate_buy_quantity :: "instrument \<Rightarrow> decimal \<Rightarrow> decimal \<Rightarrow> portfolio \<Rightarrow> decimal res option" where
  "calculate_buy_quantity i price value_diff pf =
     (case whole_lots value_diff price (in_lot_size i) of
        Inl e \<Rightarrow> Some (Inl e)
      | Inr quantity \<Rightarrow>
          if dlt (pf_cash pf) (dmul quantity price)
          then map_option Inr (shrink_to_cash (in_lot_size i) price (pf_cash pf) quantity)
          else Some (Inr quantity))"

definition calculate_sell_quantity ::
  "instrument \<Rightarrow> decimal \<Rightarrow> decimal \<Rightarrow> bool \<Rightarrow> portfolio \<Rightarrow> decimal res" where
  "calculate_sell_quantity i price value_diff liquidate pf =
     (case dict_get (pf_positions pf) (in_symbol i) of
        None \<Rightarrow> Inr DZERO
      | Some p \<Rightarrow>
          if liquidate \<and> in_type i = IT_STOCK then
            (let available = dmax DZERO (available_qty p) in
             if is_whole available then Inr available
             else Inl (ValueError ''portfolio_liquidation_fractional_unsupported''))
          else bind_res (whole_lots value_diff price (in_lot_size i)) (\<lambda>quantity.
            let available = available_qty p in
            if dlt available quantity
            then bind_res (dfloordiv available (in_lot_size i)) (\<lambda>n. Inr (dmul n (in_lot_size i)))
            else Inr quantity))"

definition order_intent ::
  "string \<Rightarrow> signal_event \<Rightarrow> order_side \<Rightarrow> decimal \<Rightarrow> decimal \<Rightarrow> decimal \<Rightarrow> decimal \<Rightarrow> portfolio
    \<Rightarrow> order_intent_event" where
  "order_intent uid ev side quantity reference_price current_weight value_diff pf =
     \<lparr>oi_timestamp = sg_timestamp ev, oi_intent_id = ''INTENT-'' @ uid,
      oi_strategy_id = sg_strategy_id ev, oi_symbol = sg_symbol ev, oi_side = side,
      oi_target_weight = sg_target_weight ev, oi_quantity = quantity,
      oi_reference_price = reference_price,
      oi_asset_class = map_option in_asset_class (dict_get (pf_instruments pf) (sg_symbol ev)),
      oi_source_signal_id = None, oi_reason = ''target_weight_rebalance'',
      oi_metadata = [(''current_weight'', JDec current_weight), (''value_diff'', JDec value_diff)]\<rparr>"

text \<open>\<open>on_signal\<close> gives the intent it publishes, if any.\<close>

definition on_signal :: "string \<Rightarrow> signal_event \<Rightarrow> portfolio \<Rightarrow> order_intent_event option res option" where
  "on_signal uid ev pf =
     (case dict_get (pf_instruments pf) (sg_symbol ev) of
        None \<Rightarrow> Some (Inr None)
      | Some i \<Rightarrow>
          let current_price = (case sg_price ev of None \<Rightarrow> DZERO | Some p \<Rightarrow> p) in
          if deq current_price DZERO then Some (Inr None)
          else
            let equity = total_equity pf;
                current_value = position_value (sg_symbol ev) current_price pf
            in case (if dlt DZERO equity then ddiv current_value equity else Inr DZERO) of
                Inl e \<Rightarrow> Some (Inl e)
              | Inr current_weight \<Rightarrow>
                  let target_weight = sg_target_weight ev;
                      weight_diff = dsub target_weight current_weight;
                      liquidate = (deq target_weight DZERO \<and> in_type i = IT_STOCK)
                  in if \<not> liquidate \<and> dlt (dabs weight_diff) (Decimal 1 (- 2)) then Some (Inr None)
                  else
                    let target_value = dmul equity target_weight;
                        value_diff = dsub target_value current_value;
                        publish_intent = (\<lambda>side quantity.
                          if dlt DZERO quantity
                          then Some (order_intent uid ev side quantity current_price current_weight value_diff pf)
                          else None)
                    in if dlt DZERO value_diff then
                         map_option (map_sum id (publish_intent BUY))
                           (calculate_buy_quantity i current_price value_diff pf)
                       else if dlt value_diff DZERO then
                         Some (map_sum id (publish_intent SELL)
                           (calculate_sell_quantity i current_price (dabs value_diff) liquidate pf))
                       else Some (Inr None))"

section \<open>Fills and settlement\<close>

definition fill_settlement :: "symbol \<Rightarrow> portfolio \<Rightarrow> settlement" where
  "fill_settlement s pf =
     (case dict_get (pf_instruments pf) s of Some i \<Rightarrow> in_settlement i | None \<Rightarrow> T_PLUS_1)"

definition on_fill :: "fill_event \<Rightarrow> portfolio \<Rightarrow> portfolio \<times> py_exc option" where
  "on_fill ev pf =
     (let s = fl_symbol ev;
          pf1 = (case dict_get (pf_positions pf) s of
            None \<Rightarrow> pf\<lparr>pf_positions := dict_put s (new_position s) (pf_positions pf)\<rparr> | Some _ \<Rightarrow> pf);
          pos = dict_get_default (pf_positions pf1) s (new_position s)
      in case bind_res (total_trade_fee (fl_commission ev) (fl_fee_breakdown ev)) (\<lambda>total_fee.
            bind_res (update_on_fill (order_side_value (fl_side ev)) (fl_quantity ev) (fl_price ev)
              total_fee (fill_settlement s pf1) pos) (\<lambda>pos'. Inr (total_fee, pos'))) of
          Inl e \<Rightarrow> (pf1, Some e)
        | Inr (total_fee, pos') \<Rightarrow>
            (pf1\<lparr>pf_positions := dict_put s pos' (pf_positions pf1),
               pf_cash := (let gross = dmul (fl_price ev) (fl_quantity ev) in
                 if fl_side ev = BUY then dsub (pf_cash pf1) (dadd gross total_fee)
                 else dadd (pf_cash pf1) (dsub gross total_fee))\<rparr>, None))"

definition settle_portfolio :: "portfolio \<Rightarrow> portfolio" where
  "settle_portfolio pf =
     pf\<lparr>pf_positions := map (\<lambda>(s, p). (s, advance_settlement_day p)) (pf_positions pf)\<rparr>"

section \<open>Entitlements\<close>

definition same_facts :: "entitlement \<Rightarrow> symbol \<Rightarrow> decimal \<Rightarrow> decimal \<Rightarrow> bool" where
  "same_facts previous s quantity rate =
     (case previous of (s', q', r', _) \<Rightarrow> s' = s \<and> deq q' quantity \<and> deq r' rate)"

definition accrue_cash_dividend ::
  "string \<Rightarrow> symbol \<Rightarrow> pynum \<Rightarrow> pynum \<Rightarrow> portfolio \<Rightarrow> (decimal \<times> portfolio) res" where
  "accrue_cash_dividend action_id s eligible_quantity cash_per_share pf =
     (if str_strip action_id = [] \<or> str_strip s = []
      then Inl (ValueError ''portfolio_cash_dividend_identity_invalid'')
      else case nonneg_decimal eligible_quantity of
        None \<Rightarrow> Inl (ValueError ''portfolio_cash_dividend_quantity_invalid'')
      | Some quantity \<Rightarrow>
        (case nonneg_decimal cash_per_share of
          None \<Rightarrow> Inl (ValueError ''portfolio_cash_dividend_rate_invalid'')
        | Some rate \<Rightarrow>
          (case dict_get (pf_cash_dividends pf) action_id of
             Some previous \<Rightarrow>
               if same_facts previous s quantity rate then Inr (snd (snd (snd previous)), pf)
               else Inl (ValueError ''portfolio_cash_dividend_conflict'')
           | None \<Rightarrow>
               let amount = exact_mul quantity rate in
               Inr (amount, pf\<lparr>pf_cash_dividends :=
                 dict_put action_id (s, quantity, rate, amount) (pf_cash_dividends pf)\<rparr>))))"

definition pay_cash_dividend :: "string \<Rightarrow> portfolio \<Rightarrow> (decimal \<times> portfolio) res" where
  "pay_cash_dividend action_id pf =
     (case dict_get (pf_cash_dividends pf) action_id of
        None \<Rightarrow> Inl (ValueError ''portfolio_cash_dividend_unknown'')
      | Some (_, _, _, amount) \<Rightarrow>
          if action_id \<in> pf_paid_cash_dividends pf then Inr (DZERO, pf)
          else Inr (amount, pf\<lparr>pf_cash := dadd (pf_cash pf) amount,
            pf_paid_cash_dividends := insert action_id (pf_paid_cash_dividends pf)\<rparr>))"

definition accrue_share_award ::
  "string \<Rightarrow> symbol \<Rightarrow> pynum \<Rightarrow> pynum \<Rightarrow> portfolio \<Rightarrow> (decimal \<times> portfolio) res" where
  "accrue_share_award action_id s eligible_quantity shares_per_share pf =
     (if str_strip action_id = [] \<or> str_strip s = []
      then Inl (ValueError ''portfolio_share_distribution_identity_invalid'')
      else bind_res (share_distribution_quantity eligible_quantity shares_per_share) (\<lambda>quantity.
        case (eligible_quantity, shares_per_share) of
          (Num eligible, Num rate) \<Rightarrow>
            (case dict_get (pf_share_distributions pf) action_id of
               Some previous \<Rightarrow>
                 if same_facts previous s eligible rate then Inr (snd (snd (snd previous)), pf)
                 else Inl (ValueError ''portfolio_share_distribution_conflict'')
             | None \<Rightarrow>
                 bind_res
                   (if dlt DZERO quantity
                    then bind_res (accrue_share_distribution quantity
                           (dict_get_default (pf_positions pf) s (new_position s)))
                         (\<lambda>p. Inr (dict_put s p (pf_positions pf)))
                    else Inr (pf_positions pf))
                   (\<lambda>positions. Inr (quantity, pf\<lparr>pf_positions := positions,
                      pf_share_distributions :=
                        dict_put action_id (s, eligible, rate, quantity) (pf_share_distributions pf)\<rparr>)))
        | _ \<Rightarrow> Inl (ValueError ''portfolio_share_distribution_quantity_invalid'')))"

definition release_share_award :: "string \<Rightarrow> portfolio \<Rightarrow> (decimal \<times> portfolio) res" where
  "release_share_award action_id pf =
     (case dict_get (pf_share_distributions pf) action_id of
        None \<Rightarrow> Inl (ValueError ''portfolio_share_distribution_unknown'')
      | Some (s, _, _, quantity) \<Rightarrow>
          if action_id \<in> pf_released_share_distributions pf then Inr (DZERO, pf)
          else bind_res
            (if dlt DZERO quantity
             then (case dict_get (pf_positions pf) s of
                 None \<Rightarrow> Inl (KeyError s)
               | Some p \<Rightarrow> bind_res (release_share_distribution quantity p)
                   (\<lambda>p'. Inr (dict_put s p' (pf_positions pf))))
             else Inr (pf_positions pf))
            (\<lambda>positions. Inr (quantity, pf\<lparr>pf_positions := positions,
               pf_released_share_distributions := insert action_id (pf_released_share_distributions pf)\<rparr>)))"

definition deposit :: "decimal \<Rightarrow> portfolio \<Rightarrow> portfolio res" where
  "deposit amount pf =
     (if dle amount DZERO then Inl (ValueError ''deposit_amount_must_be_positive'')
      else Inr (pf\<lparr>pf_cash := dadd (pf_cash pf) amount\<rparr>))"

definition withdraw :: "decimal \<Rightarrow> portfolio \<Rightarrow> portfolio res" where
  "withdraw amount pf =
     (if dle amount DZERO then Inl (ValueError ''withdraw_amount_must_be_positive'')
      else if dlt (pf_cash pf) amount then Inl (ValueError ''insufficient_cash'')
      else Inr (pf\<lparr>pf_cash := dsub (pf_cash pf) amount\<rparr>))"

section \<open>Sizing stays within cash and holdings\<close>

lemma shrink_exit:
  "shrink_to_cash lot price cash q = Some r \<Longrightarrow> 0 < val r \<Longrightarrow> val (dmul r price) \<le> val cash"
proof -
  assume "shrink_to_cash lot price cash q = Some r"
  then have "0 < val r \<longrightarrow> val (dmul r price) \<le> val cash"
    by (rule shrink_to_cash.raw_induct
        [where P = "\<lambda>lot price cash q r. 0 < val r \<longrightarrow> val (dmul r price) \<le> val cash", rotated])
      (auto simp: val_simps not_less split: if_splits)
  then show "0 < val r \<Longrightarrow> val (dmul r price) \<le> val cash" by blast
qed

text \<open>On a grid, the loop ends with the greatest affordable number of lots.\<close>

lemma shrink_returns:
  assumes lot: "grid k lot" "0 < val lot" and q: "val q = of_nat n * val lot" "grid k q"
  shows "\<exists>r m. shrink_to_cash lot price cash q = Some r \<and> m \<le> n \<and> val r = of_nat m * val lot \<and> grid k r \<and>
    (m = 0 \<or> cr (of_nat m * val lot * val price) \<le> val cash) \<and>
    (\<forall>j. m < j \<longrightarrow> j \<le> n \<longrightarrow> val cash < cr (of_nat j * val lot * val price))"
  using q
proof (induction n arbitrary: q)
  case 0
  then have "shrink_to_cash lot price cash q = Some q"
    by (simp add: shrink_to_cash.simps[of lot price cash q] val_simps)
  with 0 show ?case by (intro exI[of _ q] exI[of _ 0]) simp
next
  case (Suc n)
  have q0: "0 < val q" using Suc.prems(1) lot(2) by simp
  show ?case
  proof (cases "val cash < cr (val q * val price)")
    case True
    have unfold: "shrink_to_cash lot price cash q = shrink_to_cash lot price cash (dsub q lot)"
      using True q0 by (simp add: shrink_to_cash.simps[of lot price cash q] val_simps)
    have "val q - val lot = of_nat n * val lot" using Suc.prems(1) by (simp add: algebra_simps)
    moreover have g: "gridv k (val q - val lot)"
      using Suc.prems lot by (intro gridv_diff) (simp_all add: algebra_simps)
    ultimately have "val (dsub q lot) = of_nat n * val lot" "grid k (dsub q lot)" by (simp_all add: val_simps)
    from Suc.IH[OF this] obtain r m where r: "shrink_to_cash lot price cash (dsub q lot) = Some r" "m \<le> n"
      "val r = of_nat m * val lot" "grid k r" "m = 0 \<or> cr (of_nat m * val lot * val price) \<le> val cash"
      "\<forall>j. m < j \<longrightarrow> j \<le> n \<longrightarrow> val cash < cr (of_nat j * val lot * val price)" by blast
    moreover have "\<forall>j. m < j \<longrightarrow> j \<le> Suc n \<longrightarrow> val cash < cr (of_nat j * val lot * val price)"
      using r(6) True Suc.prems(1) by (metis le_SucE)
    ultimately show ?thesis unfolding unfold by (intro exI[of _ r] exI[of _ m]) simp
  next
    case False
    then have "shrink_to_cash lot price cash q = Some q"
      by (simp add: shrink_to_cash.simps[of lot price cash q] val_simps)
    with False Suc.prems show ?thesis by (intro exI[of _ q] exI[of _ "Suc n"]) (simp add: not_less)
  qed
qed

lemma buy_quantity_affordable:
  "calculate_buy_quantity i price vd pf = Some (Inr q) \<Longrightarrow> 0 < val q \<Longrightarrow> val (dmul q price) \<le> val (pf_cash pf)"
  by (auto simp: calculate_buy_quantity_def val_simps not_less split: sum.splits if_splits
      dest: shrink_exit[unfolded val_simps])

lemma sell_quantity_available:
  assumes "calculate_sell_quantity i price vd liq pf = Inr q" "0 < val q"
    and "dict_get (pf_positions pf) (in_symbol i) = Some p" "0 < val (in_lot_size i)"
  shows "val q \<le> val (available_qty p)"
proof (cases "dlt (available_qty p) q")
  case True
  have fits: "fits 28 (val (available_qty p))" by (simp add: available_qty_def val_simps rnd_fits)
  show ?thesis
  proof (cases "liq \<and> in_type i = IT_STOCK")
    case True
    with assms show ?thesis
      by (auto simp: calculate_sell_quantity_def Let_def val_simps max_def split: if_splits)
  next
    case False
    with assms True obtain n where n: "dfloordiv (available_qty p) (in_lot_size i) = Inr n"
      and q: "q = dmul n (in_lot_size i)"
      by (auto simp: calculate_sell_quantity_def Let_def bind_res_eq_Inr val_simps split: if_splits)
    show ?thesis
    proof (cases "0 \<le> val (available_qty p)")
      case True
      from dfloordiv_Inr[OF n True assms(4)]
      have "val n = of_int \<lfloor>val (available_qty p) / val (in_lot_size i)\<rfloor>" by simp
      then have "val n * val (in_lot_size i) \<le> val (available_qty p)"
        using assms(4) by (simp flip: pos_le_divide_eq)
      then show ?thesis using fits by (simp add: q val_simps rnd_le_exact)
    next
      case neg: False
      have "val n \<le> 0"
      proof -
        obtain x y e where al: "aligned (available_qty p) (in_lot_size i) = (x, y, e)"
          by (cases "aligned (available_qty p) (in_lot_size i)")
        have "x < 0" "0 < y" using neg assms(4) aligned_val[OF al]
          by (auto simp: zero_le_mult_iff zero_less_mult_iff not_le)
        then show ?thesis using n
          by (auto simp: dfloordiv_def al Let_def pos_imp_zdiv_nonneg_iff split: if_splits)
      qed
      then have "val q \<le> 0" using assms(4) by (auto simp: q val_simps mult_nonpos_nonneg intro!: rnd_nonpos)
      with assms(2) show ?thesis by simp
    qed
  qed
qed (simp add: val_simps)

section \<open>The portfolio invariant\<close>

definition portfolio_inv :: "int \<Rightarrow> portfolio \<Rightarrow> bool" where
  "portfolio_inv k pf =
    (distinct (dict_keys (pf_positions pf)) \<and>
     (\<forall>(s, p) \<in> set (pf_positions pf). po_symbol p = s \<and> position_inv k p) \<and>
     (\<forall>(s, i) \<in> set (pf_instruments pf). in_symbol i = s \<and> dlt DZERO (in_lot_size i)))"

definition position_of :: "portfolio \<Rightarrow> symbol \<Rightarrow> position" where
  "position_of pf s = dict_get_default (pf_positions pf) s (new_position s)"

lemma portfolio_inv_new: "portfolio_inv k (new_portfolio c)"
  by (simp add: portfolio_inv_def new_portfolio_def)

lemma portfolio_inv_position:
  assumes "portfolio_inv k pf"
  shows "position_inv k (position_of pf s) \<and> po_symbol (position_of pf s) = s"
proof (cases "dict_get (pf_positions pf) s")
  case None
  then have "position_of pf s = new_position s" by (simp add: position_of_def dict_get_default_def)
  then show ?thesis by simp (simp add: new_position_def)
next
  case (Some p)
  then have "(s, p) \<in> set (pf_positions pf)" by (rule map_of_SomeD)
  with assms Some show ?thesis by (auto simp: position_of_def dict_get_default_def portfolio_inv_def)
qed

lemma portfolio_inv_instrument:
  "portfolio_inv k pf \<Longrightarrow> dict_get (pf_instruments pf) s = Some i \<Longrightarrow> in_symbol i = s \<and> 0 < val (in_lot_size i)"
  using map_of_SomeD[of "pf_instruments pf" s i] by (auto simp: portfolio_inv_def val_simps)

lemma portfolio_inv_put:
  assumes "portfolio_inv k pf" "position_inv k p" "po_symbol p = s"
    and "pf_positions pf' = dict_put s p (pf_positions pf)" "pf_instruments pf' = pf_instruments pf"
  shows "portfolio_inv k pf'"
proof -
  let ?ok = "\<lambda>x. po_symbol (snd x) = fst x \<and> position_inv k (snd x)"
  have "\<forall>x \<in> set (pf_positions pf). ?ok x" using assms(1) by (auto simp: portfolio_inv_def)
  moreover have "?ok (s, p)" using assms(2,3) by simp
  ultimately have "\<forall>x \<in> set (dict_put s p (pf_positions pf)). ?ok x"
    using set_dict_put_subset[of s p "pf_positions pf"] by blast
  then show ?thesis using assms(1,4,5) by (simp add: portfolio_inv_def distinct_dict_put case_prod_beta)
qed

lemma portfolio_inv_cong:
  assumes "portfolio_inv k pf" "pf_positions pf' = pf_positions pf" "pf_instruments pf' = pf_instruments pf"
  shows "portfolio_inv k pf'"
  using assms by (simp add: portfolio_inv_def)

definition fill_admissible :: "int \<Rightarrow> portfolio \<Rightarrow> fill_event \<Rightarrow> bool" where
  "fill_admissible k pf ev =
    (dle DZERO (fl_price ev) \<and>
     (if fl_side ev = BUY then room k (position_of pf (fl_symbol ev)) (fl_quantity ev)
      else grid k (fl_quantity ev) \<and> dle DZERO (fl_quantity ev) \<and>
        dle (fl_quantity ev) (available_qty (position_of pf (fl_symbol ev)))))"

lemma update_on_fill_symbol: "update_on_fill side q pr fee st p = Inr p' \<Longrightarrow> po_symbol p' = po_symbol p"
  by (auto simp: update_on_fill_def handle_buy_def handle_sell_def Let_def bind_res_eq_Inr split: if_splits)

lemma on_fill_cases:
  obtains (raised) pf1 e where "on_fill ev pf = (pf1, Some e)"
      "pf_positions pf1 = dict_put (fl_symbol ev) (position_of pf (fl_symbol ev)) (pf_positions pf)"
      "pf1 = pf\<lparr>pf_positions := pf_positions pf1\<rparr>"
  | (filled) fee p' where "total_trade_fee (fl_commission ev) (fl_fee_breakdown ev) = Inr fee"
      "update_on_fill (order_side_value (fl_side ev)) (fl_quantity ev) (fl_price ev) fee
         (fill_settlement (fl_symbol ev) pf) (position_of pf (fl_symbol ev)) = Inr p'"
      "on_fill ev pf = (pf\<lparr>pf_positions := dict_put (fl_symbol ev) p' (pf_positions pf),
         pf_cash := (let gross = dmul (fl_price ev) (fl_quantity ev) in
           if fl_side ev = BUY then dsub (pf_cash pf) (dadd gross fee)
           else dadd (pf_cash pf) (dsub gross fee))\<rparr>, None)"
proof -
  let ?s = "fl_symbol ev" and ?d = "pf_positions pf"
  have same: "dict_put k v d = d" if "dict_get d k = Some v" for k :: symbol and v :: position and d
    using that by (induction d) (auto split: if_splits)
  have twice: "dict_put k v (dict_put k w d) = dict_put k v d" for k :: symbol and v w :: position and d
    by (induction d) auto
  define pf1 where "pf1 = (case dict_get ?d ?s of
      None \<Rightarrow> pf\<lparr>pf_positions := dict_put ?s (new_position ?s) ?d\<rparr> | Some _ \<Rightarrow> pf)"
  have pos1: "pf_positions pf1 = dict_put ?s (position_of pf ?s) ?d"
    and get1: "dict_get_default (pf_positions pf1) ?s (new_position ?s) = position_of pf ?s"
    and pf1: "pf1 = pf\<lparr>pf_positions := pf_positions pf1\<rparr>"
    and put1: "dict_put ?s p' (pf_positions pf1) = dict_put ?s p' ?d" for p'
    by (auto simp: pf1_def position_of_def dict_get_default_def same twice split: option.splits)
  have inst: "fill_settlement ?s pf1 = fill_settlement ?s pf" "pf_cash pf1 = pf_cash pf"
    using pf1 by (auto simp: pf1_def fill_settlement_def split: option.splits)
  show thesis
  proof (cases "bind_res (total_trade_fee (fl_commission ev) (fl_fee_breakdown ev)) (\<lambda>total_fee.
      bind_res (update_on_fill (order_side_value (fl_side ev)) (fl_quantity ev) (fl_price ev)
        total_fee (fill_settlement ?s pf) (position_of pf ?s)) (\<lambda>pos'. Inr (total_fee, pos')))")
    case (Inl e)
    then have "on_fill ev pf = (pf1, Some e)"
      by (simp add: on_fill_def Let_def pf1_def[symmetric] get1 inst)
    then show thesis using raised pos1 pf1 by blast
  next
    case (Inr r)
    obtain fee p' where r: "r = (fee, p')" by (cases r)
    have "pf1\<lparr>pf_positions := dict_put ?s p' (pf_positions pf1), pf_cash := c\<rparr> =
        pf\<lparr>pf_positions := dict_put ?s p' ?d, pf_cash := c\<rparr>" for c
      unfolding put1 by (subst pf1) simp
    then have "on_fill ev pf = (pf\<lparr>pf_positions := dict_put ?s p' ?d,
         pf_cash := (let gross = dmul (fl_price ev) (fl_quantity ev) in
           if fl_side ev = BUY then dsub (pf_cash pf) (dadd gross fee)
           else dadd (pf_cash pf) (dsub gross fee))\<rparr>, None)"
      using Inr by (simp add: on_fill_def pf1_def[symmetric] get1 inst r Let_def)
    with Inr r show thesis by (intro filled[of fee p']) (auto simp: bind_res_eq_Inr)
  qed
qed

lemma on_fill_inv:
  assumes "portfolio_inv k pf" "fill_admissible k pf ev"
  shows "portfolio_inv k (fst (on_fill ev pf))"
proof (cases rule: on_fill_cases[of ev pf])
  case (raised pf1 e)
  then show ?thesis using portfolio_inv_put[OF assms(1), of "position_of pf (fl_symbol ev)" "fl_symbol ev" pf1]
      portfolio_inv_position[OF assms(1), of "fl_symbol ev"] by simp
next
  case (filled fee p')
  let ?p = "position_of pf (fl_symbol ev)"
  have p: "position_inv k ?p" "po_symbol ?p = fl_symbol ev" using portfolio_inv_position[OF assms(1)] by auto
  have "0 \<le> val fee" using fee_nonneg filled(1) .
  then have "position_inv k p'"
    using filled(2) p(1) assms(2) handle_buy_inv[of k ?p "fl_quantity ev" "fl_price ev" fee _ p']
      handle_sell_inv[of k ?p "fl_quantity ev" "fl_price ev" fee]
    by (cases "fl_side ev") (auto simp: fill_admissible_def update_on_fill_def val_simps)
  moreover have "po_symbol p' = fl_symbol ev" using update_on_fill_symbol[OF filled(2)] p(2) by simp
  ultimately show ?thesis using filled(3) portfolio_inv_put[OF assms(1), of p' "fl_symbol ev"] by simp
qed

lemma settle_portfolio_inv: "portfolio_inv k pf \<Longrightarrow> portfolio_inv k (settle_portfolio pf)"
  by (auto simp: portfolio_inv_def settle_portfolio_def comp_def case_prod_beta settlement_inv
      advance_settlement_day_def position_inv_def val_simps)

section \<open>Published intents\<close>

lemma on_signal_Some:
  assumes "on_signal uid ev pf = Some (Inr (Some oi))"
  obtains i price current_weight value_diff where
    "dict_get (pf_instruments pf) (sg_symbol ev) = Some i" "sg_price ev = Some price" "val price \<noteq> 0"
    "value_diff = dsub (dmul (total_equity pf) (sg_target_weight ev)) (position_value (sg_symbol ev) price pf)"
    "oi = order_intent uid ev (oi_side oi) (oi_quantity oi) price current_weight value_diff pf"
    "0 < val (oi_quantity oi)"
    "oi_side oi = BUY \<and> 0 < val value_diff \<and>
        calculate_buy_quantity i price value_diff pf = Some (Inr (oi_quantity oi)) \<or>
      oi_side oi = SELL \<and> val value_diff < 0 \<and>
        calculate_sell_quantity i price (dabs value_diff)
          (deq (sg_target_weight ev) DZERO \<and> in_type i = IT_STOCK) pf = Inr (oi_quantity oi)"
proof -
  obtain i where i: "dict_get (pf_instruments pf) (sg_symbol ev) = Some i"
    using assms by (auto simp: on_signal_def split: option.splits)
  obtain price where p: "sg_price ev = Some price" "val price \<noteq> 0"
    using assms i by (auto simp: on_signal_def val_simps split: option.splits if_splits)
  let ?vd = "dsub (dmul (total_equity pf) (sg_target_weight ev)) (position_value (sg_symbol ev) price pf)"
  obtain cw where cw: "(if dlt DZERO (total_equity pf)
      then ddiv (position_value (sg_symbol ev) price pf) (total_equity pf) else Inr DZERO) = Inr cw"
    using assms i p unfolding on_signal_def Let_def by (auto simp: val_simps split: sum.splits if_splits)
  have side: "(\<exists>q. calculate_buy_quantity i price ?vd pf = Some (Inr q) \<and> 0 < val ?vd \<and> 0 < val q \<and>
        oi = order_intent uid ev BUY q price cw ?vd pf) \<or>
     (\<exists>q. calculate_sell_quantity i price (dabs ?vd) (deq (sg_target_weight ev) DZERO \<and> in_type i = IT_STOCK) pf = Inr q \<and>
        val ?vd < 0 \<and> 0 < val q \<and> oi = order_intent uid ev SELL q price cw ?vd pf)"
    using assms p(2) unfolding on_signal_def Let_def i p(1) option.case cw sum.case
    by (auto simp: deq_val dlt_val map_sum_eq_Inr split: if_splits)
  have sel: "oi_side (order_intent uid ev sd q price cw ?vd pf) = sd"
    "oi_quantity (order_intent uid ev sd q price cw ?vd pf) = q" for sd q
    by (simp_all add: order_intent_def)
  show thesis
    using side by (intro that[OF i p refl, of cw]) (auto simp: sel)
qed

lemma on_signal_executable:
  assumes "portfolio_inv k pf" "on_signal uid ev pf = Some (Inr (Some oi))"
  shows "0 < val (oi_quantity oi) \<and> oi_symbol oi = sg_symbol ev \<and>
    (case oi_side oi of
       BUY \<Rightarrow> val (dmul (oi_quantity oi) (oi_reference_price oi)) \<le> val (pf_cash pf)
     | SELL \<Rightarrow> val (oi_quantity oi) \<le> val (available_qty (position_of pf (oi_symbol oi))))"
proof (cases rule: on_signal_Some[OF assms(2)])
  case (1 i price cw vd)
  have sym: "oi_symbol oi = sg_symbol ev" and ref: "oi_reference_price oi = price"
    by (subst 1(5), simp add: order_intent_def)+
  note i = portfolio_inv_instrument[OF assms(1) 1(1)]
  from 1(7) show ?thesis
  proof
    assume "oi_side oi = BUY \<and> 0 < val vd \<and> calculate_buy_quantity i price vd pf = Some (Inr (oi_quantity oi))"
    then show ?thesis using 1(6) sym ref buy_quantity_affordable[of i price vd pf] by simp
  next
    assume s: "oi_side oi = SELL \<and> val vd < 0 \<and> calculate_sell_quantity i price (dabs vd)
      (deq (sg_target_weight ev) DZERO \<and> in_type i = IT_STOCK) pf = Inr (oi_quantity oi)"
    then obtain p where p: "dict_get (pf_positions pf) (in_symbol i) = Some p"
      using 1(6) val_DZERO[of 0] by (cases "dict_get (pf_positions pf) (in_symbol i)")
        (auto simp: calculate_sell_quantity_def)
    have "val (oi_quantity oi) \<le> val (available_qty p)"
      by (rule sell_quantity_available[OF _ 1(6) p]) (use s i in auto)
    then show ?thesis using s 1(6) i sym p by (simp add: position_of_def dict_get_default_def)
  qed
qed

section \<open>Entitlements are recognised and paid once\<close>

definition receivables :: "portfolio \<Rightarrow> decimal list" where
  "receivables pf = map (\<lambda>(_, (_, _, _, amount)). amount)
     (filter (\<lambda>(action_id, _). action_id \<notin> pf_paid_cash_dividends pf) (pf_cash_dividends pf))"

text \<open>The books in whole cents (or any unit), within the precision.\<close>

definition books_ok :: "int \<Rightarrow> portfolio \<Rightarrow> bool" where
  "books_ok k pf =
    (distinct (dict_keys (pf_cash_dividends pf)) \<and> grid k (pf_cash pf) \<and> dle DZERO (pf_cash pf) \<and>
     list_all (\<lambda>p. grid k (po_market_value p) \<and> dle DZERO (po_market_value p)) (dict_values (pf_positions pf)) \<and>
     list_all (\<lambda>a. grid k a \<and> dle DZERO a) (receivables pf) \<and>
     val (pf_cash pf) + sum_list (map (val \<circ> po_market_value) (dict_values (pf_positions pf))) +
       sum_list (map val (receivables pf)) \<le> 10 ^ 28 * 10 powi k)"

lemma books_equity:
  assumes "books_ok k pf"
  shows "val (total_equity pf) = val (pf_cash pf) +
    sum_list (map (val \<circ> po_market_value) (dict_values (pf_positions pf))) + sum_list (map val (receivables pf))"
proof -
  let ?M = "map po_market_value (dict_values (pf_positions pf))"
  have b: "grid k (pf_cash pf)" "0 \<le> val (pf_cash pf)" "\<forall>x \<in> set ?M. grid k x \<and> 0 \<le> val x"
    "\<forall>x \<in> set (receivables pf). grid k x \<and> 0 \<le> val x"
    "val (pf_cash pf) + sum_list (map val ?M) + sum_list (map val (receivables pf)) \<le> 10 ^ 28 * 10 powi k"
    using assms by (auto simp: books_ok_def val_simps list_all_iff comp_def)
  have nn: "0 \<le> sum_list (map val ?M)" "0 \<le> sum_list (map val (receivables pf))"
    using b(3,4) by (auto intro!: sum_list_nonneg)
  have M: "val (dsum ?M) = sum_list (map val ?M)" "gridv k (sum_list (map val ?M))"
    using dsum_grid[OF b(3)] b(2,5) nn by auto
  have R: "val (dsum (receivables pf)) = sum_list (map val (receivables pf))"
    "gridv k (sum_list (map val (receivables pf)))"
    using dsum_grid[OF b(4)] b(2,5) nn by auto
  have c: "gridv k (val (pf_cash pf) + sum_list (map val ?M))"
    by (rule gridv_add[OF b(1) M(2)]) (use b nn in auto)
  have "gridv k (val (pf_cash pf) + sum_list (map val ?M) + sum_list (map val (receivables pf)))"
    by (rule gridv_add[OF c R(2)]) (use b nn in auto)
  moreover have "dividend_receivable pf = dsum (receivables pf)"
    by (simp add: dividend_receivable_def receivables_def)
  ultimately have "val (total_equity pf) =
      val (pf_cash pf) + sum_list (map val ?M) + sum_list (map val (receivables pf))"
    unfolding total_equity_def val_dadd M(1) using c R(1) by (simp only: gridv_rnd)
  then show ?thesis by (simp add: comp_def)
qed

lemma filter_insert_paid:
  fixes f :: "_ \<Rightarrow> rat"
  assumes "distinct (dict_keys d)" "dict_get d a = Some e" "a \<notin> P"
  shows "sum_list (map f (filter (\<lambda>(i, _). i \<notin> P) d)) =
    f (a, e) + sum_list (map f (filter (\<lambda>(i, _). i \<notin> insert a P) d))"
  using assms
proof (induction d)
  case (Cons x d)
  obtain i v where x: "x = (i, v)" by (cases x)
  show ?case
  proof (cases "i = a")
    case True
    then have "filter (\<lambda>(i, _). i \<notin> insert a P) d = filter (\<lambda>(i, _). i \<notin> P) d"
      using Cons.prems(1) x by (intro filter_cong) force+
    then show ?thesis using True Cons.prems x by simp
  next
    case False
    then show ?thesis using Cons x by simp
  qed
qed simp

lemma pay_books:
  assumes "books_ok k pf" "pay_cash_dividend a pf = Inr (amount, pf')"
  shows "books_ok k pf' \<and> val (total_equity pf') = val (total_equity pf) \<and>
    val (pf_cash pf') = val (pf_cash pf) + val amount"
proof -
  obtain s q r am where e: "dict_get (pf_cash_dividends pf) a = Some (s, q, r, am)"
    using assms(2) by (auto simp: pay_cash_dividend_def split: option.splits)
  show ?thesis
  proof (cases "a \<in> pf_paid_cash_dividends pf")
    case True
    then have "amount = DZERO" "pf' = pf" using assms(2) e by (auto simp: pay_cash_dividend_def)
    then show ?thesis using assms(1) by simp
  next
    case False
    then have pf': "pf' = pf\<lparr>pf_cash := dadd (pf_cash pf) am,
        pf_paid_cash_dividends := insert a (pf_paid_cash_dividends pf)\<rparr>" and am: "amount = am"
      using assms(2) e by (auto simp: pay_cash_dividend_def)
    let ?sum = "\<lambda>pf. sum_list (map val (receivables pf))"
    have d: "distinct (dict_keys (pf_cash_dividends pf))" using assms(1) by (simp add: books_ok_def)
    have split: "?sum pf = val am + ?sum pf'"
      using filter_insert_paid[OF d e False, of "\<lambda>x. val (snd (snd (snd (snd x))))"]
      by (simp add: receivables_def pf' comp_def case_prod_beta)
    have sub: "set (receivables pf') \<subseteq> set (receivables pf)" by (force simp: receivables_def pf')
    have "(a, s, q, r, am) \<in> set (pf_cash_dividends pf)" using e by (rule map_of_SomeD)
    then have "am \<in> set (receivables pf)" using False by (force simp: receivables_def)
    then have amg: "grid k am" "0 \<le> val am" using assms(1) by (auto simp: books_ok_def list_all_iff val_simps)
    have "\<forall>x \<in> set (receivables pf'). 0 \<le> val x"
      using assms(1) sub by (auto simp: books_ok_def list_all_iff val_simps)
    then have nn: "0 \<le> ?sum pf'" "0 \<le> sum_list (map (val \<circ> po_market_value) (dict_values (pf_positions pf)))"
      using assms(1) sub by (auto simp: books_ok_def list_all_iff val_simps intro!: sum_list_nonneg)
    have g: "gridv k (val (pf_cash pf) + val am)"
      using assms(1) amg split nn by (intro gridv_add) (auto simp: books_ok_def val_simps)
    have cash: "val (pf_cash pf') = val (pf_cash pf) + val am" using g by (simp add: pf' val_simps)
    have "books_ok k pf'"
      using assms(1) g amg split sub cash unfolding books_ok_def
      by (auto simp: pf' list_all_iff val_simps)
    then show ?thesis using books_equity[OF assms(1)] books_equity[of k pf'] split cash am
      by (simp add: pf')
  qed
qed

lemma same_facts_self: "same_facts (s, q, r, x) s q r"
  by (simp add: same_facts_def val_simps)

lemma accrue_cash_dividend_replay:
  assumes "accrue_cash_dividend a s q r pf = Inr (amount, pf')"
  shows "accrue_cash_dividend a s q r pf' = Inr (amount, pf')"
proof -
  from assms obtain q' r' where n: "nonneg_decimal q = Some q'" "nonneg_decimal r = Some r'"
    and ok: "str_strip a \<noteq> []" "str_strip s \<noteq> []"
    by (auto simp: accrue_cash_dividend_def split: option.splits if_splits)
  show ?thesis
  proof (cases "dict_get (pf_cash_dividends pf) a")
    case None
    with assms n ok have "amount = exact_mul q' r'"
      "pf' = pf\<lparr>pf_cash_dividends := dict_put a (s, q', r', exact_mul q' r') (pf_cash_dividends pf)\<rparr>"
      by (auto simp: accrue_cash_dividend_def Let_def)
    with n ok show ?thesis by (simp add: accrue_cash_dividend_def same_facts_self)
  next
    case (Some previous)
    with assms n ok have "pf' = pf" by (auto simp: accrue_cash_dividend_def split: if_splits)
    with assms show ?thesis by simp
  qed
qed

section \<open>Properties\<close>

text \<open>A funded portfolio with one listed stock, for the witnesses.\<close>

definition sample_portfolio :: "decimal \<Rightarrow> portfolio" where
  "sample_portfolio cash = add_instrument (make_stock ''600000'' ''sample'' None) (new_portfolio cash)"

definition sample_signal :: "decimal \<Rightarrow> signal_event" where
  "sample_signal weight = \<lparr>sg_timestamp = 0, sg_strategy_id = ''s'', sg_symbol = ''600000'',
     sg_target_weight = weight, sg_price = Some (Decimal 10 0)\<rparr>"

text \<open>C4: an intent published for a signal is executable as published: its quantity is positive,
  a purchase costs no more than the cash of the portfolio at the reference price, and a sale is
  covered by the available (settled and listed) shares of the position.\<close>

theorem signal_intents_are_executable:
  assumes "portfolio_inv k pf" "on_signal uid ev pf = Some (Inr (Some oi))"
  shows "dlt DZERO (oi_quantity oi) \<and> oi_symbol oi = sg_symbol ev \<and>
    (case oi_side oi of
       BUY \<Rightarrow> dle (dmul (oi_quantity oi) (oi_reference_price oi)) (pf_cash pf)
     | SELL \<Rightarrow> dle (oi_quantity oi) (available_qty (position_of pf (oi_symbol oi))))"
  using on_signal_executable[OF assms] by (cases "oi_side oi") (auto simp: dlt_val dle_val)

lemma signal_intents_are_executable_witness:
  "\<exists>oi. on_signal ''u'' (sample_signal (Decimal 5 (- 1))) (sample_portfolio (Decimal 100000 0)) = Some (Inr (Some oi)) \<and>
     dlt DZERO (oi_quantity oi)"
proof -
  let ?pf = "sample_portfolio (Decimal 100000 0)"
  let ?r = "on_signal ''u'' (sample_signal (Decimal 5 (- 1))) ?pf"
  have "(case ?r of Some (Inr (Some _)) \<Rightarrow> True | _ \<Rightarrow> False)" by code_simp
  then obtain oi where oi: "?r = Some (Inr (Some oi))" by (auto split: option.splits sum.splits)
  have "portfolio_inv 0 ?pf"
    by (simp add: sample_portfolio_def new_portfolio_def add_instrument_def portfolio_inv_def make_stock_def val_simps)
  from signal_intents_are_executable[OF this oi] oi show ?thesis by blast
qed

text \<open>C5: a fill with a non-negative price whose quantity the position has room for (a purchase) or
  available shares for (a sale) keeps the portfolio well formed: one position per symbol, each
  with its share counts consistent; also when the fee record makes the handler raise after it has
  created the position.\<close>

theorem fills_preserve_portfolio:
  assumes "portfolio_inv k pf" "fill_admissible k pf ev"
  shows "portfolio_inv k (fst (on_fill ev pf))"
  using assms by (rule on_fill_inv)

lemma fills_preserve_portfolio_witness:
  "portfolio_inv 0 (fst (on_fill \<lparr>fl_timestamp = 0, fl_fill_id = ''f'', fl_order_id = ''o'',
     fl_symbol = ''600000'', fl_side = BUY, fl_price = Decimal 10 0, fl_quantity = Decimal 100 0,
     fl_commission = Decimal 5 0, fl_slippage = DZERO, fl_fee_breakdown = None, fl_fee_rule_id = None,
     fl_fee_rule_version = None\<rparr> (new_portfolio (Decimal 100000 0))))"
  by (rule fills_preserve_portfolio)
    (rule portfolio_inv_new, simp add: fill_admissible_def position_of_def dict_get_default_def new_portfolio_def
      new_position_def room_def val_simps gridv_def)

text \<open>C8: where the amount is whole lots on a grid within the precision, sizing a purchase returns,
  and with the greatest number of lots that the cash pays for: every larger number up to the
  wanted one costs more than the cash.\<close>

theorem buy_sizing_returns_greatest:
  assumes "whole_lots value_diff price (in_lot_size i) = Inr q"
    and "grid k (in_lot_size i)" "dlt DZERO (in_lot_size i)"
    and "val q = of_nat n * val (in_lot_size i)" "grid k q"
  shows "\<exists>r m. calculate_buy_quantity i price value_diff pf = Some (Inr r) \<and> m \<le> n \<and>
    val r = of_nat m * val (in_lot_size i) \<and>
    (m = 0 \<or> dle (dmul r price) (pf_cash pf)) \<and>
    (\<forall>j. m < j \<longrightarrow> j \<le> n \<longrightarrow> val (pf_cash pf) < cr (of_nat j * val (in_lot_size i) * val price))"
proof (cases "dlt (pf_cash pf) (dmul q price)")
  case True
  have pos: "0 < val (in_lot_size i)" using assms(3) by (simp add: val_simps)
  from shrink_returns[OF assms(2) pos assms(4,5), of price "pf_cash pf"] assms(1) True
  show ?thesis by (auto simp: calculate_buy_quantity_def val_simps)
next
  case False
  then show ?thesis using assms(1,4)
    by (intro exI[of _ q] exI[of _ n]) (simp add: calculate_buy_quantity_def val_simps not_less)
qed

lemma buy_sizing_returns_greatest_witness:
  "\<exists>r m. calculate_buy_quantity (make_stock ''600000'' ''sample'' None) (Decimal 10 0) (Decimal 5000 0)
      (new_portfolio (Decimal 2500 0)) = Some (Inr r) \<and> m \<le> 5 \<and> val r = of_nat m * 100"
proof -
  have "whole_lots (Decimal 5000 0) (Decimal 10 0) (Decimal 100 0) = Inr (Decimal 500 0)" by code_simp
  then show ?thesis
    using buy_sizing_returns_greatest[of "Decimal 5000 0" "Decimal 10 0"
        "make_stock ''600000'' ''sample'' None" "Decimal 500 0" 0 5 "new_portfolio (Decimal 2500 0)"]
    by (fastforce simp: make_stock_def val_simps gridv_def)
qed

text \<open>C7: paying a recognised cash dividend moves its amount from the receivables into the cash and
  leaves the total equity unchanged, and paying it again changes nothing and returns zero.\<close>

theorem dividend_paid_once:
  assumes "books_ok k pf" "pay_cash_dividend a pf = Inr (amount, pf')"
  shows "deq (total_equity pf') (total_equity pf) \<and> val (pf_cash pf') = val (pf_cash pf) + val amount \<and>
    pay_cash_dividend a pf' = Inr (DZERO, pf')"
proof -
  have "pay_cash_dividend a pf' = Inr (DZERO, pf')"
    using assms(2) by (auto simp: pay_cash_dividend_def split: option.splits if_splits)
  then show ?thesis using pay_books[OF assms] by (simp add: val_simps)
qed

lemma dividend_paid_once_witness:
  "\<exists>pf'. pay_cash_dividend ''d1'' ((new_portfolio (Decimal 100 0))
      \<lparr>pf_cash_dividends := [(''d1'', (''600000'', Decimal 100 0, Decimal 5 (- 1), Decimal 50 0))]\<rparr>)
      = Inr (Decimal 50 0, pf') \<and> val (pf_cash pf') = 150"
proof -
  let ?pf = "(new_portfolio (Decimal 100 0))
      \<lparr>pf_cash_dividends := [(''d1'', (''600000'', Decimal 100 0, Decimal 5 (- 1), Decimal 50 0))]\<rparr>"
  have "books_ok 0 ?pf"
    by (simp add: books_ok_def new_portfolio_def receivables_def val_simps gridv_def)
  moreover obtain pf' where "pay_cash_dividend ''d1'' ?pf = Inr (Decimal 50 0, pf')"
    by (simp add: pay_cash_dividend_def new_portfolio_def)
  ultimately show ?thesis
    using dividend_paid_once[of 0 ?pf "''d1''" "Decimal 50 0" pf'] by (simp add: new_portfolio_def)
qed

text \<open>Recognising a dividend again with the same facts returns the recorded amount and changes
  nothing; with other facts it is refused and changes nothing.\<close>

theorem dividend_replay_idempotent:
  assumes "accrue_cash_dividend a s (Num q) (Num r) pf = Inr (amount, pf')"
  shows "accrue_cash_dividend a s (Num q) (Num r) pf' = Inr (amount, pf') \<and>
    (\<forall>q2. dle DZERO q2 \<and> \<not> deq q2 q \<longrightarrow>
      accrue_cash_dividend a s (Num q2) (Num r) pf' = Inl (ValueError ''portfolio_cash_dividend_conflict''))"
proof
  show "accrue_cash_dividend a s (Num q) (Num r) pf' = Inr (amount, pf')"
    using accrue_cash_dividend_replay[OF assms] .
  have ok: "str_strip a \<noteq> []" "str_strip s \<noteq> []" "0 \<le> val q" "0 \<le> val r"
    using assms by (auto simp: accrue_cash_dividend_def val_simps split: option.splits if_splits)
  have "\<exists>e. dict_get (pf_cash_dividends pf') a = Some e \<and> same_facts e s q r"
    using assms ok by (auto simp: accrue_cash_dividend_def Let_def val_simps same_facts_self
        split: option.splits if_splits)
  then show "\<forall>q2. dle DZERO q2 \<and> \<not> deq q2 q \<longrightarrow>
      accrue_cash_dividend a s (Num q2) (Num r) pf' = Inl (ValueError ''portfolio_cash_dividend_conflict'')"
    using ok by (auto simp: accrue_cash_dividend_def same_facts_def val_simps)
qed

lemma dividend_replay_idempotent_example:
  "\<exists>pf'. accrue_cash_dividend ''d1'' ''600000'' (Num (Decimal 100 0)) (Num (Decimal 5 (- 1)))
      (new_portfolio DZERO) = Inr (Decimal 500 (- 1), pf') \<and>
    accrue_cash_dividend ''d1'' ''600000'' (Num (Decimal 200 0)) (Num (Decimal 5 (- 1))) pf' =
      Inl (ValueError ''portfolio_cash_dividend_conflict'')"
proof -
  let ?f = "accrue_cash_dividend ''d1'' ''600000'' (Num (Decimal 100 0)) (Num (Decimal 5 (- 1)))"
  have "map_sum id fst (?f (new_portfolio DZERO)) = Inr (Decimal 500 (- 1))" by code_simp
  then obtain pf' where f: "?f (new_portfolio DZERO) = Inr (Decimal 500 (- 1), pf')"
    by (cases "?f (new_portfolio DZERO)") auto
  then show ?thesis using dividend_replay_idempotent[OF f] by (auto simp: val_simps)
qed

end
