(* ===== verification/Fees.thy ===== *)
theory Fees
  imports Portfolios
begin

text \<open>
  \<open>execution/commission.py\<close>, \<open>execution/slippage.py\<close> and \<open>execution/simulator.py\<close>: the fee
  schedules per asset kind and their dispatcher, the slippage models, and the simulated execution
  that turns an approved order into a fill (it is given the \<open>breakdown\<close> method of its calculator). The lemmas show that no fee component is negative,
  that a fee grows with the traded amount, that slippage never improves a price, and that the
  portfolio charges a simulated fill exactly once.
\<close>

section \<open>Fee breakdowns\<close>

record fee_breakdown =
  fb_gross_amount :: decimal
  fb_commission :: decimal
  fb_stamp_tax :: decimal
  fb_transfer_fee :: decimal
  fb_other_fees :: decimal
  fb_total_fee :: decimal
  fb_fee_rule_id :: string
  fb_limitations :: "string list"

definition to_json_dict :: "fee_breakdown \<Rightarrow> json_object" where
  "to_json_dict f =
     [(''gross_amount'', JDec (fb_gross_amount f)), (''commission'', JDec (fb_commission f)),
      (''stamp_tax'', JDec (fb_stamp_tax f)), (''transfer_fee'', JDec (fb_transfer_fee f)),
      (''other_fees'', JDec (fb_other_fees f)), (''total_fee'', JDec (fb_total_fee f)),
      (''fee_rule_id'', JText (fb_fee_rule_id f)), (''limitations'', JTexts (fb_limitations f))]"

text \<open>The calculator classes: each constructor carries the attributes of its instance.\<close>

record stock_schedule =
  sc_commission_rate :: decimal
  sc_min_commission :: decimal
  sc_stamp_tax_rate :: decimal
  sc_transfer_fee_rate :: decimal
  sc_other_fee_rate :: decimal
  sc_exchange :: "string option"
  sc_exchange_rates :: "(string, decimal) dict"
  sc_fee_rule_id :: string
  sc_limitations :: "string list"

record etf_schedule =
  ec_commission_rate :: decimal
  ec_min_commission :: decimal
  ec_transfer_fee_rate :: decimal
  ec_other_fee_rate :: decimal
  ec_fee_rule_id :: string
  ec_limitations :: "string list"

record bond_schedule =
  bc_commission_rate :: decimal
  bc_min_commission :: decimal
  bc_other_fee_rate :: decimal
  bc_fee_rule_id :: string
  bc_limitations :: "string list"

datatype commission_calculator =
    StockACommission stock_schedule
  | ETFCommission etf_schedule
  | GoldSpotCommission
  | BondExchangeCommission bond_schedule

definition make_stock_schedule ::
  "decimal \<Rightarrow> decimal \<Rightarrow> decimal \<Rightarrow> decimal \<Rightarrow> decimal \<Rightarrow> string option \<Rightarrow> (string, decimal) dict
    \<Rightarrow> string \<Rightarrow> string list \<Rightarrow> stock_schedule" where
  "make_stock_schedule rate minimum stamp transfer other exchange rates rule lims =
     \<lparr>sc_commission_rate = rate, sc_min_commission = minimum, sc_stamp_tax_rate = stamp,
      sc_transfer_fee_rate = transfer, sc_other_fee_rate = other,
      sc_exchange = (case exchange of None \<Rightarrow> None
        | Some e \<Rightarrow> if e = [] then None else Some (str_lower (str_strip e))),
      sc_exchange_rates = fold (\<lambda>(k, v). dict_put (str_lower (str_strip k)) v) rates [],
      sc_fee_rule_id = rule, sc_limitations = lims\<rparr>"

definition default_stock_schedule :: stock_schedule where
  "default_stock_schedule =
     make_stock_schedule DEFAULT_STOCK_COMMISSION_RATE MIN_STOCK_COMMISSION STAMP_TAX_RATE
       TRANSFER_FEE_RATE DZERO None [] ''cn_stock_a_default_v1''
       [''transfer_fee_exchange_not_split'', ''broker_regulatory_fees_assumed_absorbed'']"

definition default_etf_schedule :: etf_schedule where
  "default_etf_schedule =
     \<lparr>ec_commission_rate = DEFAULT_ETF_COMMISSION_RATE, ec_min_commission = MIN_ETF_COMMISSION,
      ec_transfer_fee_rate = TRANSFER_FEE_RATE, ec_other_fee_rate = DZERO,
      ec_fee_rule_id = ''cn_fund_etf_default_v1'',
      ec_limitations = [''broker_regulatory_fees_assumed_absorbed'']\<rparr>"

definition default_bond_schedule :: bond_schedule where
  "default_bond_schedule =
     \<lparr>bc_commission_rate = BOND_COMMISSION_RATE, bc_min_commission = MIN_BOND_COMMISSION,
      bc_other_fee_rate = DZERO, bc_fee_rule_id = ''cn_bond_exchange_default_v1'',
      bc_limitations = [''bond_fee_rules_need_broker_confirmation'']\<rparr>"

text \<open>\<open>transfer_rate\<close>: an exchange of its own, where the schedule knows it, or the general rate.\<close>

definition transfer_rate :: "stock_schedule \<Rightarrow> decimal" where
  "transfer_rate c =
     (case sc_exchange c of
        None \<Rightarrow> sc_transfer_fee_rate c
      | Some e \<Rightarrow> if e = [] then sc_transfer_fee_rate c
          else dict_get_default (sc_exchange_rates c) e (sc_transfer_fee_rate c))"

definition stock_breakdown :: "stock_schedule \<Rightarrow> order_side \<Rightarrow> decimal \<Rightarrow> decimal \<Rightarrow> fee_breakdown" where
  "stock_breakdown c side price quantity =
     (let amount = dmul price quantity;
          commission = dmax (dmul amount (sc_commission_rate c)) (sc_min_commission c);
          stamp_tax = (if side = SELL then dmul amount (sc_stamp_tax_rate c) else DZERO);
          transfer_fee = dmul amount (transfer_rate c);
          other_fees = dmul amount (sc_other_fee_rate c)
      in \<lparr>fb_gross_amount = amount, fb_commission = commission, fb_stamp_tax = stamp_tax,
          fb_transfer_fee = transfer_fee, fb_other_fees = other_fees,
          fb_total_fee = dadd (dadd (dadd commission stamp_tax) transfer_fee) other_fees,
          fb_fee_rule_id = sc_fee_rule_id c, fb_limitations = sc_limitations c\<rparr>)"

definition etf_breakdown :: "etf_schedule \<Rightarrow> decimal \<Rightarrow> decimal \<Rightarrow> fee_breakdown" where
  "etf_breakdown c price quantity =
     (let amount = dmul price quantity;
          commission = dmax (dmul amount (ec_commission_rate c)) (ec_min_commission c);
          transfer_fee = dmul amount (ec_transfer_fee_rate c);
          other_fees = dmul amount (ec_other_fee_rate c)
      in \<lparr>fb_gross_amount = amount, fb_commission = commission, fb_stamp_tax = DZERO,
          fb_transfer_fee = transfer_fee, fb_other_fees = other_fees,
          fb_total_fee = dadd (dadd commission transfer_fee) other_fees,
          fb_fee_rule_id = ec_fee_rule_id c, fb_limitations = ec_limitations c\<rparr>)"

definition bond_breakdown :: "bond_schedule \<Rightarrow> decimal \<Rightarrow> decimal \<Rightarrow> fee_breakdown" where
  "bond_breakdown c price quantity =
     (let amount = dmul price quantity;
          commission = dmax (dmul amount (bc_commission_rate c)) (bc_min_commission c);
          other_fees = dmul amount (bc_other_fee_rate c)
      in \<lparr>fb_gross_amount = amount, fb_commission = commission, fb_stamp_tax = DZERO,
          fb_transfer_fee = DZERO, fb_other_fees = other_fees,
          fb_total_fee = dadd commission other_fees,
          fb_fee_rule_id = bc_fee_rule_id c, fb_limitations = bc_limitations c\<rparr>)"

definition gold_calculate :: "decimal \<Rightarrow> decimal \<Rightarrow> decimal" where
  "gold_calculate price quantity = dmul (dmul price quantity) GOLD_SPOT_COMMISSION_RATE"

text \<open>The inherited \<open>breakdown\<close> of a calculator that only has \<open>calculate\<close>.\<close>

definition legacy_breakdown :: "decimal \<Rightarrow> string \<Rightarrow> decimal \<Rightarrow> decimal \<Rightarrow> fee_breakdown" where
  "legacy_breakdown total_fee class_name price quantity =
     \<lparr>fb_gross_amount = dmul price quantity, fb_commission = total_fee, fb_stamp_tax = DZERO,
      fb_transfer_fee = DZERO, fb_other_fees = DZERO, fb_total_fee = total_fee,
      fb_fee_rule_id = class_name, fb_limitations = [''legacy_total_fee_only'']\<rparr>"

fun breakdown :: "commission_calculator \<Rightarrow> order_side \<Rightarrow> decimal \<Rightarrow> decimal \<Rightarrow> fee_breakdown" where
  "breakdown (StockACommission c) side price quantity = stock_breakdown c side price quantity"
| "breakdown (ETFCommission c) side price quantity = etf_breakdown c price quantity"
| "breakdown GoldSpotCommission side price quantity =
     legacy_breakdown (gold_calculate price quantity) ''GoldSpotCommission'' price quantity"
| "breakdown (BondExchangeCommission c) side price quantity = bond_breakdown c price quantity"

fun calculate :: "commission_calculator \<Rightarrow> order_side \<Rightarrow> decimal \<Rightarrow> decimal \<Rightarrow> decimal" where
  "calculate (StockACommission c) side price quantity = fb_total_fee (stock_breakdown c side price quantity)"
| "calculate (ETFCommission c) side price quantity = fb_total_fee (etf_breakdown c price quantity)"
| "calculate GoldSpotCommission side price quantity = gold_calculate price quantity"
| "calculate (BondExchangeCommission c) side price quantity = fb_total_fee (bond_breakdown c price quantity)"

section \<open>The dispatcher\<close>

record multi_asset_commission =
  mc_calculators :: "(commission_type, commission_calculator) dict"
  mc_default :: commission_calculator
  mc_symbol_calculators :: "(string, commission_calculator) dict"
  mc_fee_rule_version :: string

definition new_multi_asset :: "string \<Rightarrow> multi_asset_commission" where
  "new_multi_asset version =
     \<lparr>mc_calculators =
        [(CT_STOCK_A, StockACommission default_stock_schedule),
         (CT_FUND_ETF, ETFCommission default_etf_schedule),
         (CT_GOLD_SPOT, GoldSpotCommission),
         (CT_BOND_EXCHANGE, BondExchangeCommission default_bond_schedule)],
      mc_default = StockACommission default_stock_schedule,
      mc_symbol_calculators = [],
      mc_fee_rule_version =
        (if str_strip version = [] then ''backtest_commission_model'' else str_strip version)\<rparr>"

definition set_commission ::
  "commission_type \<Rightarrow> commission_calculator \<Rightarrow> multi_asset_commission \<Rightarrow> multi_asset_commission" where
  "set_commission t c m = m\<lparr>mc_calculators := dict_put t c (mc_calculators m)\<rparr>"

definition set_symbol_commission ::
  "string \<Rightarrow> commission_calculator \<Rightarrow> multi_asset_commission \<Rightarrow> multi_asset_commission res" where
  "set_symbol_commission s c m =
     (let normalized = str_upper (str_strip s) in
      if normalized = [] then Inl (ValueError ''symbol commission override requires a symbol'')
      else Inr (m\<lparr>mc_symbol_calculators := dict_put normalized c (mc_symbol_calculators m)\<rparr>))"

definition multi_calculate :: "multi_asset_commission \<Rightarrow> order_side \<Rightarrow> decimal \<Rightarrow> decimal \<Rightarrow> decimal" where
  "multi_calculate m side price quantity = calculate (mc_default m) side price quantity"

text \<open>The dispatcher inherits \<open>breakdown\<close> from the base class.\<close>

definition multi_breakdown :: "multi_asset_commission \<Rightarrow> order_side \<Rightarrow> decimal \<Rightarrow> decimal \<Rightarrow> fee_breakdown" where
  "multi_breakdown m side price quantity =
     legacy_breakdown (multi_calculate m side price quantity) ''MultiAssetCommission'' price quantity"

definition calculate_for ::
  "commission_type \<Rightarrow> order_side \<Rightarrow> decimal \<Rightarrow> decimal \<Rightarrow> multi_asset_commission \<Rightarrow> decimal" where
  "calculate_for t side price quantity m =
     calculate (dict_get_default (mc_calculators m) t (mc_default m)) side price quantity"

definition breakdown_for ::
  "commission_type \<Rightarrow> order_side \<Rightarrow> decimal \<Rightarrow> decimal \<Rightarrow> string option \<Rightarrow> multi_asset_commission
    \<Rightarrow> fee_breakdown" where
  "breakdown_for t side price quantity s m =
     (let normalized = str_upper (str_strip (case s of None \<Rightarrow> [] | Some x \<Rightarrow> x));
          calc = (case dict_get (mc_symbol_calculators m) normalized of
            Some c \<Rightarrow> c | None \<Rightarrow> dict_get_default (mc_calculators m) t (mc_default m))
      in breakdown calc side price quantity)"

section \<open>Slippage\<close>

datatype slippage_model =
    FixedSlippage decimal
  | PercentSlippage decimal
  | TickSlippage int decimal
  | VolumeSlippage decimal

fun slip_amount :: "slippage_model \<Rightarrow> decimal \<Rightarrow> decimal" where
  "slip_amount (FixedSlippage amount) price = amount"
| "slip_amount (PercentSlippage pct) price = dmul price pct"
| "slip_amount (TickSlippage ticks tick_size) price = dmul tick_size (dec_of_int ticks)"
| "slip_amount (VolumeSlippage base_slip) price = dmul price base_slip"

definition apply_slippage :: "slippage_model \<Rightarrow> decimal \<Rightarrow> order_side \<Rightarrow> decimal" where
  "apply_slippage m price side =
     (if side = BUY then dadd price (slip_amount m price) else dsub price (slip_amount m price))"

section \<open>Simulated execution\<close>

definition or_none :: "decimal option \<Rightarrow> decimal \<Rightarrow> decimal" where
  "or_none p d = (case p of None \<Rightarrow> d | Some x \<Rightarrow> if deq x DZERO then d else x)"

definition execute ::
  "slippage_model \<Rightarrow> (order_side \<Rightarrow> decimal \<Rightarrow> decimal \<Rightarrow> fee_breakdown) \<Rightarrow> string \<Rightarrow> order_event \<Rightarrow> fill_event" where
  "execute sl quote uid ord =
     (let fill_price = apply_slippage sl (or_none (or_price ord) DZERO) (or_side ord);
          fill_quantity = or_quantity ord;
          b = quote (or_side ord) fill_price fill_quantity
      in \<lparr>fl_timestamp = or_timestamp ord, fl_fill_id = ''FILL-'' @ uid, fl_order_id = or_order_id ord,
          fl_symbol = or_symbol ord, fl_side = or_side ord, fl_price = fill_price,
          fl_quantity = fill_quantity, fl_commission = fb_total_fee b,
          fl_slippage = dmul (dabs (dsub fill_price (or_none (or_price ord) fill_price))) fill_quantity,
          fl_fee_breakdown = Some (to_json_dict b), fl_fee_rule_id = Some (fb_fee_rule_id b),
          fl_fee_rule_version = Some ''backtest_commission_model''\<rparr>)"

section \<open>Fees are non-negative and grow with the amount\<close>

fun schedule_ok :: "commission_calculator \<Rightarrow> bool" where
  "schedule_ok (StockACommission c) =
     (dle DZERO (sc_commission_rate c) \<and> dle DZERO (sc_min_commission c) \<and> dle DZERO (sc_stamp_tax_rate c) \<and>
      dle DZERO (sc_transfer_fee_rate c) \<and> dle DZERO (sc_other_fee_rate c) \<and>
      list_all (dle DZERO) (dict_values (sc_exchange_rates c)))"
| "schedule_ok (ETFCommission c) =
     (dle DZERO (ec_commission_rate c) \<and> dle DZERO (ec_min_commission c) \<and>
      dle DZERO (ec_transfer_fee_rate c) \<and> dle DZERO (ec_other_fee_rate c))"
| "schedule_ok GoldSpotCommission = True"
| "schedule_ok (BondExchangeCommission c) =
     (dle DZERO (bc_commission_rate c) \<and> dle DZERO (bc_min_commission c) \<and> dle DZERO (bc_other_fee_rate c))"

lemma transfer_rate_nonneg: "schedule_ok (StockACommission c) \<Longrightarrow> 0 \<le> val (transfer_rate c)"
  using dict_values_get[of "sc_exchange_rates c"]
  by (auto simp: transfer_rate_def dict_get_default_def list_all_iff val_simps split: option.splits)

lemma cr_add_nonneg: "0 \<le> x \<Longrightarrow> 0 \<le> y \<Longrightarrow> 0 \<le> cr (x + y)"
  by (simp add: rnd_nonneg)

lemma cr_mult_nonneg: "0 \<le> x \<Longrightarrow> 0 \<le> y \<Longrightarrow> 0 \<le> cr (x * y)"
  by (simp add: rnd_nonneg)

lemma cr_add_mono: "x \<le> x' \<Longrightarrow> y \<le> y' \<Longrightarrow> cr (x + y) \<le> cr (x' + y')"
  by (intro rnd_mono) auto

lemma cr_max_mono: "x \<le> x' \<Longrightarrow> cr (max x m) \<le> cr (max x' m)"
  by (intro rnd_mono max.mono) auto

lemma cr_mult_mono: "x \<le> x' \<Longrightarrow> 0 \<le> x \<Longrightarrow> y \<le> y' \<Longrightarrow> 0 \<le> y \<Longrightarrow> cr (x * y) \<le> cr (x' * y')"
  by (intro rnd_mono mult_mono) auto

lemmas fee_defs = stock_breakdown_def etf_breakdown_def bond_breakdown_def legacy_breakdown_def
  gold_calculate_def Let_def

lemma breakdown_nonneg:
  assumes "schedule_ok c" "0 \<le> val price" "0 \<le> val quantity"
  shows "0 \<le> val (fb_commission (breakdown c side price quantity)) \<and>
    0 \<le> val (fb_stamp_tax (breakdown c side price quantity)) \<and>
    0 \<le> val (fb_transfer_fee (breakdown c side price quantity)) \<and>
    0 \<le> val (fb_other_fees (breakdown c side price quantity)) \<and>
    0 \<le> val (fb_total_fee (breakdown c side price quantity))"
proof -
  have amount: "0 \<le> cr (val price * val quantity)" using assms by (intro cr_mult_nonneg)
  show ?thesis
  proof (cases c)
    case (StockACommission s)
    with assms amount transfer_rate_nonneg[of s] show ?thesis
      by (auto simp: fee_defs val_simps le_max_iff_disj intro!: rnd_nonneg add_nonneg_nonneg mult_nonneg_nonneg)
  qed (use assms amount in \<open>auto simp: fee_defs val_simps le_max_iff_disj GOLD_SPOT_COMMISSION_RATE_def val_Decimal
      intro!: rnd_nonneg add_nonneg_nonneg mult_nonneg_nonneg\<close>)
qed

lemma total_fee_mono:
  assumes ok: "schedule_ok c" and p: "0 \<le> val price" "val price \<le> val price'"
    and q: "0 \<le> val quantity" "val quantity \<le> val quantity'"
  shows "val (fb_total_fee (breakdown c side price quantity)) \<le> val (fb_total_fee (breakdown c side price' quantity'))"
proof -
  have amount: "0 \<le> cr (val price * val quantity)" using p q by (intro cr_mult_nonneg)
  have le: "cr (val price * val quantity) \<le> cr (val price' * val quantity')"
    using p q by (intro cr_mult_mono)
  show ?thesis
  proof (cases c)
    case (StockACommission s)
    have st: "cr (cr (val price * val quantity) * r) \<le> cr (cr (val price' * val quantity') * r)" if "0 \<le> r" for r
      by (rule cr_mult_mono[OF le amount order_refl that])
    from StockACommission ok transfer_rate_nonneg[of s] show ?thesis
      by (cases side) (auto simp: fee_defs val_simps intro!: cr_add_mono cr_max_mono st max.mono)
  next
    case (ETFCommission s)
    with ok le amount show ?thesis
      by (auto simp: fee_defs val_simps intro!: cr_add_mono cr_mult_mono max.mono)
  next
    case GoldSpotCommission
    with le amount show ?thesis
      by (auto simp: fee_defs val_simps GOLD_SPOT_COMMISSION_RATE_def val_Decimal intro!: rnd_mono divide_right_mono)
  next
    case (BondExchangeCommission s)
    with ok le amount show ?thesis
      by (auto simp: fee_defs val_simps intro!: cr_add_mono cr_mult_mono max.mono)
  qed
qed

lemma cr_add_ge: "fits 28 x \<Longrightarrow> x \<le> a \<Longrightarrow> 0 \<le> y \<Longrightarrow> x \<le> cr (a + y)"
  by (intro rnd_ge_exact) auto

section \<open>Charging a simulated fill\<close>

lemma json_total_fee: "total_trade_fee c (Some (to_json_dict b)) = Inr (dabs (fb_total_fee b))"
  by (simp add: total_trade_fee_def to_json_dict_def)

lemma dabs_fixed: "0 \<le> val d \<Longrightarrow> fits 28 (val d) \<Longrightarrow> val (dabs d) = val d"
  by (simp add: val_simps rnd_exact)

lemma total_fee_fits: "fits 28 (val (fb_total_fee (breakdown c side price quantity)))"
  by (cases c) (simp_all add: fee_defs val_simps rnd_fits)

lemma slippage_adverse:
  assumes "fits 28 (val price)" "0 \<le> val (slip_amount m price)"
  shows "(side = BUY \<longrightarrow> val price \<le> val (apply_slippage m price side)) \<and>
    (side = SELL \<longrightarrow> val (apply_slippage m price side) \<le> val price)"
  using assms by (auto simp: apply_slippage_def val_simps intro: rnd_ge_exact rnd_le_exact)

section \<open>Properties\<close>

text \<open>For a schedule without negative rates, no component of a fee is negative, only sales pay
  stamp tax, and the total grows with the price and with the quantity.\<close>

theorem fees_nonneg_and_monotone:
  assumes "schedule_ok c" "dle DZERO price" "dle price price'" "dle DZERO quantity" "dle quantity quantity'"
  shows "list_all (\<lambda>f. dle DZERO (f (breakdown c side price quantity)))
      [fb_commission, fb_stamp_tax, fb_transfer_fee, fb_other_fees, fb_total_fee] \<and>
    (side = BUY \<longrightarrow> fb_stamp_tax (breakdown c side price quantity) = DZERO) \<and>
    dle (fb_total_fee (breakdown c side price quantity)) (fb_total_fee (breakdown c side price' quantity'))"
proof (intro conjI impI)
  show "list_all (\<lambda>f. dle DZERO (f (breakdown c side price quantity)))
      [fb_commission, fb_stamp_tax, fb_transfer_fee, fb_other_fees, fb_total_fee]"
    using breakdown_nonneg[OF assms(1), of price quantity side] assms(2,4) by (simp add: dle_val)
  show "fb_stamp_tax (breakdown c side price quantity) = DZERO" if "side = BUY"
    using that by (cases c) (simp_all add: fee_defs)
  show "dle (fb_total_fee (breakdown c side price quantity)) (fb_total_fee (breakdown c side price' quantity'))"
    using total_fee_mono[OF assms(1), of price price' quantity quantity' side] assms by (simp add: dle_val)
qed

lemma fees_nonneg_and_monotone_example:
  "dle (fb_total_fee (breakdown (StockACommission default_stock_schedule) SELL (Decimal 10 0) (Decimal 100 0)))
     (fb_total_fee (breakdown (StockACommission default_stock_schedule) SELL (Decimal 11 0) (Decimal 5000 0)))"
proof -
  have "schedule_ok (StockACommission default_stock_schedule)" "dle DZERO (Decimal 10 0)"
    "dle (Decimal 10 0) (Decimal 11 0)" "dle DZERO (Decimal 100 0)" "dle (Decimal 100 0) (Decimal 5000 0)"
    by code_simp+
  from fees_nonneg_and_monotone[OF this, of SELL] show ?thesis by simp
qed

text \<open>Slippage is never in the trader's favour: a purchase is filled at or above the reference
  price and a sale at or below it, for every slippage model with non-negative parameters; and the
  portfolio pays for the fill exactly the total fee of its structured breakdown, once.\<close>

theorem simulated_fill_is_fair:
  assumes "or_price ord = Some price" "\<not> deq price DZERO" "fits 28 (val price)"
    and "dle DZERO (slip_amount sl price)" "schedule_ok calc" "dle DZERO (or_quantity ord)"
    and "dle DZERO (fl_price (execute sl (breakdown calc) uid ord))"
  shows "(or_side ord = BUY \<longrightarrow> dle price (fl_price (execute sl (breakdown calc) uid ord))) \<and>
    (or_side ord = SELL \<longrightarrow> dle (fl_price (execute sl (breakdown calc) uid ord)) price) \<and>
    (\<exists>fee. total_trade_fee (fl_commission (execute sl (breakdown calc) uid ord)) (fl_fee_breakdown (execute sl (breakdown calc) uid ord)) = Inr fee \<and>
       deq fee (fl_commission (execute sl (breakdown calc) uid ord)) \<and> dle DZERO fee)"
proof -
  have p: "or_none (or_price ord) DZERO = price" using assms(1,2) by (simp add: or_none_def)
  have fp: "fl_price (execute sl (breakdown calc) uid ord) = apply_slippage sl price (or_side ord)"
    by (simp add: execute_def Let_def p)
  have fee: "total_trade_fee (fl_commission (execute sl (breakdown calc) uid ord)) (fl_fee_breakdown (execute sl (breakdown calc) uid ord)) =
      Inr (dabs (fl_commission (execute sl (breakdown calc) uid ord)))"
    by (simp add: execute_def Let_def json_total_fee)
  have com: "fl_commission (execute sl (breakdown calc) uid ord) =
      fb_total_fee (breakdown calc (or_side ord) (fl_price (execute sl (breakdown calc) uid ord)) (or_quantity ord))"
    by (simp add: execute_def Let_def p)
  have "val (dabs (fl_commission (execute sl (breakdown calc) uid ord))) = val (fl_commission (execute sl (breakdown calc) uid ord))"
    unfolding com using breakdown_nonneg[OF assms(5)] assms(6,7) total_fee_fits
    by (intro dabs_fixed) (simp_all add: dle_val)
  then show ?thesis unfolding fp fee
    using slippage_adverse[OF assms(3), of sl "or_side ord"] assms(4) val_dabs_nonneg[of "fl_commission (execute sl (breakdown calc) uid ord)"]
    by (simp add: dle_val deq_val)
qed

lemma simulated_fill_is_fair_example:
  "dle (Decimal 10 0) (fl_price (execute (TickSlippage 2 (Decimal 1 (- 2))) (breakdown (StockACommission default_stock_schedule)) ''x''
     \<lparr>or_timestamp = 0, or_order_id = ''o'', or_symbol = ''600000'', or_side = BUY, or_order_type = MARKET,
      or_quantity = Decimal 100 0, or_price = Some (Decimal 10 0), or_intent_id = None,
      or_risk_decision_id = None, or_execution_mode = ''paper'', or_asset_class = None\<rparr>))"
proof -
  let ?o = "\<lparr>or_timestamp = 0, or_order_id = ''o'', or_symbol = ''600000'', or_side = BUY, or_order_type = MARKET,
      or_quantity = Decimal 100 0, or_price = Some (Decimal 10 0), or_intent_id = None,
      or_risk_decision_id = None, or_execution_mode = ''paper'', or_asset_class = None\<rparr>"
  let ?sl = "TickSlippage 2 (Decimal 1 (- 2))" and ?c = "StockACommission default_stock_schedule"
  have "\<not> deq (Decimal 10 0) DZERO" "dle DZERO (slip_amount ?sl (Decimal 10 0))" "schedule_ok ?c"
    "dle DZERO (or_quantity ?o)" "dle DZERO (fl_price (execute ?sl (breakdown ?c) ''x'' ?o))" by code_simp+
  moreover have "fits 28 (val (Decimal 10 0))" using fits_of_int[of 10 28] by simp
  ultimately show ?thesis
    using simulated_fill_is_fair[of ?o "Decimal 10 0" ?sl ?c "''x''"] by simp
qed

end
