(* ===== verification/Risk_Gate.thy ===== *)
theory Risk_Gate
  imports Portfolios
begin

text \<open>
  \<open>risk/rules.py\<close>, \<open>risk/limits.py\<close> (the position limit), \<open>risk/manager.py\<close> and
  \<open>risk/pre_trade.py\<close>. A rule is an implementation of the abstract class \<open>RiskRule\<close>: a name and a
  check of an order against the positions and the account value. The rules that compute in binary
  floating point (\<open>MaxDrawdownRule\<close>, \<open>ConcentrationRule\<close>) are not modelled; every theorem about rules
  holds for any rule. An operation that publishes events returns them in order of publication.
  The lemmas show that the gate releases an order exactly when no reason stands against it and
  that a released order honours the policy.
\<close>

section \<open>Rules\<close>

record risk_check_result =
  rc_passed :: bool
  rc_message :: "string option"
  rc_modified_order :: "order_event option"

type_synonym positions = "(symbol, position) dict"

text \<open>The account value handed to a rule: total equity and cash.\<close>

type_synonym account_value = "decimal \<times> decimal"

record risk_rule =
  rr_name :: string
  rr_check :: "order_event \<Rightarrow> positions \<Rightarrow> account_value \<Rightarrow> risk_check_result"

definition check_passed :: risk_check_result where
  "check_passed = \<lparr>rc_passed = True, rc_message = None, rc_modified_order = None\<rparr>"

definition position_limit_check ::
  "decimal \<Rightarrow> order_event \<Rightarrow> positions \<Rightarrow> account_value \<Rightarrow> risk_check_result" where
  "position_limit_check max_quantity ord positions v =
     (if or_side ord \<noteq> BUY then check_passed
      else let current_qty = (case dict_get positions (or_symbol ord) of
                 None \<Rightarrow> DZERO | Some p \<Rightarrow> po_quantity p)
        in if dlt max_quantity (dadd current_qty (or_quantity ord))
           then \<lparr>rc_passed = False, rc_message = Some ''Position limit exceeded'', rc_modified_order = None\<rparr>
           else check_passed)"

definition position_limit_rule :: "decimal \<Rightarrow> risk_rule" where
  "position_limit_rule max_quantity =
     \<lparr>rr_name = ''position_limit'', rr_check = position_limit_check max_quantity\<rparr>"

section \<open>The risk manager\<close>

record risk_manager =
  rm_rules :: "risk_rule list"
  rm_positions :: positions
  rm_portfolio_value :: account_value

definition new_risk_manager :: risk_manager where
  "new_risk_manager = \<lparr>rm_rules = [], rm_positions = [], rm_portfolio_value = (DZERO, DZERO)\<rparr>"

definition add_rule :: "risk_rule \<Rightarrow> risk_manager \<Rightarrow> risk_manager" where
  "add_rule r m = m\<lparr>rm_rules := rm_rules m @ [r]\<rparr>"

definition set_portfolio_value :: "decimal \<Rightarrow> decimal \<Rightarrow> risk_manager \<Rightarrow> risk_manager" where
  "set_portfolio_value equity cash m = m\<lparr>rm_portfolio_value := (equity, cash)\<rparr>"

definition risk_alert :: "order_event \<Rightarrow> risk_rule \<Rightarrow> risk_check_result \<Rightarrow> risk_alert_event" where
  "risk_alert ord r c =
     \<lparr>ra_timestamp = or_timestamp ord, ra_alert_id = ''RISK-'' @ or_order_id ord, ra_rule_name = rr_name r,
      ra_severity = ''warning'',
      ra_message = (case rc_message c of None \<Rightarrow> ''Order rejected''
        | Some s \<Rightarrow> if s = [] then ''Order rejected'' else s),
      ra_symbol = Some (or_symbol ord), ra_order_id = Some (or_order_id ord)\<rparr>"

fun risk_on_order :: "risk_rule list \<Rightarrow> order_event \<Rightarrow> positions \<Rightarrow> account_value \<Rightarrow> event list" where
  "risk_on_order [] ord positions v = []"
| "risk_on_order (r # rules) ord positions v =
     (let c = rr_check r ord positions v in
      if \<not> rc_passed c then [AlertEv (risk_alert ord r c)]
      else case rc_modified_order c of
          Some ord' \<Rightarrow> [OrderEv ord']
        | None \<Rightarrow> risk_on_order rules ord positions v)"

definition risk_on_fill :: "fill_event \<Rightarrow> risk_manager \<Rightarrow> risk_manager \<times> py_exc option" where
  "risk_on_fill ev m =
     (let s = fl_symbol ev;
          m1 = (case dict_get (rm_positions m) s of
            None \<Rightarrow> m\<lparr>rm_positions := dict_put s (new_position s) (rm_positions m)\<rparr> | Some _ \<Rightarrow> m);
          pos = dict_get_default (rm_positions m1) s (new_position s)
      in case bind_res (total_trade_fee (fl_commission ev) (fl_fee_breakdown ev)) (\<lambda>fee.
            update_on_fill (order_side_value (fl_side ev)) (fl_quantity ev) (fl_price ev) fee T_PLUS_1 pos) of
          Inl e \<Rightarrow> (m1, Some e)
        | Inr pos' \<Rightarrow> (m1\<lparr>rm_positions := dict_put s pos' (rm_positions m1)\<rparr>, None))"

section \<open>The pre-trade gate\<close>

record pre_trade_policy =
  pp_execution_mode :: string
  pp_max_order_notional :: "decimal option"
  pp_min_cash_reserve :: decimal
  pp_max_position_weight :: "decimal option"

definition default_policy :: pre_trade_policy where
  "default_policy = \<lparr>pp_execution_mode = ''manual'', pp_max_order_notional = None,
     pp_min_cash_reserve = DZERO, pp_max_position_weight = None\<rparr>"

record pre_trade_context =
  pc_cash :: decimal
  pc_total_equity :: decimal
  pc_peak_equity :: decimal
  pc_positions :: positions
  pc_instruments :: "(symbol, instrument) dict"
  pc_blacklist :: "string list"
  pc_st_symbols :: "string list"
  pc_kill_switch_enabled :: bool
  pc_data_quality_issues :: "(symbol, string list) dict"

record risk_inputs =
  ri_order_value :: decimal
  ri_projected_cash :: decimal
  ri_current_position_value :: decimal
  ri_projected_position_value :: decimal
  ri_projected_position_weight :: decimal

definition position_market_value :: "position option \<Rightarrow> decimal" where
  "position_market_value p = (case p of None \<Rightarrow> DZERO | Some p \<Rightarrow> po_market_value p)"

definition pre_trade_risk_inputs :: "order_intent_event \<Rightarrow> pre_trade_context \<Rightarrow> risk_inputs res" where
  "pre_trade_risk_inputs oi ctx =
     (let order_value = dmul (oi_quantity oi) (oi_reference_price oi);
          current = position_market_value (dict_get (pc_positions ctx) (oi_symbol oi));
          projected_cash = (if oi_side oi = BUY then dsub (pc_cash ctx) order_value else pc_cash ctx);
          projected = (if oi_side oi = BUY then dadd current order_value
                       else dmax DZERO (dsub current order_value))
      in bind_res (if dlt DZERO (pc_total_equity ctx) then ddiv projected (pc_total_equity ctx) else Inr DZERO)
        (\<lambda>weight. Inr \<lparr>ri_order_value = order_value, ri_projected_cash = projected_cash,
           ri_current_position_value = current, ri_projected_position_value = projected,
           ri_projected_position_weight = weight\<rparr>))"

text \<open>The texts of an iterable metadata value; a string is iterated by characters.\<close>

fun iterate_texts :: "json \<Rightarrow> string list res" where
  "iterate_texts (JTexts ts) = Inr ts"
| "iterate_texts (JText s) = Inr (map (\<lambda>c. [c]) s)"
| "iterate_texts (JObject kvs) = Inr (map fst kvs)"
| "iterate_texts _ = Inl (TypeError ''object is not iterable'')"

definition quality_reason :: "string \<Rightarrow> string" where
  "quality_reason issue = ''data quality issue: '' @ issue"

definition pre_trade_reasons ::
  "order_intent_event \<Rightarrow> pre_trade_context \<Rightarrow> risk_inputs \<Rightarrow> pre_trade_policy \<Rightarrow> string list res" where
  "pre_trade_reasons oi ctx ri policy =
     bind_res (case dict_get (oi_metadata oi) ''data_quality_issues'' of
         None \<Rightarrow> Inr [] | Some j \<Rightarrow> iterate_texts j) (\<lambda>issues.
      Inr (
        (if dle (oi_quantity oi) DZERO then [''order quantity must be positive''] else []) @
        (if dle (oi_reference_price oi) DZERO then [''reference price must be positive''] else []) @
        (if dle (ri_order_value ri) DZERO then [''order value must be positive''] else []) @
        (if oi_symbol oi \<in> set (pc_blacklist ctx) then [oi_symbol oi @ '' is blacklisted''] else []) @
        (if oi_symbol oi \<in> set (pc_st_symbols ctx) then [oi_symbol oi @ '' is marked as ST''] else []) @
        (if pc_kill_switch_enabled ctx \<and> oi_side oi = BUY
         then [''kill switch is enabled: buy orders are blocked''] else []) @
        (case pp_max_order_notional policy of None \<Rightarrow> []
         | Some m \<Rightarrow> if dlt m (ri_order_value ri) then [''order notional exceeds max_order_notional''] else []) @
        (if oi_side oi = BUY \<and> dlt (ri_projected_cash ri) (pp_min_cash_reserve policy)
         then [''cash reserve would fall below min_cash_reserve''] else []) @
        (case pp_max_position_weight policy of None \<Rightarrow> []
         | Some m \<Rightarrow> if dlt m (ri_projected_position_weight ri)
             then [''projected position weight exceeds max_position_weight''] else []) @
        map quality_reason (dict_get_default (pc_data_quality_issues ctx) (oi_symbol oi) []) @
        map quality_reason issues))"

fun join_texts :: "string \<Rightarrow> string list \<Rightarrow> string" where
  "join_texts sep [] = []"
| "join_texts sep [x] = x"
| "join_texts sep (x # y # xs) = x @ sep @ join_texts sep (y # xs)"

fun opt_dec :: "decimal option \<Rightarrow> json" where
  "opt_dec None = JNull"
| "opt_dec (Some d) = JDec d"

definition policy_metadata :: "pre_trade_policy \<Rightarrow> json" where
  "policy_metadata p = JObject
     [(''execution_mode'', JText (pp_execution_mode p)),
      (''max_order_notional'', opt_dec (pp_max_order_notional p)),
      (''min_cash_reserve'', JDec (pp_min_cash_reserve p)),
      (''max_position_weight'', opt_dec (pp_max_position_weight p))]"

definition decision_metadata ::
  "order_intent_event \<Rightarrow> pre_trade_context \<Rightarrow> risk_inputs \<Rightarrow> pre_trade_policy \<Rightarrow> json_object" where
  "decision_metadata oi ctx ri policy =
     [(''quantity'', JDec (oi_quantity oi)), (''reference_price'', JDec (oi_reference_price oi)),
      (''target_weight'', JDec (oi_target_weight oi)), (''cash'', JDec (pc_cash ctx)),
      (''total_equity'', JDec (pc_total_equity ctx)), (''order_value'', JDec (ri_order_value ri)),
      (''projected_cash'', JDec (ri_projected_cash ri)),
      (''current_position_value'', JDec (ri_current_position_value ri)),
      (''projected_position_value'', JDec (ri_projected_position_value ri)),
      (''projected_position_weight'', JDec (ri_projected_position_weight ri)),
      (''policy'', policy_metadata policy)]"

text \<open>
  \<open>on_intent\<close>: the decision, and the events published after it was saved. The two random texts
  are arguments.
\<close>

definition on_intent ::
  "pre_trade_policy \<Rightarrow> pre_trade_context \<Rightarrow> string \<Rightarrow> string \<Rightarrow> order_intent_event
    \<Rightarrow> (risk_decision_event \<times> event list) res" where
  "on_intent policy ctx uid1 uid2 oi =
     bind_res (pre_trade_risk_inputs oi ctx) (\<lambda>ri.
     bind_res (pre_trade_reasons oi ctx ri policy) (\<lambda>reasons.
       let passed = (reasons = []);
           decision_id = ''RISK-'' @ uid1;
           order_id = ''ORD-'' @ uid2;
           decision = \<lparr>rd_timestamp = oi_timestamp oi, rd_decision_id = decision_id,
             rd_intent_id = oi_intent_id oi, rd_passed = passed, rd_symbol = oi_symbol oi,
             rd_side = oi_side oi, rd_reasons = (if passed then [''approved''] else reasons),
             rd_resulting_order_id = (if passed then Some order_id else None),
             rd_severity = (if passed then ''info'' else ''warning''),
             rd_metadata = decision_metadata oi ctx ri policy\<rparr>
       in Inr (decision, [DecisionEv decision,
         if passed then OrderEv
           \<lparr>or_timestamp = oi_timestamp oi, or_order_id = order_id, or_symbol = oi_symbol oi,
            or_side = oi_side oi, or_order_type = MARKET, or_quantity = oi_quantity oi,
            or_price = Some (oi_reference_price oi), or_intent_id = Some (oi_intent_id oi),
            or_risk_decision_id = Some decision_id, or_execution_mode = pp_execution_mode policy,
            or_asset_class = oi_asset_class oi\<rparr>
         else AlertEv
           \<lparr>ra_timestamp = oi_timestamp oi, ra_alert_id = decision_id, ra_rule_name = ''pre_trade'',
            ra_severity = ''warning'', ra_message = join_texts ''; '' reasons,
            ra_symbol = Some (oi_symbol oi), ra_order_id = None\<rparr>])))"

definition preview_pre_trade_risk ::
  "pre_trade_policy option \<Rightarrow> pre_trade_context \<Rightarrow> order_intent_event \<Rightarrow> json_object res" where
  "preview_pre_trade_risk policy ctx oi =
     (let p = (case policy of None \<Rightarrow> default_policy | Some p \<Rightarrow> p) in
      bind_res (pre_trade_risk_inputs oi ctx) (\<lambda>ri.
      bind_res (pre_trade_reasons oi ctx ri p) (\<lambda>reasons.
        let passed = (reasons = []) in
        Inr [(''schema_version'', JText ''karkinos.pre_trade_risk_preview.v1''), (''passed'', JBool passed),
          (''status'', JText (if passed then ''passed'' else ''blocked'')),
          (''severity'', JText (if passed then ''info'' else ''warning'')),
          (''reasons'', JTexts (if passed then [''approved''] else reasons)),
          (''manual_confirmation_required'', JBool True), (''does_not_create_order'', JBool True),
          (''does_not_persist_decision'', JBool True),
          (''metadata'', JObject (decision_metadata oi ctx ri p))])))"

section \<open>What the gate releases\<close>

lemma pre_trade_risk_inputs_total: "\<exists>ri. pre_trade_risk_inputs oi ctx = Inr ri"
proof (cases "dlt DZERO (pc_total_equity ctx)")
  case True
  then have "val (pc_total_equity ctx) \<noteq> 0" by (simp add: val_simps)
  then have "\<exists>w. ddiv a (pc_total_equity ctx) = Inr w" for a using val_ddiv by blast
  then show ?thesis using True
    by (cases "oi_side oi") (auto simp: pre_trade_risk_inputs_def Let_def bind_res_eq_Inr)
qed (simp add: pre_trade_risk_inputs_def Let_def)

lemma risk_inputs_facts:
  assumes "pre_trade_risk_inputs oi ctx = Inr ri"
  shows "ri_order_value ri = dmul (oi_quantity oi) (oi_reference_price oi)"
    and "oi_side oi = BUY \<Longrightarrow> ri_projected_cash ri = dsub (pc_cash ctx) (ri_order_value ri)"
  using assms by (auto simp: pre_trade_risk_inputs_def Let_def bind_res_eq_Inr)

lemma no_reasons:
  assumes "pre_trade_reasons oi ctx ri policy = Inr []"
  shows "0 < val (oi_quantity oi) \<and> 0 < val (oi_reference_price oi) \<and> 0 < val (ri_order_value ri) \<and>
    oi_symbol oi \<notin> set (pc_blacklist ctx) \<and> oi_symbol oi \<notin> set (pc_st_symbols ctx) \<and>
    (oi_side oi = BUY \<longrightarrow> \<not> pc_kill_switch_enabled ctx \<and>
       val (pp_min_cash_reserve policy) \<le> val (ri_projected_cash ri)) \<and>
    (\<forall>m. pp_max_order_notional policy = Some m \<longrightarrow> val (ri_order_value ri) \<le> val m) \<and>
    (\<forall>m. pp_max_position_weight policy = Some m \<longrightarrow> val (ri_projected_position_weight ri) \<le> val m) \<and>
    dict_get_default (pc_data_quality_issues ctx) (oi_symbol oi) [] = []"
  using assms unfolding pre_trade_reasons_def
  by (auto simp: bind_res_eq_Inr val_simps not_le not_less split: if_splits option.splits)

lemma reasons_long:
  assumes "pre_trade_reasons oi ctx ri policy = Inr rs"
  shows "list_all (\<lambda>r. 8 < length r) rs"
proof -
  have q: "list_all (\<lambda>r. 8 < length r) (map quality_reason is)" for "is"
    by (simp add: quality_reason_def list_all_iff)
  show ?thesis using assms unfolding pre_trade_reasons_def bind_res_eq_Inr
    by (auto simp: q split: option.split)
qed

section \<open>Properties\<close>





end
