(* ===== verification/Distributions.thy ===== *)
theory Distributions
  imports Portfolios
begin

text \<open>
  \<open>backtest/distributions.py\<close>: reported stock distributions and their replay over the sessions of a
  backtest. The replay schedules; the portfolio owns the money. An exception of the replay leaves
  the run, so its operations return the new replay and portfolio or the exception. Timestamps are
  instants (UTC); the Shanghai wall clock is eight hours ahead, as it has been since 1991. Reading
  the terms from persisted evidence (\<open>distributions_from_evidence\<close>) and the report (\<open>evidence\<close>) are
  not modelled. The lemmas show that a session boundary can be replayed without effect, and that
  entitlements follow the record-date holding.
\<close>

definition day_micros :: int where "day_micros = 86400000000"

definition shanghai_time :: "timestamp \<Rightarrow> timestamp" where
  "shanghai_time t = t + 8 * 3600000000"

section \<open>Terms\<close>

definition total_share_rate :: "decimal \<Rightarrow> decimal \<Rightarrow> decimal res" where
  "total_share_rate bonus capitalized =
     (case dadd_trap_inexact bonus capitalized of
        None \<Rightarrow> Inl (ValueError ''share_distribution_terms_invalid'')
      | Some t \<Rightarrow> if dlt t DZERO then Inl (ValueError ''share_distribution_terms_invalid'') else Inr t)"

record stock_distribution =
  sd_action_id :: string
  sd_symbol :: symbol
  sd_record_date :: date
  sd_ex_date :: date
  sd_pay_date :: "date option"
  sd_cash_per_share :: decimal
  sd_available_at :: timestamp
  sd_bonus_per_share :: decimal
  sd_capitalized_per_share :: decimal
  sd_listing_date :: "date option"

definition shares_per_share :: "stock_distribution \<Rightarrow> decimal res" where
  "shares_per_share d = total_share_rate (sd_bonus_per_share d) (sd_capitalized_per_share d)"

definition date_missing_or_before :: "date option \<Rightarrow> date \<Rightarrow> bool" where
  "date_missing_or_before d limit = (case d of None \<Rightarrow> True | Some x \<Rightarrow> x < limit)"

definition make_stock_distribution :: "stock_distribution \<Rightarrow> stock_distribution res" where
  "make_stock_distribution d =
     (let invalid = Inl (ValueError ''cash_dividend_terms_invalid'') in
      if sd_action_id d = [] \<or> sd_symbol d = [] \<or> \<not> sd_record_date d < sd_ex_date d \<or>
         dlt (sd_cash_per_share d) DZERO \<or> dlt (sd_bonus_per_share d) DZERO \<or>
         dlt (sd_capitalized_per_share d) DZERO
      then invalid
      else bind_res (if deq (sd_cash_per_share d) DZERO
             then bind_res (shares_per_share d) (\<lambda>s. Inr (deq s DZERO)) else Inr False)
        (\<lambda>nothing.
          if nothing \<or> (dlt DZERO (sd_cash_per_share d) \<and> date_missing_or_before (sd_pay_date d) (sd_ex_date d))
          then invalid
          else bind_res (shares_per_share d) (\<lambda>s.
            if dlt DZERO s \<and> date_missing_or_before (sd_listing_date d) (sd_ex_date d) then invalid
            else Inr d)))"

section \<open>The replay\<close>

record replay =
  dr_distributions :: "stock_distribution list"
  dr_include_shares :: bool
  dr_eligible :: "(string, decimal) dict"
  dr_accrued :: "(string, decimal) dict"
  dr_paid :: "string set"
  dr_shares :: "(string, decimal) dict"
  dr_listed :: "string set"
  dr_execution_blocked_count :: nat

fun any_shares :: "stock_distribution list \<Rightarrow> bool res" where
  "any_shares [] = Inr False"
| "any_shares (d # ds) =
     bind_res (shares_per_share d) (\<lambda>s. if dlt DZERO s then Inr True else any_shares ds)"

definition new_replay :: "stock_distribution list \<Rightarrow> bool \<Rightarrow> replay res" where
  "new_replay ds include_shares =
     bind_res (if include_shares then Inr False else any_shares ds) (\<lambda>unsupported.
       if unsupported then Inl (ValueError ''cash_dividend_share_distribution_unsupported'')
       else if \<not> distinct (map sd_action_id ds) then Inl (ValueError ''cash_dividend_duplicate_action'')
       else if \<not> distinct (map (\<lambda>d. (sd_symbol d, sd_record_date d, sd_ex_date d)) ds)
       then Inl (ValueError ''cash_dividend_conflicting_implementation'')
       else Inr \<lparr>dr_distributions = ds, dr_include_shares = include_shares, dr_eligible = [],
              dr_accrued = [], dr_paid = {}, dr_shares = [], dr_listed = {},
              dr_execution_blocked_count = 0\<rparr>)"

text \<open>Every bar is a Shanghai close at 15:00, one per symbol and day.\<close>

fun collect_sessions :: "market_event list \<Rightarrow> (symbol \<times> date) list \<Rightarrow> (symbol \<times> date) list res" where
  "collect_sessions [] seen = Inr seen"
| "collect_sessions (e # es) seen =
     (let local = shanghai_time (me_timestamp e); key = (me_symbol e, day_of local) in
      if local mod day_micros \<noteq> 15 * 3600000000 \<or> key \<in> set seen
      then Inl (ValueError ''cash_dividend_daily_close_required'')
      else collect_sessions es (seen @ [key]))"

definition validate_item ::
  "(symbol \<times> date) list \<Rightarrow> bool \<Rightarrow> stock_distribution \<Rightarrow> unit \<Rightarrow> unit res" where
  "validate_item sessions observed d u =
     (let days = map snd sessions; first = Min (set days); final = Max (set days);
          dates = [Some (sd_record_date d), Some (sd_ex_date d), sd_listing_date d]
      in if sd_symbol d \<notin> set (map fst sessions) then Inl (ValueError ''cash_dividend_symbol_missing'')
      else if list_ex (\<lambda>x. case x of None \<Rightarrow> False
             | Some day \<Rightarrow> first \<le> day \<and> day \<le> final \<and> (sd_symbol d, day) \<notin> set sessions) dates
      then Inl (ValueError ''cash_dividend_required_session_missing'')
      else if observed \<and> first \<le> sd_ex_date d \<and> sd_ex_date d \<le> final \<and>
              sd_ex_date d * day_micros + 15 * 3600000000 < shanghai_time (sd_available_at d)
      then Inl (ValueError ''cash_dividend_historical_availability_unverified'')
      else Inr ())"

definition validate_events :: "market_event list \<Rightarrow> bool \<Rightarrow> replay \<Rightarrow> unit res" where
  "validate_events events observed r =
     bind_res (collect_sessions events []) (\<lambda>sessions.
       if sessions = [] then Inl (ValueError ''cash_dividend_bars_required'')
       else fold_res (validate_item sessions observed) (dr_distributions r) ())"

definition date_reached :: "date option \<Rightarrow> date \<Rightarrow> bool" where
  "date_reached d day = (case d of None \<Rightarrow> False | Some x \<Rightarrow> x \<le> day)"

definition eligible_of :: "replay \<Rightarrow> string \<Rightarrow> decimal" where
  "eligible_of r a = dict_get_default (dr_eligible r) a DZERO"

definition accrue_item :: "date \<Rightarrow> stock_distribution \<Rightarrow> replay \<times> portfolio \<Rightarrow> (replay \<times> portfolio) res" where
  "accrue_item day d s = (case s of (r, pf) \<Rightarrow>
     if sd_ex_date d \<le> day \<and> dict_get (dr_accrued r) (sd_action_id d) = None
     then bind_res (accrue_cash_dividend (sd_action_id d) (sd_symbol d)
            (Num (eligible_of r (sd_action_id d))) (Num (sd_cash_per_share d)) pf)
       (\<lambda>(amount, pf1).
         let r1 = r\<lparr>dr_accrued := dict_put (sd_action_id d) amount (dr_accrued r)\<rparr> in
         bind_res (shares_per_share d) (\<lambda>rate.
           if dlt DZERO rate
           then bind_res (accrue_share_award (sd_action_id d) (sd_symbol d)
                  (Num (eligible_of r1 (sd_action_id d))) (Num rate) pf1)
             (\<lambda>(q, pf2). Inr (r1\<lparr>dr_shares := dict_put (sd_action_id d) q (dr_shares r1)\<rparr>, pf2))
           else Inr (r1, pf1)))
     else Inr (r, pf))"

definition pay_item :: "date \<Rightarrow> stock_distribution \<Rightarrow> replay \<times> portfolio \<Rightarrow> (replay \<times> portfolio) res" where
  "pay_item day d s = (case s of (r, pf) \<Rightarrow>
     if dlt DZERO (sd_cash_per_share d) \<and> date_reached (sd_pay_date d) day \<and> sd_action_id d \<notin> dr_paid r
     then bind_res (pay_cash_dividend (sd_action_id d) pf) (\<lambda>(_, pf1).
       Inr (r\<lparr>dr_paid := insert (sd_action_id d) (dr_paid r)\<rparr>, pf1))
     else Inr (r, pf))"

definition list_item :: "date \<Rightarrow> stock_distribution \<Rightarrow> replay \<times> portfolio \<Rightarrow> (replay \<times> portfolio) res" where
  "list_item day d s = (case s of (r, pf) \<Rightarrow>
     bind_res (shares_per_share d) (\<lambda>rate.
       if dlt DZERO rate \<and> date_reached (sd_listing_date d) day \<and> sd_action_id d \<notin> dr_listed r
       then bind_res (release_share_award (sd_action_id d) pf) (\<lambda>(_, pf1).
         Inr (r\<lparr>dr_listed := insert (sd_action_id d) (dr_listed r)\<rparr>, pf1))
       else Inr (r, pf)))"

definition session_item :: "date \<Rightarrow> stock_distribution \<Rightarrow> replay \<times> portfolio \<Rightarrow> (replay \<times> portfolio) res" where
  "session_item day d s = bind_res (accrue_item day d s) (\<lambda>s1. bind_res (pay_item day d s1) (list_item day d))"

definition before_session :: "date \<Rightarrow> replay \<times> portfolio \<Rightarrow> (replay \<times> portfolio) res" where
  "before_session day s = fold_res (session_item day) (dr_distributions (fst s)) s"

definition record_item :: "date \<Rightarrow> portfolio \<Rightarrow> stock_distribution \<Rightarrow> replay \<Rightarrow> replay res" where
  "record_item day pf d r =
     (if sd_record_date d = day then
        let quantity = (case dict_get (pf_positions pf) (sd_symbol d) of None \<Rightarrow> DZERO | Some p \<Rightarrow> po_quantity p) in
        bind_res (share_distribution_quantity (Num quantity) (Num (sd_bonus_per_share d))) (\<lambda>_.
        bind_res (share_distribution_quantity (Num quantity) (Num (sd_capitalized_per_share d))) (\<lambda>_.
          Inr (r\<lparr>dr_eligible := dict_put (sd_action_id d) quantity (dr_eligible r)\<rparr>)))
      else Inr r)"

definition after_session :: "date \<Rightarrow> portfolio \<Rightarrow> replay \<Rightarrow> replay res" where
  "after_session day pf r = fold_res (record_item day pf) (dr_distributions r) r"

definition blocks_execution :: "symbol \<Rightarrow> date \<Rightarrow> replay \<Rightarrow> bool \<times> replay" where
  "blocks_execution s day r =
     (let blocked = list_ex (\<lambda>d. sd_symbol d = s \<and> sd_ex_date d = day) (dr_distributions r) in
      (blocked, if blocked then r\<lparr>dr_execution_blocked_count := dr_execution_blocked_count r + 1\<rparr> else r))"

section \<open>A session boundary is settled once\<close>

definition shares_due :: "date \<Rightarrow> stock_distribution \<Rightarrow> bool" where
  "shares_due day d =
     (case shares_per_share d of Inl _ \<Rightarrow> False
      | Inr rate \<Rightarrow> dlt DZERO rate \<and> date_reached (sd_listing_date d) day)"

definition item_settled :: "date \<Rightarrow> stock_distribution \<Rightarrow> replay \<Rightarrow> bool" where
  "item_settled day d r =
    ((sd_ex_date d \<le> day \<longrightarrow> dict_get (dr_accrued r) (sd_action_id d) \<noteq> None) \<and>
     (dlt DZERO (sd_cash_per_share d) \<and> date_reached (sd_pay_date d) day \<longrightarrow> sd_action_id d \<in> dr_paid r) \<and>
     (\<not> isl (shares_per_share d)) \<and>
     (shares_due day d \<longrightarrow> sd_action_id d \<in> dr_listed r))"

text \<open>What a replay has recognised, paid and listed only grows.\<close>

definition grows :: "replay \<Rightarrow> replay \<Rightarrow> bool" where
  "grows r r' = (dom (dict_get (dr_accrued r)) \<subseteq> dom (dict_get (dr_accrued r')) \<and>
     dr_paid r \<subseteq> dr_paid r' \<and> dr_listed r \<subseteq> dr_listed r' \<and> dr_distributions r' = dr_distributions r \<and>
     dr_eligible r' = dr_eligible r)"

lemma grows_refl [simp]: "grows r r"
  by (simp add: grows_def)

lemma grows_trans: "grows a b \<Longrightarrow> grows b c \<Longrightarrow> grows a c"
  by (auto simp: grows_def)

lemma accrue_item_grows:
  assumes "accrue_item day d (r, pf) = Inr (r', pf')"
  shows "grows r r' \<and> (sd_ex_date d \<le> day \<longrightarrow> dict_get (dr_accrued r') (sd_action_id d) \<noteq> None)"
  using assms
  by (auto simp: accrue_item_def bind_res_eq_Inr Let_def grows_def split: if_splits)

lemma pay_item_grows:
  assumes "pay_item day d (r, pf) = Inr (r', pf')"
  shows "grows r r' \<and>
    (dlt DZERO (sd_cash_per_share d) \<and> date_reached (sd_pay_date d) day \<longrightarrow> sd_action_id d \<in> dr_paid r')"
  using assms by (auto simp: pay_item_def bind_res_eq_Inr grows_def split: if_splits)

lemma list_item_grows:
  assumes "list_item day d (r, pf) = Inr (r', pf')"
  shows "grows r r' \<and> \<not> isl (shares_per_share d) \<and> (shares_due day d \<longrightarrow> sd_action_id d \<in> dr_listed r')"
proof (cases "shares_per_share d")
  case (Inr rate)
  show ?thesis
  proof (cases "dlt DZERO rate \<and> date_reached (sd_listing_date d) day \<and> sd_action_id d \<notin> dr_listed r")
    case True
    with assms Inr show ?thesis by (auto simp: list_item_def bind_res_eq_Inr grows_def)
  next
    case False
    with assms Inr have "r' = r" by (simp add: list_item_def)
    with False Inr show ?thesis by (auto simp: shares_due_def)
  qed
qed (use assms in \<open>simp add: list_item_def\<close>)

lemma item_settled_grows: "item_settled day d r \<Longrightarrow> grows r r' \<Longrightarrow> item_settled day d r'"
  by (auto simp: item_settled_def grows_def)

lemma session_item_settles:
  assumes "session_item day d (r, pf) = Inr (r', pf')"
  shows "grows r r' \<and> item_settled day d r'"
proof -
  obtain r1 pf1 r2 pf2 where 1: "accrue_item day d (r, pf) = Inr (r1, pf1)"
    and 2: "pay_item day d (r1, pf1) = Inr (r2, pf2)" and 3: "list_item day d (r2, pf2) = Inr (r', pf')"
    using assms by (auto simp: session_item_def bind_res_eq_Inr)
  note g = accrue_item_grows[OF 1] pay_item_grows[OF 2] list_item_grows[OF 3]
  have g12: "grows r1 r'" using g grows_trans by blast
  have g23: "grows r2 r'" using g by blast
  have "sd_ex_date d \<le> day \<Longrightarrow> dict_get (dr_accrued r') (sd_action_id d) \<noteq> None"
    using g(1) g12 by (auto simp: grows_def)
  moreover have "dlt DZERO (sd_cash_per_share d) \<Longrightarrow> date_reached (sd_pay_date d) day \<Longrightarrow> sd_action_id d \<in> dr_paid r'"
    using g(2) g23 by (auto simp: grows_def)
  ultimately show ?thesis using g g12 grows_trans by (auto simp: item_settled_def)
qed

lemma settled_item_noop: "item_settled day d r \<Longrightarrow> session_item day d (r, pf) = Inr (r, pf)"
  by (auto simp: session_item_def accrue_item_def pay_item_def list_item_def item_settled_def
      shares_due_def isl_def split: sum.splits)

lemma session_fold_settles:
  assumes "fold_res (session_item day) ds (r, pf) = Inr (r', pf')"
  shows "grows r r' \<and> (\<forall>d \<in> set ds. item_settled day d r')"
  using assms
proof (induction ds arbitrary: r pf)
  case (Cons d ds)
  from Cons.prems obtain r1 pf1 where s: "session_item day d (r, pf) = Inr (r1, pf1)"
    and rest: "fold_res (session_item day) ds (r1, pf1) = Inr (r', pf')"
    by (auto simp: bind_res_eq_Inr)
  from Cons.IH[OF rest] session_item_settles[OF s] show ?case
    using grows_trans item_settled_grows by auto
qed simp

lemma settled_fold_noop:
  "\<forall>d \<in> set ds. item_settled day d r \<Longrightarrow> fold_res (session_item day) ds (r, pf) = Inr (r, pf)"
  by (induction ds) (simp_all add: settled_item_noop)

section \<open>Entitlements follow the record date\<close>

lemma record_fold_eligible:
  assumes "fold_res (record_item day pf) ds r = Inr r'" "distinct (map sd_action_id ds)"
  shows "dict_get (dr_eligible r') a =
    (case find (\<lambda>d. sd_action_id d = a \<and> sd_record_date d = day) ds of
       None \<Rightarrow> dict_get (dr_eligible r) a
     | Some d \<Rightarrow> Some (case dict_get (pf_positions pf) (sd_symbol d) of None \<Rightarrow> DZERO | Some p \<Rightarrow> po_quantity p))"
  using assms
proof (induction ds arbitrary: r)
  case (Cons d ds)
  from Cons.prems obtain r1 where s: "record_item day pf d r = Inr r1"
    and rest: "fold_res (record_item day pf) ds r1 = Inr r'" by (auto simp: bind_res_eq_Inr)
  note IH = Cons.IH[OF rest]
  show ?case
  proof (cases "sd_record_date d = day \<and> sd_action_id d = a")
    case True
    then have "find (\<lambda>d. sd_action_id d = a \<and> sd_record_date d = day) ds = None"
      using Cons.prems(2) by (auto simp: find_None_iff rev_image_eqI)
    with IH Cons.prems(2) True s show ?thesis
      by (auto simp: record_item_def Let_def bind_res_eq_Inr)
  next
    case False
    with s have "dict_get (dr_eligible r1) a = dict_get (dr_eligible r) a"
      by (auto simp: record_item_def Let_def bind_res_eq_Inr split: if_splits)
    with IH Cons.prems(2) False show ?thesis by (auto split: option.split)
  qed
qed simp

section \<open>Properties\<close>

text \<open>Settling the start of a session is idempotent: when it succeeds, doing it again for the same
  day recognises, pays and lists nothing more and leaves the replay and the portfolio as they are.\<close>

theorem before_session_idempotent:
  assumes "before_session day (r, pf) = Inr (r', pf')"
  shows "before_session day (r', pf') = Inr (r', pf')"
proof -
  have s: "fold_res (session_item day) (dr_distributions r) (r, pf) = Inr (r', pf')"
    using assms by (simp add: before_session_def)
  from session_fold_settles[OF s] have "dr_distributions r' = dr_distributions r"
    and "\<forall>d \<in> set (dr_distributions r'). item_settled day d r'" by (auto simp: grows_def)
  then show ?thesis using settled_fold_noop by (simp add: before_session_def)
qed

definition sample_distribution :: stock_distribution where
  "sample_distribution = \<lparr>sd_action_id = ''d'', sd_symbol = ''600000'', sd_record_date = 10, sd_ex_date = 11,
     sd_pay_date = Some 11, sd_cash_per_share = Decimal 5 (- 1), sd_available_at = 0,
     sd_bonus_per_share = DZERO, sd_capitalized_per_share = DZERO, sd_listing_date = None\<rparr>"

definition sample_replay :: replay where
  "sample_replay = \<lparr>dr_distributions = [sample_distribution], dr_include_shares = False,
     dr_eligible = [(''d'', Decimal 100 0)], dr_accrued = [], dr_paid = {}, dr_shares = [], dr_listed = {},
     dr_execution_blocked_count = 0\<rparr>"

lemma before_session_idempotent_example:
  "\<exists>r pf. before_session 11 (sample_replay, new_portfolio DZERO) = Inr (r, pf) \<and>
     before_session 11 (r, pf) = Inr (r, pf) \<and> val (pf_cash pf) = 50"
proof -
  let ?r = "before_session 11 (sample_replay, new_portfolio DZERO)"
  have "case ?r of Inr (_, pf) \<Rightarrow> deq (pf_cash pf) (Decimal 50 0) | Inl _ \<Rightarrow> False" by code_simp
  then obtain r pf where s: "?r = Inr (r, pf)" "deq (pf_cash pf) (Decimal 50 0)"
    by (auto split: sum.splits)
  with before_session_idempotent[OF s(1)] show ?thesis by (auto simp: val_simps)
qed

text \<open>The entitlement of a distribution is fixed by the holding at the close of its record date:
  closing that session records exactly the quantity the portfolio then holds, and closing any
  other session leaves the recorded entitlement alone.\<close>

theorem entitlement_is_record_date_holding:
  assumes "after_session day pf r = Inr r'" "distinct (map sd_action_id (dr_distributions r))"
    and "d \<in> set (dr_distributions r)"
  shows "dict_get (dr_eligible r') (sd_action_id d) =
    (if sd_record_date d = day then Some (po_quantity (position_of pf (sd_symbol d)))
     else dict_get (dr_eligible r) (sd_action_id d))"
proof -
  have same: "d' = d" if "d' \<in> set (dr_distributions r)" "sd_action_id d' = sd_action_id d" for d'
    using assms(2,3) that by (metis distinct_map inj_onD)
  have "find (\<lambda>d'. sd_action_id d' = sd_action_id d \<and> sd_record_date d' = day) (dr_distributions r) =
      (if sd_record_date d = day then Some d else None)" (is "?f = _")
  proof (cases ?f)
    case None
    then show ?thesis using assms(3) by (auto simp: find_None_iff)
  next
    case (Some d')
    then have "d' \<in> set (dr_distributions r)" "sd_action_id d' = sd_action_id d" "sd_record_date d' = day"
      by (auto simp: find_Some_iff)
    with same Some show ?thesis by auto
  qed
  then show ?thesis
    using record_fold_eligible[of day pf "dr_distributions r" r r' "sd_action_id d"] assms(1,2)
    by (auto simp: after_session_def position_of_def dict_get_default_def new_position_def split: option.splits)
qed

lemma entitlement_is_record_date_holding_example:
  "\<exists>r'. after_session 10 ((new_portfolio DZERO)\<lparr>pf_positions :=
      [(''600000'', (new_position ''600000'')\<lparr>po_quantity := Decimal 300 0\<rparr>)]\<rparr>) sample_replay = Inr r' \<and>
    dict_get (dr_eligible r') ''d'' = Some (Decimal 300 0)"
proof -
  let ?pf = "(new_portfolio DZERO)\<lparr>pf_positions :=
      [(''600000'', (new_position ''600000'')\<lparr>po_quantity := Decimal 300 0\<rparr>)]\<rparr>"
  have "\<not> isl (after_session 10 ?pf sample_replay)" by code_simp
  then obtain r' where r': "after_session 10 ?pf sample_replay = Inr r'"
    by (cases "after_session 10 ?pf sample_replay") auto
  from entitlement_is_record_date_holding[OF r', of sample_distribution] r' show ?thesis
    by (simp add: sample_replay_def sample_distribution_def position_of_def dict_get_default_def new_portfolio_def)
qed

end
