(* ===== verification/Engine.thy ===== *)
theory Engine
  imports Fees Risk_Gate Distributions
begin

text \<open>
  \<open>backtest/engine.py\<close>: the backtest loop that connects strategy, portfolio, risk rules, simulated
  execution and the event bus. The world is the bus beside the engine's state. Handlers are the
  subscribed methods, named by \<open>handler\<close>; \<open>run_handler\<close> gives each its effect, with fuel for the
  nesting of dispatches (a handler may publish and drain). \<open>None\<close> means that the run does not
  return (or that the fuel is too small); a raised exception is returned beside the world that it
  leaves behind.

  The strategy is a parameter: four callbacks that see and change the strategy's own state and
  publish events on the bus. The risk rules are a parameter. Random identifiers are drawn from a
  supply. Not modelled: the result document (\<open>_build_result\<close>) and the identity checks on data
  handler objects of the streaming path; its merge is in theory \<open>Replay_Streams\<close>.
\<close>

section \<open>Configuration and state\<close>

type_synonym 's callback = "'s \<Rightarrow> 's \<times> event list \<times> py_exc option"

record 's strategy_ops =
  st_on_init :: "symbol list \<Rightarrow> 's callback"
  st_on_data :: "market_event \<Rightarrow> 's callback"
  st_on_fill :: "fill_event \<Rightarrow> 's callback"
  st_on_position_update :: "symbol \<Rightarrow> decimal \<Rightarrow> 's callback"

datatype engine_commission = MultiCommission multi_asset_commission | SingleCommission commission_calculator

record 's config =
  cf_ops :: "'s strategy_ops"
  cf_rules :: "risk_rule list"
  cf_slippage :: slippage_model
  cf_commission :: engine_commission
  cf_max_participation :: "decimal option"
  cf_evaluation_start :: "date option"
  cf_warmup_final_bar_targets :: bool
  cf_observed :: bool
  cf_strict :: bool
  cf_initial_cash :: decimal
  cf_distributions :: "stock_distribution list option"
  cf_include_shares :: bool
  cf_persist :: bool
  cf_session_decision :: "(date \<Rightarrow> 's callback) option"
  cf_session_completed :: "(date \<Rightarrow> py_exc option) option"
  cf_uids :: "nat \<Rightarrow> string"

text \<open>The rows written to the database, in order: order, fill and status update.\<close>

datatype engine_row =
    RowOrder order_event asset_class
  | RowFill fill_event asset_class
  | RowStatus string string

record 's engine =
  en_strategy :: 's
  en_portfolio :: portfolio
  en_clock :: simulated_clock
  en_instruments :: "(symbol, instrument) dict"
  en_warming_up :: bool
  en_warmup_targets :: "(symbol, timestamp) dict"
  en_fills :: "fill_event list"
  en_replay :: "replay option"
  en_pending :: "(symbol, signal_event) dict"
  en_current :: "market_event option"
  en_previous_close :: "(symbol, decimal) dict"
  en_limit_blocked :: nat
  en_suspension_blocked :: nat
  en_risk_blocked :: nat
  en_cash_blocked :: nat
  en_capacity_blocked :: nat
  en_cash_resized :: nat
  en_bar_filled :: "(symbol \<times> timestamp, decimal) dict"
  en_capacity_resized :: nat
  en_capacity_unfilled :: decimal
  en_value :: account_value
  en_rows :: "engine_row list"
  en_uid :: nat

datatype handler =
    H_portfolio_on_signal | H_portfolio_on_fill | H_on_portfolio_fill | H_on_signal
  | H_strategy_on_fill | H_on_position_fill | H_risk_on_order | H_risk_on_fill
  | H_on_market_event | H_on_order_intent_event | H_on_order_event

type_synonym engine_bus = "(event_class, handler, event) bus"
type_synonym 's eworld = "(event_class, handler, event, 's engine) world"
type_synonym 's eoutcome = "(event_class, handler, event, 's engine) outcome"
type_synonym 's action = "'s eworld \<Rightarrow> 's eoutcome"

text \<open>The subscriptions made by the constructors of the engine and of its components, in order.\<close>

definition engine_table :: "engine_bus \<Rightarrow> engine_bus" where
  "engine_table b =
     (let b = subscribe C_Fill H_portfolio_on_fill 0 (subscribe C_Signal H_portfolio_on_signal 0 b);
          b = subscribe C_Fill H_on_portfolio_fill 0 (unsubscribe C_Fill H_portfolio_on_fill b);
          b = subscribe C_Signal H_on_signal 0 (unsubscribe C_Signal H_portfolio_on_signal b);
          b = subscribe C_Fill H_on_position_fill 0 (subscribe C_Fill H_strategy_on_fill 0 b);
          b = subscribe C_Fill H_risk_on_fill 0 (subscribe C_Order H_risk_on_order (- 10) b);
          b = unsubscribe C_Order H_risk_on_order (unsubscribe C_Fill H_risk_on_fill b)
      in subscribe C_Order H_on_order_event 0
          (subscribe C_Intent H_on_order_intent_event 0 (subscribe C_Market H_on_market_event 0 b)))"

section \<open>Sequencing\<close>

definition skip :: "'s action" where
  "skip w = Some (w, None)"

definition raise_exc :: "py_exc \<Rightarrow> 's action" where
  "raise_exc e w = Some (w, Some e)"

definition then_do :: "'s action \<Rightarrow> 's action \<Rightarrow> 's action" where
  "then_do f g w = (case f w of
     None \<Rightarrow> None
   | Some (w', Some e) \<Rightarrow> Some (w', Some e)
   | Some (w', None) \<Rightarrow> g w')"

fun for_each :: "('a \<Rightarrow> 's action) \<Rightarrow> 'a list \<Rightarrow> 's action" where
  "for_each f [] = skip"
| "for_each f (x # xs) = then_do (f x) (for_each f xs)"

definition update_engine :: "('s engine \<Rightarrow> 's engine) \<Rightarrow> 's action" where
  "update_engine f w = Some ((fst w, f (snd w)), None)"

definition try_engine :: "('s engine \<Rightarrow> 's engine res) \<Rightarrow> 's action" where
  "try_engine f w = (case f (snd w) of
     Inl e \<Rightarrow> Some (w, Some e) | Inr en \<Rightarrow> Some ((fst w, en), None))"

definition publish_event :: "event \<Rightarrow> 's action" where
  "publish_event e w = Some ((publish e (fst w), snd w), None)"

definition call_strategy :: "'s callback \<Rightarrow> 's action" where
  "call_strategy f w = (case f (en_strategy (snd w)) of
     (s, evs, exc) \<Rightarrow> Some ((fold publish evs (fst w), (snd w)\<lparr>en_strategy := s\<rparr>), exc))"

section \<open>Prices, dates and fills\<close>

definition known_market_price :: "symbol \<Rightarrow> 's engine \<Rightarrow> decimal option" where
  "known_market_price s en = (case en_current en of
     Some bar \<Rightarrow> if me_symbol bar = s then Some (me_close bar) else dict_get (en_previous_close en) s
   | None \<Rightarrow> dict_get (en_previous_close en) s)"

definition session_date :: "'s engine \<Rightarrow> market_event \<Rightarrow> date" where
  "session_date en e = (if en_replay en \<noteq> None then day_of (shanghai_time (me_timestamp e))
     else day_of (me_timestamp e))"

definition set_value :: "'s engine \<Rightarrow> 's engine" where
  "set_value en = en\<lparr>en_value := (total_equity (en_portfolio en), pf_cash (en_portfolio en))\<rparr>"

definition on_portfolio_fill :: "fill_event \<Rightarrow> 's action" where
  "on_portfolio_fill ev w =
     (case known_market_price (fl_symbol ev) (snd w) of
        None \<Rightarrow> Some (w, Some (ValueError ''backtest_fill_market_price_missing''))
      | Some market_price \<Rightarrow>
         (case on_fill ev (en_portfolio (snd w)) of
            (pf, Some e) \<Rightarrow> Some ((fst w, (snd w)\<lparr>en_portfolio := pf\<rparr>), Some e)
          | (pf, None) \<Rightarrow> Some ((fst w, set_value ((snd w)\<lparr>en_portfolio :=
              mark_prices [(fl_symbol ev, market_price)] pf\<rparr>)), None)))"

definition on_position_fill :: "'s config \<Rightarrow> fill_event \<Rightarrow> 's action" where
  "on_position_fill cfg ev w =
     (case dict_get (pf_positions (en_portfolio (snd w))) (fl_symbol ev) of
        None \<Rightarrow> Some (w, Some (KeyError (fl_symbol ev)))
      | Some p \<Rightarrow> call_strategy (st_on_position_update (cf_ops cfg) (fl_symbol ev) (po_quantity p)) w)"

section \<open>Signals and intents\<close>

definition on_signal_event :: "'s config \<Rightarrow> signal_event \<Rightarrow> 's action" where
  "on_signal_event cfg ev w =
     (let en = snd w in
      case en_current en of
        None \<Rightarrow> Some (w, None)
      | Some bar \<Rightarrow>
          if en_warming_up en \<and> (\<not> cf_warmup_final_bar_targets cfg \<or>
               dict_get (en_warmup_targets en) (sg_symbol ev) \<noteq> Some (me_timestamp bar))
          then Some (w, None)
          else Some ((fst w, en\<lparr>en_pending := dict_put (sg_symbol ev)
                 (ev\<lparr>sg_timestamp := max (sg_timestamp ev) (me_timestamp bar)\<rparr>) (en_pending en)\<rparr>), None))"

definition on_order_intent_event :: "'s config \<Rightarrow> order_intent_event \<Rightarrow> 's action" where
  "on_order_intent_event cfg oi w =
     (let en = snd w in
      if en_warming_up en then Some (w, None)
      else Some ((publish (OrderEv
         \<lparr>or_timestamp = oi_timestamp oi, or_order_id = ''ORD-'' @ cf_uids cfg (en_uid en + 1),
          or_symbol = oi_symbol oi, or_side = oi_side oi, or_order_type = MARKET,
          or_quantity = oi_quantity oi, or_price = Some (oi_reference_price oi),
          or_intent_id = Some (oi_intent_id oi),
          or_risk_decision_id = Some (''BACKTEST-RISK-'' @ cf_uids cfg (en_uid en)),
          or_execution_mode = ''paper'', or_asset_class = None\<rparr>) (fst w), en\<lparr>en_uid := en_uid en + 2\<rparr>), None))"

section \<open>Orders\<close>

text \<open>The rules see the order that the rules before them may have modified.\<close>

fun apply_rules ::
  "risk_rule list \<Rightarrow> order_event \<Rightarrow> positions \<Rightarrow> account_value \<Rightarrow> risk_alert_event + order_event" where
  "apply_rules [] ord positions v = Inr ord"
| "apply_rules (r # rules) ord positions v =
     (let c = rr_check r ord positions v in
      if \<not> rc_passed c then Inl (risk_alert ord r c)
      else apply_rules rules (case rc_modified_order c of None \<Rightarrow> ord | Some ord' \<Rightarrow> ord') positions v)"

definition approved_order :: "'s config \<Rightarrow> order_event \<Rightarrow> 's eworld \<Rightarrow> order_event option \<times> 's eworld" where
  "approved_order cfg ord w =
     (let en = snd w; pf = en_portfolio en;
          blocked = en\<lparr>en_risk_blocked := en_risk_blocked en + 1\<rparr> in
      case apply_rules (cf_rules cfg) ord (pf_positions pf) (total_equity pf, pf_cash pf) of
        Inl alert \<Rightarrow> (None, (publish (AlertEv alert) (fst w), blocked))
      | Inr ord' \<Rightarrow>
          if or_side ord' = SELL \<and>
             dlt (case dict_get (pf_positions pf) (or_symbol ord') of None \<Rightarrow> DZERO | Some p \<Rightarrow> available_qty p)
               (or_quantity ord')
          then (None, (fst w, blocked))
          else (Some ord', w))"

definition tradeable_order :: "order_event \<Rightarrow> 's engine \<Rightarrow> (bool \<times> 's engine) res" where
  "tradeable_order ord en =
     (let risk_blocked = en\<lparr>en_risk_blocked := en_risk_blocked en + 1\<rparr> in
      case known_market_price (or_symbol ord) en of
        None \<Rightarrow> Inr (False, risk_blocked)
      | Some market_price \<Rightarrow>
        if dle market_price DZERO then Inr (False, risk_blocked)
        else (case (en_current en, dict_get (en_instruments en) (or_symbol ord)) of
          (Some bar, Some inst) \<Rightarrow>
            if me_symbol bar \<noteq> or_symbol ord then Inr (True, en)
            else
              let (ex_blocked, en1) = (case en_replay en of
                    None \<Rightarrow> (False, en)
                  | Some r \<Rightarrow> (case blocks_execution (or_symbol ord) (session_date en bar) r of
                      (blocked, r') \<Rightarrow> (blocked, en\<lparr>en_replay := Some r'\<rparr>)))
              in if ex_blocked then Inr (False, en1)
              else if in_type inst \<notin> {IT_STOCK, IT_ETF} then Inr (True, en1)
              else if is_suspended (me_volume bar)
              then Inr (False, en1\<lparr>en_suspension_blocked := en_suspension_blocked en1 + 1\<rparr>)
              else (case dict_get (en_previous_close en1) (or_symbol ord) of
                  None \<Rightarrow> Inr (True, en1)
                | Some previous \<Rightarrow>
                    if dle (in_limit_pct inst) DZERO then Inr (True, en1)
                    else bind_res
                      (if or_side ord = BUY
                       then is_limit_up (me_close bar) previous (in_limit_pct inst) (in_price_tick inst)
                       else is_limit_down (me_close bar) previous (in_limit_pct inst) (in_price_tick inst))
                      (\<lambda>blocked. Inr (\<not> blocked,
                        if blocked then en1\<lparr>en_limit_blocked := en_limit_blocked en1 + 1\<rparr> else en1)))
        | _ \<Rightarrow> Inr (True, en)))"

definition bar_filled_of :: "symbol \<Rightarrow> timestamp \<Rightarrow> 's engine \<Rightarrow> decimal" where
  "bar_filled_of s t en = dict_get_default (en_bar_filled en) (s, t) DZERO"

definition capacity_order :: "'s config \<Rightarrow> order_event \<Rightarrow> 's engine \<Rightarrow> (order_event option \<times> 's engine) res" where
  "capacity_order cfg ord en =
     (case cf_max_participation cfg of
        None \<Rightarrow> Inr (Some ord, en)
      | Some participation \<Rightarrow>
        if dle (or_quantity ord) DZERO
        then Inr (None, en\<lparr>en_risk_blocked := en_risk_blocked en + 1\<rparr>)
        else let no_capacity = en\<lparr>en_capacity_blocked := en_capacity_blocked en + 1,
                en_capacity_unfilled := dadd (en_capacity_unfilled en) (or_quantity ord)\<rparr> in
          (case (en_current en, dict_get (en_instruments en) (or_symbol ord)) of
            (Some bar, Some inst) \<Rightarrow>
              if me_symbol bar \<noteq> or_symbol ord then Inr (None, no_capacity)
              else
                let remaining = (if dlt DZERO (me_volume bar)
                      then dmax DZERO (dsub (dmul (me_volume bar) participation)
                        (bar_filled_of (me_symbol bar) (me_timestamp bar) en))
                      else DZERO)
                in bind_res (dfloordiv remaining (in_lot_size inst)) (\<lambda>n.
                  let lots = dmin (or_quantity ord) (dmul n (in_lot_size inst));
                      quantity = (if or_side ord = SELL \<and> dle (or_quantity ord) remaining
                        then or_quantity ord else lots);
                      en1 = (if dlt quantity (or_quantity ord)
                        then en\<lparr>en_capacity_unfilled :=
                               dadd (en_capacity_unfilled en) (dsub (or_quantity ord) quantity),
                             en_capacity_resized := en_capacity_resized en + 1\<rparr>
                        else en)
                  in if dle quantity DZERO
                     then Inr (None, en1\<lparr>en_capacity_blocked := en_capacity_blocked en1 + 1\<rparr>)
                     else Inr (Some (ord\<lparr>or_quantity := quantity\<rparr>), en1))
          | _ \<Rightarrow> Inr (None, no_capacity)))"

definition resolve_fill :: "'s config \<Rightarrow> instrument \<Rightarrow> string \<Rightarrow> order_event \<Rightarrow> fill_event" where
  "resolve_fill cfg inst uid ord =
     (case cf_commission cfg of
        SingleCommission c \<Rightarrow> execute (cf_slippage cfg) (breakdown c) uid ord
      | MultiCommission m \<Rightarrow>
          let fl = execute (cf_slippage cfg) (multi_breakdown m) uid ord;
              b = breakdown_for (in_commission_type inst) (fl_side fl) (fl_price fl) (fl_quantity fl)
                    (Some (fl_symbol fl)) m
          in fl\<lparr>fl_commission := fb_total_fee b, fl_fee_breakdown := Some (to_json_dict b),
               fl_fee_rule_id := Some (fb_fee_rule_id b), fl_fee_rule_version := Some (mc_fee_rule_version m)\<rparr>)"

definition next_quantity :: "decimal \<Rightarrow> decimal \<Rightarrow> decimal \<Rightarrow> decimal \<Rightarrow> decimal \<Rightarrow> decimal res" where
  "next_quantity lot cash fee price quantity =
     bind_res (ddiv (dsub cash fee) price) (\<lambda>x. bind_res (dfloordiv x lot) (\<lambda>n.
       Inr (dmin (dsub quantity lot) (dmul n lot))))"

text \<open>The loop of \<open>cash_funded_fill\<close>; the counter is the number of random texts drawn.\<close>

partial_function (option) fund_loop ::
  "'s config \<Rightarrow> instrument \<Rightarrow> order_event \<Rightarrow> decimal \<Rightarrow> nat \<Rightarrow> decimal
    \<Rightarrow> ((decimal \<times> fill_event) option res \<times> nat) option" where
  "fund_loop cfg inst ord cash u quantity =
     (if \<not> dlt DZERO quantity then Some (Inr None, u)
      else let fl = resolve_fill cfg inst (cf_uids cfg u) (ord\<lparr>or_quantity := quantity\<rparr>) in
        case total_trade_fee (fl_commission fl) (fl_fee_breakdown fl) of
          Inl e \<Rightarrow> Some (Inl e, Suc u)
        | Inr fee \<Rightarrow>
          if dle (fl_price fl) DZERO then Some (Inl (ValueError ''backtest_fill_cost_invalid''), Suc u)
          else let notional = dmul (fl_price fl) (fl_quantity fl);
                 cash_debit = (if or_side ord = BUY then dadd notional fee else dsub fee notional) in
            if dle cash_debit cash then Some (Inr (Some (quantity, fl)), Suc u)
            else if or_side ord = SELL then Some (Inr None, Suc u)
            else (case next_quantity (in_lot_size inst) cash fee (fl_price fl) quantity of
                Inl e \<Rightarrow> Some (Inl e, Suc u)
              | Inr q \<Rightarrow> fund_loop cfg inst ord cash (Suc u) q))"

definition cash_funded_fill ::
  "'s config \<Rightarrow> order_event \<Rightarrow> 's engine \<Rightarrow> ((order_event \<times> fill_event) option res \<times> 's engine) option" where
  "cash_funded_fill cfg ord en =
     (case dict_get (en_instruments en) (or_symbol ord) of
        None \<Rightarrow> Some (Inr None, en)
      | Some inst \<Rightarrow>
        if dle (or_quantity ord) DZERO then Some (Inr None, en)
        else case (if or_side ord = BUY
               then bind_res (dfloordiv (or_quantity ord) (in_lot_size inst)) (\<lambda>n. Inr (dmul n (in_lot_size inst)))
               else Inr (or_quantity ord)) of
          Inl e \<Rightarrow> Some (Inl e, en)
        | Inr quantity \<Rightarrow>
          (case fund_loop cfg inst ord (pf_cash (en_portfolio en)) (en_uid en) quantity of
            None \<Rightarrow> None
          | Some (Inl e, u) \<Rightarrow> Some (Inl e, en\<lparr>en_uid := u\<rparr>)
          | Some (Inr None, u) \<Rightarrow> Some (Inr None, en\<lparr>en_uid := u, en_cash_blocked := en_cash_blocked en + 1\<rparr>)
          | Some (Inr (Some (q, fl)), u) \<Rightarrow> Some (Inr (Some (ord\<lparr>or_quantity := q\<rparr>, fl)),
              en\<lparr>en_uid := u, en_cash_resized :=
                (if deq q (or_quantity ord) then en_cash_resized en else en_cash_resized en + 1)\<rparr>)))"

definition attempt_execution ::
  "'s config \<Rightarrow> order_event \<Rightarrow> 's engine \<Rightarrow> ((order_event \<times> fill_event) option res \<times> 's engine) option" where
  "attempt_execution cfg ord en =
     (case tradeable_order ord en of
        Inl e \<Rightarrow> Some (Inl e, en)
      | Inr (tradeable, en1) \<Rightarrow>
        if \<not> tradeable then Some (Inr None, en1)
        else (case capacity_order cfg ord en1 of
            Inl e \<Rightarrow> Some (Inl e, en1)
          | Inr (None, en2) \<Rightarrow> Some (Inr None, en2)
          | Inr (Some ord2, en2) \<Rightarrow> cash_funded_fill cfg ord2 en2))"

definition asset_class_for_order :: "order_event \<Rightarrow> 's engine \<Rightarrow> asset_class" where
  "asset_class_for_order ord en = (case dict_get (en_instruments en) (or_symbol ord) of
     None \<Rightarrow> AC_STOCK | Some inst \<Rightarrow> in_asset_class inst)"

definition write_row :: "'s config \<Rightarrow> engine_row \<Rightarrow> 's engine \<Rightarrow> 's engine" where
  "write_row cfg row en = (if cf_persist cfg then en\<lparr>en_rows := en_rows en @ [row]\<rparr> else en)"

definition record_fill_event :: "'s config \<Rightarrow> (event \<Rightarrow> 's action) \<Rightarrow> fill_event \<Rightarrow> order_event \<Rightarrow> 's action" where
  "record_fill_event cfg process fl ord =
     then_do (update_engine (\<lambda>en. (write_row cfg (RowFill fl (asset_class_for_order ord en)) en)
         \<lparr>en_fills := en_fills en @ [fl]\<rparr>))
     (then_do (process (FillEv fl))
       (update_engine (write_row cfg (RowStatus (or_order_id ord) ''filled''))))"

definition decision_event :: "order_event \<Rightarrow> string \<Rightarrow> string \<Rightarrow> order_event option \<Rightarrow> risk_decision_event" where
  "decision_event ev intent_id decision_id executed =
     \<lparr>rd_timestamp = or_timestamp ev, rd_decision_id = decision_id, rd_intent_id = intent_id,
      rd_passed = (executed \<noteq> None), rd_symbol = or_symbol ev, rd_side = or_side ev,
      rd_reasons = [if executed \<noteq> None then ''backtest_execution_rules_passed''
        else ''backtest_execution_rule_rejected''],
      rd_resulting_order_id = map_option or_order_id executed,
      rd_severity = (if executed \<noteq> None then ''info'' else ''warning''), rd_metadata = []\<rparr>"

definition add_bar_filled :: "order_event \<Rightarrow> fill_event \<Rightarrow> 's engine \<Rightarrow> 's engine" where
  "add_bar_filled ord fl en = (case en_current en of
     Some bar \<Rightarrow> if me_symbol bar = or_symbol ord
       then en\<lparr>en_bar_filled := dict_put (me_symbol bar, me_timestamp bar)
              (dadd (bar_filled_of (me_symbol bar) (me_timestamp bar) en) (fl_quantity fl)) (en_bar_filled en)\<rparr>
       else en
   | None \<Rightarrow> en)"

definition on_order_event :: "'s config \<Rightarrow> (event \<Rightarrow> 's action) \<Rightarrow> order_event \<Rightarrow> 's action" where
  "on_order_event cfg process ev w =
     (if en_warming_up (snd w) then Some (w, None)
      else case approved_order cfg ev w of (approved, w1) \<Rightarrow>
        (case (case approved of None \<Rightarrow> Some (Inr None, snd w1)
               | Some ord \<Rightarrow> attempt_execution cfg ord (snd w1)) of
          None \<Rightarrow> None
        | Some (Inl e, en2) \<Rightarrow> Some ((fst w1, en2), Some e)
        | Some (Inr execution, en2) \<Rightarrow>
            then_do
              (case (or_intent_id ev, or_risk_decision_id ev) of
                 (Some i, Some d) \<Rightarrow> publish_event (DecisionEv (decision_event ev i d (map_option fst execution)))
               | _ \<Rightarrow> skip)
              (case execution of
                 None \<Rightarrow> skip
               | Some (ord, fl) \<Rightarrow>
                   then_do (update_engine (\<lambda>en. write_row cfg (RowOrder ord (asset_class_for_order ord en))
                       (add_bar_filled ord fl en)))
                     (record_fill_event cfg process fl ord))
              (fst w1, en2)))"

section \<open>Bars\<close>

definition size_pending :: "'s config \<Rightarrow> signal_event \<Rightarrow> market_event \<Rightarrow> 's action" where
  "size_pending cfg pending ev w =
     (let en = (snd w)\<lparr>en_pending := dict_del (me_symbol ev) (en_pending (snd w))\<rparr> in
      case on_signal (cf_uids cfg (en_uid en))
          (pending\<lparr>sg_timestamp := me_timestamp ev, sg_price := Some (me_close ev)\<rparr>) (en_portfolio en) of
        None \<Rightarrow> None
      | Some (Inl e) \<Rightarrow> Some ((fst w, en), Some e)
      | Some (Inr None) \<Rightarrow> Some ((fst w, en), None)
      | Some (Inr (Some oi)) \<Rightarrow> Some ((publish (IntentEv oi) (fst w), en\<lparr>en_uid := en_uid en + 1\<rparr>), None))"

definition on_market_event :: "'s config \<Rightarrow> 's action \<Rightarrow> market_event \<Rightarrow> 's action" where
  "on_market_event cfg drain_all ev =
     then_do (update_engine (\<lambda>en. en\<lparr>en_current := Some ev\<rparr>))
     (then_do (\<lambda>w. case dict_get (en_pending (snd w)) (me_symbol ev) of
          None \<Rightarrow> skip w
        | Some pending \<Rightarrow>
            if \<not> en_warming_up (snd w) \<and> sg_timestamp pending < me_timestamp ev
            then then_do (size_pending cfg pending ev) drain_all w
            else skip w)
     (then_do (call_strategy (st_on_data (cf_ops cfg) ev))
     (then_do drain_all
       (update_engine (\<lambda>en. en\<lparr>en_previous_close :=
          dict_put (me_symbol ev) (me_close ev) (en_previous_close en)\<rparr>)))))"

text \<open>A drain whose count is dropped.\<close>

definition drain_action :: "nat \<Rightarrow> (event_class, handler, event, 's engine) runner \<Rightarrow> 's action" where
  "drain_action n run w = map_option (\<lambda>(w', exc, _). (w', exc)) (drain n is_instance run w)"

text \<open>
  The subscribed methods. The four methods that the constructor unsubscribes again are never
  dispatched and have no effect here.
\<close>

fun run_handler :: "nat \<Rightarrow> 's config \<Rightarrow> (event_class, handler, event, 's engine) runner" where
  "run_handler 0 cfg h e = (\<lambda>w. None)"
| "run_handler (Suc n) cfg h e =
     (case (h, e) of
        (H_on_portfolio_fill, FillEv fl) \<Rightarrow> on_portfolio_fill fl
      | (H_strategy_on_fill, FillEv fl) \<Rightarrow> call_strategy (st_on_fill (cf_ops cfg) fl)
      | (H_on_position_fill, FillEv fl) \<Rightarrow> on_position_fill cfg fl
      | (H_on_signal, SignalEv s) \<Rightarrow> on_signal_event cfg s
      | (H_on_order_intent_event, IntentEv oi) \<Rightarrow> on_order_intent_event cfg oi
      | (H_on_order_event, OrderEv ord) \<Rightarrow>
          on_order_event cfg (\<lambda>e. publish_and_process is_instance (run_handler n cfg) e) ord
      | (H_on_market_event, MarketEv m) \<Rightarrow> on_market_event cfg (drain_action n (run_handler n cfg)) m
      | _ \<Rightarrow> skip)"

end
