(* ===== verification/Engine_Run.thy ===== *)
theory Engine_Run
  imports Engine
begin

text \<open>
  The construction of the backtest engine and its main loop (\<open>BacktestEngine.__init__\<close>, \<open>run\<close>,
  \<open>_merge_streams\<close> in \<open>backtest/engine.py\<close>): validation, the merged event stream, sessions with
  their settlement and distribution boundaries, and the processing of each bar. The fuel is handed
  to every dispatch and every drain; enough fuel for a drain is computed by the locale of theory
  \<open>Event_Bus\<close>, which theory \<open>Engine_Safety\<close> interprets on the engine's handlers.
\<close>

section \<open>Construction\<close>

definition initial_portfolio :: "decimal \<Rightarrow> (symbol, instrument) dict \<Rightarrow> portfolio" where
  "initial_portfolio cash instruments = fold add_instrument (dict_values instruments) (new_portfolio cash)"

definition dividend_symbols_ok :: "(symbol, instrument) dict \<Rightarrow> stock_distribution list \<Rightarrow> bool" where
  "dividend_symbols_ok instruments ds = list_all (\<lambda>d.
     case dict_get instruments (sd_symbol d) of None \<Rightarrow> False | Some i \<Rightarrow> in_type i = IT_STOCK) ds"

definition initial_world ::
  "'s config \<Rightarrow> (symbol, instrument) dict \<Rightarrow> 's \<Rightarrow> replay option \<Rightarrow> 's eworld" where
  "initial_world cfg instruments strategy r =
     (engine_table (new_bus (cf_strict cfg)),
            \<lparr>en_strategy = strategy,
             en_portfolio = initial_portfolio (cf_initial_cash cfg) instruments,
             en_clock = None, en_instruments = instruments,
             en_warming_up = (cf_evaluation_start cfg \<noteq> None), en_warmup_targets = [], en_fills = [],
             en_replay = r, en_pending = [], en_current = None, en_previous_close = [],
             en_limit_blocked = 0, en_suspension_blocked = 0, en_risk_blocked = 0,
             en_cash_blocked = 0, en_capacity_blocked = 0, en_cash_resized = 0, en_bar_filled = [],
             en_capacity_resized = 0, en_capacity_unfilled = DZERO, en_value = (DZERO, DZERO),
             en_rows = [], en_uid = 0\<rparr>)"

definition new_engine :: "'s config \<Rightarrow> (symbol, instrument) dict \<Rightarrow> 's \<Rightarrow> 's eworld res" where
  "new_engine cfg instruments strategy =
     (if cf_warmup_final_bar_targets cfg \<and> cf_evaluation_start cfg = None
      then Inl (ValueError ''backtest_warmup_targets_require_evaluation_window'')
      else bind_res (case cf_distributions cfg of
            None \<Rightarrow> Inr None
          | Some ds \<Rightarrow> bind_res (new_replay ds (cf_include_shares cfg)) (\<lambda>r.
              if dividend_symbols_ok instruments ds then Inr (Some r)
              else Inl (ValueError ''cash_dividend_stock_required'')))
        (\<lambda>r.
          if (case cf_max_participation cfg of None \<Rightarrow> False
              | Some p \<Rightarrow> \<not> (dlt DZERO p \<and> dle p DONE))
          then Inl (ValueError ''backtest_volume_participation_invalid'')
          else Inr (initial_world cfg instruments strategy r)))"

section \<open>The event stream\<close>

definition require_available_observation :: "market_event \<Rightarrow> unit res" where
  "require_available_observation e =
     (case me_available_at e of
        None \<Rightarrow> Inl (ValueError ''backtest_observation_availability_missing'')
      | Some t \<Rightarrow> if me_timestamp e < t
          then Inl (ValueError ''backtest_observation_unavailable_at_event_time'') else Inr ())"

definition event_key :: "market_event \<Rightarrow> timestamp \<times> string" where
  "event_key e = (me_timestamp e, me_symbol e)"

definition merge_streams :: "bool \<Rightarrow> (symbol, market_event list) dict \<Rightarrow> market_event list res" where
  "merge_streams observed handlers =
     (let all_events = concat (dict_values handlers) in
      bind_res (if observed then fold_res (\<lambda>e _. require_available_observation e) all_events () else Inr ())
        (\<lambda>_. Inr (sort_key event_key all_events)))"

text \<open>\<open>groupby(events, key=session_date)\<close>: maximal runs of one date.\<close>

function sessions :: "(market_event \<Rightarrow> date) \<Rightarrow> market_event list \<Rightarrow> (date \<times> market_event list) list" where
  "sessions day [] = []"
| "sessions day (e # es) =
     (day e, e # takeWhile (\<lambda>x. day x = day e) es) # sessions day (dropWhile (\<lambda>x. day x = day e) es)"
  by pat_completeness auto
termination
  by (relation "measure (length \<circ> snd)") (auto simp: le_imp_less_Suc length_dropWhile_le)

section \<open>Sessions\<close>

definition mark_closes :: "market_event list \<Rightarrow> 's engine \<Rightarrow> 's engine" where
  "mark_closes es en = en\<lparr>en_portfolio :=
     mark_prices (fold (\<lambda>e. dict_put (me_symbol e) (me_close e)) es []) (en_portfolio en)\<rparr>"

definition mark_action :: "market_event list \<Rightarrow> 's action" where
  "mark_action es = update_engine (mark_closes es)"

definition record_close :: "market_event \<Rightarrow> 's engine \<Rightarrow> 's engine" where
  "record_close e en = en\<lparr>en_portfolio :=
     record_equity (me_timestamp e) [(me_symbol e, me_close e)] (en_portfolio en)\<rparr>"

definition advance_clock :: "market_event \<Rightarrow> 's action" where
  "advance_clock e = try_engine (\<lambda>en.
     bind_res (clock_advance_to (me_timestamp e) (en_clock en)) (\<lambda>c. Inr (en\<lparr>en_clock := c\<rparr>)))"

definition process_event :: "nat \<Rightarrow> 's config \<Rightarrow> event \<Rightarrow> 's action" where
  "process_event fuel cfg e = publish_and_process is_instance (run_handler fuel cfg) e"

definition drain_bus :: "nat \<Rightarrow> 's config \<Rightarrow> 's action" where
  "drain_bus fuel cfg = drain_action fuel (run_handler fuel cfg)"

definition process_bar :: "nat \<Rightarrow> 's config \<Rightarrow> market_event \<Rightarrow> 's action" where
  "process_bar fuel cfg e =
     then_do (advance_clock e)
     (then_do (mark_action [e])
     (then_do (update_engine set_value)
     (then_do (process_event fuel cfg (MarketEv e))
     (then_do (drain_bus fuel cfg)
     (then_do (mark_action [e])
       (update_engine (record_close e)))))))"

definition warmup_bar :: "nat \<Rightarrow> 's config \<Rightarrow> market_event \<Rightarrow> 's action" where
  "warmup_bar fuel cfg e =
     then_do (advance_clock e) (then_do (process_event fuel cfg (MarketEv e)) (drain_bus fuel cfg))"

definition decide :: "nat \<Rightarrow> 's config \<Rightarrow> date \<Rightarrow> 's action" where
  "decide fuel cfg day = (case cf_session_decision cfg of
     None \<Rightarrow> skip | Some f \<Rightarrow> then_do (call_strategy (f day)) (drain_bus fuel cfg))"

definition sync_positions :: "'s config \<Rightarrow> 's action" where
  "sync_positions cfg w = for_each (\<lambda>(s, p). call_strategy (st_on_position_update (cf_ops cfg) s (po_quantity p)))
     (pf_positions (en_portfolio (snd w))) w"

definition open_boundary :: "date \<Rightarrow> 's engine \<Rightarrow> 's engine res" where
  "open_boundary day en = (case en_replay en of
     None \<Rightarrow> Inr en
   | Some r \<Rightarrow> bind_res (before_session day (r, en_portfolio en)) (\<lambda>(r', pf).
       Inr (en\<lparr>en_replay := Some r', en_portfolio := pf\<rparr>)))"

definition replay_before :: "'s config \<Rightarrow> date \<Rightarrow> market_event list \<Rightarrow> 's action" where
  "replay_before cfg day es w =
     (if en_replay (snd w) = None then skip w
      else then_do (mark_action es)
        (then_do (try_engine (open_boundary day))
        (then_do (mark_action es) (sync_positions cfg))) w)"

definition close_boundary :: "date \<Rightarrow> 's engine \<Rightarrow> 's engine res" where
  "close_boundary day en = (case en_replay en of
     None \<Rightarrow> Inr en
   | Some r \<Rightarrow> bind_res (after_session day (en_portfolio en) r) (\<lambda>r'. Inr (en\<lparr>en_replay := Some r'\<rparr>)))"

definition replay_after :: "date \<Rightarrow> 's action" where
  "replay_after day = try_engine (close_boundary day)"

text \<open>With a session decision, exits come first, each group in the order of the symbols.\<close>

definition execution_key :: "'s engine \<Rightarrow> market_event \<Rightarrow> bool \<times> string" where
  "execution_key en e = ((case dict_get (en_pending en) (me_symbol e) of
       None \<Rightarrow> True | Some s \<Rightarrow> \<not> deq (sg_target_weight s) DZERO), me_symbol e)"

definition run_bars :: "nat \<Rightarrow> 's config \<Rightarrow> market_event list \<Rightarrow> 's action" where
  "run_bars fuel cfg es w =
     (if cf_session_decision cfg = None then for_each (process_bar fuel cfg) es w
      else if length (remdups (map me_timestamp es)) \<noteq> 1
      then Some (w, Some (ValueError ''session_portfolio_requires_simultaneous_daily_bars''))
      else then_do (mark_action es)
        (\<lambda>w1. for_each (process_bar fuel cfg) (sort_key (execution_key (snd w1)) es) w1) w)"

definition settle_engine :: "'s engine \<Rightarrow> 's engine" where
  "settle_engine en = (if pf_equity_curve (en_portfolio en) = [] then en
     else en\<lparr>en_portfolio := settle_portfolio (en_portfolio en)\<rparr>)"

definition trading_session :: "nat \<Rightarrow> 's config \<Rightarrow> date \<Rightarrow> market_event list \<Rightarrow> 's action" where
  "trading_session fuel cfg day es =
     then_do (update_engine settle_engine)
     (then_do (replay_before cfg day es)
     (then_do (run_bars fuel cfg es)
     (then_do (replay_after day)
     (then_do (decide fuel cfg day)
       (case cf_session_completed cfg of
          None \<Rightarrow> skip
        | Some f \<Rightarrow> (case f day of None \<Rightarrow> skip | Some e \<Rightarrow> raise_exc e))))))"

definition run_session :: "nat \<Rightarrow> 's config \<Rightarrow> date \<times> market_event list \<Rightarrow> 's action" where
  "run_session fuel cfg ses = (case ses of (day, es) \<Rightarrow>
     let warming = (case cf_evaluation_start cfg of None \<Rightarrow> False | Some start \<Rightarrow> day < start) in
     then_do (update_engine (\<lambda>en. en\<lparr>en_bar_filled := [], en_warming_up := warming\<rparr>))
       (if warming then then_do (for_each (warmup_bar fuel cfg) es) (decide fuel cfg day)
        else trading_session fuel cfg day es))"

section \<open>The run\<close>

definition warmup_targets :: "'s config \<Rightarrow> 's engine \<Rightarrow> market_event list \<Rightarrow> (symbol, timestamp) dict" where
  "warmup_targets cfg en es = (case cf_evaluation_start cfg of
     None \<Rightarrow> []
   | Some start \<Rightarrow> fold (\<lambda>e d. if session_date en e < start
       then dict_put (me_symbol e) (me_timestamp e) d else d) es [])"

definition validate_replay :: "'s config \<Rightarrow> market_event list \<Rightarrow> 's action" where
  "validate_replay cfg es = try_engine (\<lambda>en. case en_replay en of
     None \<Rightarrow> Inr en | Some r \<Rightarrow> bind_res (validate_events es (cf_observed cfg) r) (\<lambda>_. Inr en))"

definition run_events :: "nat \<Rightarrow> 's config \<Rightarrow> market_event list \<Rightarrow> 's action" where
  "run_events fuel cfg es w =
     then_do (update_engine (\<lambda>en. if cf_warmup_final_bar_targets cfg
         then en\<lparr>en_warmup_targets := warmup_targets cfg en es\<rparr> else en))
     (then_do (validate_replay cfg es)
     (then_do (call_strategy (st_on_init (cf_ops cfg) (dict_keys (en_instruments (snd w)))))
     (then_do (if cf_evaluation_start cfg \<noteq> None then drain_bus fuel cfg else skip)
       (for_each (run_session fuel cfg) (sessions (session_date (snd w)) es))))) w"

definition run_backtest ::
  "nat \<Rightarrow> 's config \<Rightarrow> (symbol, instrument) dict \<Rightarrow> (symbol, market_event list) dict \<Rightarrow> 's
    \<Rightarrow> ('s eworld \<times> py_exc option) option res" where
  "run_backtest fuel cfg instruments handlers strategy =
     bind_res (new_engine cfg instruments strategy) (\<lambda>w.
     bind_res (merge_streams (cf_observed cfg) handlers) (\<lambda>es. Inr (run_events fuel cfg es w)))"

end
