(* ===== verification/Engine_Safety.thy ===== *)
theory Engine_Safety
  imports Engine_Run
begin

text \<open>
  The safety of a backtest. For every strategy that publishes signals only, every set of risk
  rules, cost model and market data: the cash of the book never becomes negative, whatever the
  handlers do or raise. The proof is an invariant of every handler, dispatch, drain and session.
\<close>

section \<open>Invariants of actions\<close>

definition preserves :: "('s eworld \<Rightarrow> bool) \<Rightarrow> 's action \<Rightarrow> bool" where
  "preserves P f = (\<forall>w w' x. P w \<longrightarrow> f w = Some (w', x) \<longrightarrow> P w')"

lemma preservesI: "(\<And>w w' x. P w \<Longrightarrow> f w = Some (w', x) \<Longrightarrow> P w') \<Longrightarrow> preserves P f"
  by (simp add: preserves_def)

lemma preservesD: "preserves P f \<Longrightarrow> P w \<Longrightarrow> f w = Some (w', x) \<Longrightarrow> P w'"
  unfolding preserves_def by blast

lemma preserves_then: "preserves P f \<Longrightarrow> preserves P g \<Longrightarrow> preserves P (then_do f g)"
proof (rule preservesI)
  fix w w' x assume p: "preserves P f" "preserves P g" "P w" "then_do f g w = Some (w', x)"
  then obtain w1 y where f: "f w = Some (w1, y)" by (auto simp: then_do_def split: option.splits)
  then have "P w1" using p(1,3) by (blast dest: preservesD)
  then show "P w'" using p(2,4) f by (cases y) (auto simp: then_do_def dest: preservesD)
qed

lemma preserves_skip [simp]: "preserves P skip"
  by (simp add: preserves_def skip_def)

lemma preserves_raise [simp]: "preserves P (raise_exc e)"
  by (simp add: preserves_def raise_exc_def)

lemma preserves_for_each: "(\<And>x. x \<in> set xs \<Longrightarrow> preserves P (f x)) \<Longrightarrow> preserves P (for_each f xs)"
  by (induction xs) (auto intro: preserves_then)

lemma preserves_update: "(\<And>b en. P (b, en) \<Longrightarrow> P (b, f en)) \<Longrightarrow> preserves P (update_engine f)"
  by (auto simp: preserves_def update_engine_def)

lemma preserves_try: "(\<And>b en en'. P (b, en) \<Longrightarrow> f en = Inr en' \<Longrightarrow> P (b, en')) \<Longrightarrow> preserves P (try_engine f)"
  by (auto simp: preserves_def try_engine_def split: sum.splits)

section \<open>The handler table\<close>

definition engine_handlers :: "(event_class, (int \<times> handler) list) dict" where
  "engine_handlers =
     [(C_Signal, [(0, H_on_signal)]),
      (C_Fill, [(0, H_on_portfolio_fill), (0, H_strategy_on_fill), (0, H_on_position_fill)]),
      (C_Order, [(0, H_on_order_event)]), (C_Market, [(0, H_on_market_event)]),
      (C_Intent, [(0, H_on_order_intent_event)])]"

lemma engine_table_handlers: "bus_handlers (engine_table (new_bus r)) = engine_handlers"
  by (simp add: engine_table_def new_bus_def subscribe_def unsubscribe_def dict_get_default_def
      engine_handlers_def Let_def)

lemma engine_table_queue: "bus_queue (engine_table b) = bus_queue b"
proof -
  have "bus_queue (subscribe k h p b) = bus_queue b" "bus_queue (unsubscribe k h b) = bus_queue b"
    for k :: event_class and h :: handler and p and b :: engine_bus
    by (simp_all add: subscribe_def unsubscribe_def)
  then show ?thesis unfolding engine_table_def Let_def by simp
qed

fun handlers_of :: "event \<Rightarrow> handler list" where
  "handlers_of (MarketEv _) = [H_on_market_event]"
| "handlers_of (SignalEv _) = [H_on_signal]"
| "handlers_of (IntentEv _) = [H_on_order_intent_event]"
| "handlers_of (OrderEv _) = [H_on_order_event]"
| "handlers_of (FillEv _) = [H_on_portfolio_fill, H_strategy_on_fill, H_on_position_fill]"
| "handlers_of _ = []"

lemma matching_engine: "bus_handlers b = engine_handlers \<Longrightarrow> matching_handlers is_instance b e = handlers_of e"
  by (cases e) (simp_all add: matching_handlers_def engine_handlers_def is_instance_def)

section \<open>The invariant\<close>

text \<open>What may wait in the queue: neither bars nor fills, which are dispatched at once.\<close>

fun queueable :: "event \<Rightarrow> bool" where
  "queueable (MarketEv _) = False"
| "queueable (FillEv _) = False"
| "queueable _ = True"

definition book_ok :: "portfolio \<Rightarrow> bool" where
  "book_ok pf = (dle DZERO (pf_cash pf) \<and>
     list_all (\<lambda>(_, (_, _, _, amount)). dle DZERO amount) (pf_cash_dividends pf))"

definition safe :: "'s eworld \<Rightarrow> bool" where
  "safe w = (bus_handlers (fst w) = engine_handlers \<and> list_all queueable (bus_queue (fst w)) \<and>
     book_ok (en_portfolio (snd w)))"

text \<open>Strategies that publish signals only, as the base class offers.\<close>

definition signals_only :: "'s callback \<Rightarrow> bool" where
  "signals_only f = (\<forall>s. \<forall>e \<in> set (fst (snd (f s))). class_of_event e = C_Signal)"

definition strategy_ok :: "'s config \<Rightarrow> bool" where
  "strategy_ok cfg =
    ((\<forall>x. signals_only (st_on_init (cf_ops cfg) x)) \<and> (\<forall>x. signals_only (st_on_data (cf_ops cfg) x)) \<and>
     (\<forall>x. signals_only (st_on_fill (cf_ops cfg) x)) \<and>
     (\<forall>x q. signals_only (st_on_position_update (cf_ops cfg) x q)) \<and>
     (\<forall>f x. cf_session_decision cfg = Some f \<longrightarrow> signals_only (f x)))"

lemma fold_publish:
  "fold publish evs b = b\<lparr>bus_queue := bus_queue b @ evs\<rparr>"
  by (induction evs arbitrary: b) (simp_all add: publish_def)

lemma signal_queueable: "class_of_event e = C_Signal \<Longrightarrow> queueable e"
  by (cases e) simp_all

lemma call_strategy_safe:
  assumes "signals_only f"
  shows "preserves safe (call_strategy f)"
proof (rule preservesI)
  fix w w' x assume w: "safe w" "call_strategy f w = Some (w', x)"
  obtain s evs exc where f: "f (en_strategy (snd w)) = (s, evs, exc)" by (cases "f (en_strategy (snd w))")
  have "list_all queueable evs"
    using assms f by (auto simp: signals_only_def list_all_iff dest!: spec[of _ "en_strategy (snd w)"] intro: signal_queueable)
  with w f show "safe w'" by (auto simp: safe_def call_strategy_def fold_publish)
qed

lemma publish_safe: "queueable e \<Longrightarrow> preserves safe (publish_event e)"
  by (auto simp: preserves_def publish_event_def publish_def safe_def)

section \<open>A covered fill keeps the cash non-negative\<close>

definition covered :: "fill_event \<Rightarrow> decimal \<Rightarrow> bool" where
  "covered fl cash = (case total_trade_fee (fl_commission fl) (fl_fee_breakdown fl) of
     Inl _ \<Rightarrow> True
   | Inr fee \<Rightarrow> let notional = dmul (fl_price fl) (fl_quantity fl) in
       dle (if fl_side fl = BUY then dadd notional fee else dsub fee notional) cash)"

lemma mark_prices_books [simp]:
  "pf_cash (mark_prices ps pf) = pf_cash pf"
  "pf_cash_dividends (mark_prices ps pf) = pf_cash_dividends pf"
  by (induction ps pf rule: mark_prices.induct) (simp_all split: option.splits)

lemma on_fill_dividends: "pf_cash_dividends (fst (on_fill ev pf)) = pf_cash_dividends pf"
proof (cases rule: on_fill_cases[of ev pf])
  case (raised pf1 e)
  have "pf_cash_dividends pf1 = pf_cash_dividends (pf\<lparr>pf_positions := pf_positions pf1\<rparr>)"
    using raised(3) by (rule arg_cong)
  with raised(1) show ?thesis by simp
qed simp

lemma on_fill_covered:
  assumes "covered ev (pf_cash pf)" "0 \<le> val (pf_cash pf)"
  shows "0 \<le> val (pf_cash (fst (on_fill ev pf)))"
proof (cases rule: on_fill_cases[of ev pf])
  case (raised pf1 e)
  have "pf_cash pf1 = pf_cash (pf\<lparr>pf_positions := pf_positions pf1\<rparr>)"
    using raised(3) by (rule arg_cong)
  with raised(1) assms(2) show ?thesis by simp
next
  case (filled fee p')
  let ?n = "cr (val (fl_price ev) * val (fl_quantity ev))"
  show ?thesis
  proof (cases "fl_side ev")
    case BUY
    with assms filled have "cr (?n + val fee) \<le> val (pf_cash pf)" by (simp add: covered_def Let_def val_simps)
    then show ?thesis using filled BUY by (simp add: Let_def val_simps rnd_nonneg)
  next
    case SELL
    with assms filled have "cr (val fee - ?n) \<le> val (pf_cash pf)" by (simp add: covered_def Let_def val_simps)
    moreover have "cr (?n - val fee) = - cr (val fee - ?n)" using rnd_minus[of 28 "val fee - ?n"] by simp
    ultimately show ?thesis using filled SELL by (simp add: Let_def val_simps rnd_nonneg)
  qed
qed

lemma on_fill_book:
  "covered ev (pf_cash pf) \<Longrightarrow> book_ok pf \<Longrightarrow> book_ok (fst (on_fill ev pf))"
  using on_fill_covered[of ev pf] on_fill_dividends[of ev pf] by (simp add: book_ok_def val_simps)

lemma on_portfolio_fill_safe:
  assumes "safe w" "covered ev (pf_cash (en_portfolio (snd w)))" "on_portfolio_fill ev w = Some (w', x)"
  shows "safe w'"
proof -
  let ?pf = "fst (on_fill ev (en_portfolio (snd w)))"
  have b: "book_ok ?pf" using assms(1,2) on_fill_book by (auto simp: safe_def)
  then have m: "book_ok (mark_prices ps ?pf)" for ps by (simp add: book_ok_def)
  show ?thesis using assms(1,3) b m
    by (cases "on_fill ev (en_portfolio (snd w))")
      (auto simp: on_portfolio_fill_def safe_def set_value_def simp del: mark_prices.simps
        split: option.splits)
qed

section \<open>Funded fills are covered\<close>

lemma resolve_fill_simps [simp]:
  "fl_side (resolve_fill cfg inst uid ord) = or_side ord"
  "fl_symbol (resolve_fill cfg inst uid ord) = or_symbol ord"
  "fl_quantity (resolve_fill cfg inst uid ord) = or_quantity ord"
  by (simp_all add: resolve_fill_def execute_def Let_def split: engine_commission.split)

lemma fund_loop_covered:
  assumes "fund_loop cfg inst ord cash u q = Some (Inr (Some (q', fl)), u')"
  shows "covered fl cash \<and> fl_quantity fl = q' \<and> fl_side fl = or_side ord \<and> fl_symbol fl = or_symbol ord \<and>
    0 < val q' \<and> (or_side ord = SELL \<longrightarrow> q' = q)"
proof -
  define OK where "OK = (\<lambda>(cfg :: 'a config) (inst :: instrument) (ord :: order_event) cash (u :: nat) q
    (r :: (decimal \<times> fill_event) option res \<times> nat). \<forall>q' fl u'. r = (Inr (Some (q', fl)), u') \<longrightarrow>
    covered fl cash \<and> fl_quantity fl = q' \<and> fl_side fl = or_side ord \<and> fl_symbol fl = or_symbol ord \<and>
    0 < val q' \<and> (or_side ord = SELL \<longrightarrow> q' = q))"
  from assms have "OK cfg inst ord cash u q (Inr (Some (q', fl)), u')"
  proof (rule fund_loop.raw_induct[where P = OK, rotated])
    fix loop cfg inst ord cash u q r
    assume IH: "\<And>cfg inst ord cash u q r. loop cfg inst ord cash u q = Some r \<Longrightarrow> OK cfg inst ord cash u q r"
      and r: "(if \<not> dlt DZERO q then Some (Inr None, u)
      else let fl = resolve_fill cfg inst (cf_uids cfg u) (ord\<lparr>or_quantity := q\<rparr>) in
        case total_trade_fee (fl_commission fl) (fl_fee_breakdown fl) of
          Inl e \<Rightarrow> Some (Inl e, Suc u)
        | Inr fee \<Rightarrow>
          if dle (fl_price fl) DZERO then Some (Inl (ValueError ''backtest_fill_cost_invalid''), Suc u)
          else let notional = dmul (fl_price fl) (fl_quantity fl);
                 cash_debit = (if or_side ord = BUY then dadd notional fee else dsub fee notional) in
            if dle cash_debit cash then Some (Inr (Some (q, fl)), Suc u)
            else if or_side ord = SELL then Some (Inr None, Suc u)
            else (case next_quantity (in_lot_size inst) cash fee (fl_price fl) q of
                Inl e \<Rightarrow> Some (Inl e, Suc u)
              | Inr q' \<Rightarrow> loop cfg inst ord cash (Suc u) q')) = Some r"
    define f where "f = resolve_fill cfg inst (cf_uids cfg u) (ord\<lparr>or_quantity := q\<rparr>)"
    have f: "fl_side f = or_side ord" "fl_symbol f = or_symbol ord" "fl_quantity f = q"
      by (simp_all add: f_def)
    show "OK cfg inst ord cash u q r"
    proof (cases "total_trade_fee (fl_commission f) (fl_fee_breakdown f)")
      case (Inl e)
      with r show ?thesis by (auto simp: OK_def f_def[symmetric] split: if_splits)
    next
      case (Inr fee)
      let ?debit = "if or_side ord = BUY then dadd (dmul (fl_price f) (fl_quantity f)) fee
        else dsub fee (dmul (fl_price f) (fl_quantity f))"
      show ?thesis
      proof (cases "dlt DZERO q \<and> \<not> dle (fl_price f) DZERO \<and> dle ?debit cash")
        case True
        then have "r = (Inr (Some (q, f)), Suc u)" using r Inr by (simp add: f_def[symmetric])
        with True Inr f show ?thesis by (auto simp: OK_def covered_def Let_def dlt_val)
      next
        case False
        show ?thesis unfolding OK_def
        proof (intro allI impI)
          fix q' fl u' assume r': "r = (Inr (Some (q', fl)), u')"
          with r Inr False have buy: "or_side ord \<noteq> SELL"
            and "\<exists>q1. loop cfg inst ord cash (Suc u) q1 = Some (Inr (Some (q', fl)), u')"
            by (auto simp: f_def[symmetric] Let_def split: if_splits sum.splits)
          then show "covered fl cash \<and> fl_quantity fl = q' \<and> fl_side fl = or_side ord \<and>
              fl_symbol fl = or_symbol ord \<and> 0 < val q' \<and> (or_side ord = SELL \<longrightarrow> q' = q)"
            using IH unfolding OK_def by blast
        qed
      qed
    qed
  qed
  then show ?thesis unfolding OK_def by blast
qed

lemma cash_funded_covered:
  assumes "cash_funded_fill cfg ord en = Some (Inr (Some (ord', fl)), en')"
  shows "covered fl (pf_cash (en_portfolio en')) \<and> en_portfolio en' = en_portfolio en \<and>
    fl_quantity fl = or_quantity ord' \<and> fl_side fl = or_side ord \<and> fl_symbol fl = or_symbol ord \<and>
    or_side ord' = or_side ord \<and> or_symbol ord' = or_symbol ord \<and> 0 < val (fl_quantity fl) \<and>
    (or_side ord = SELL \<longrightarrow> fl_quantity fl = or_quantity ord)"
proof -
  obtain inst where inst: "dict_get (en_instruments en) (or_symbol ord) = Some inst"
    using assms by (auto simp: cash_funded_fill_def split: option.splits)
  let ?q0 = "if or_side ord = BUY
               then bind_res (dfloordiv (or_quantity ord) (in_lot_size inst)) (\<lambda>n. Inr (dmul n (in_lot_size inst)))
               else Inr (or_quantity ord)"
  obtain q where q: "?q0 = Inr q" using assms inst
    by (cases ?q0) (auto simp: cash_funded_fill_def split: if_splits)
  obtain q' u where l: "fund_loop cfg inst ord (pf_cash (en_portfolio en)) (en_uid en) q = Some (Inr (Some (q', fl)), u)"
    and o: "ord' = ord\<lparr>or_quantity := q'\<rparr>" and e: "en_portfolio en' = en_portfolio en"
    using assms unfolding cash_funded_fill_def inst option.case q sum.case
    by (auto split: option.splits if_splits sum.splits)
  have "or_side ord = SELL \<longrightarrow> q = or_quantity ord" using q by auto
  then show ?thesis using fund_loop_covered[OF l] o e by auto
qed

text \<open>Attempting an execution changes counters only.\<close>

lemma tradeable_book:
  assumes "tradeable_order ord en = Inr (t, en')"
  shows "en_portfolio en' = en_portfolio en"
proof (cases "\<exists>mp bar inst. known_market_price (or_symbol ord) en = Some mp \<and> \<not> dle mp DZERO \<and>
    en_current en = Some bar \<and> dict_get (en_instruments en) (or_symbol ord) = Some inst \<and>
    me_symbol bar = or_symbol ord")
  case True
  then obtain mp bar inst where k: "known_market_price (or_symbol ord) en = Some mp" "\<not> dle mp DZERO"
    "en_current en = Some bar" "dict_get (en_instruments en) (or_symbol ord) = Some inst"
    "me_symbol bar = or_symbol ord" by blast
  define c where "c = (case en_replay en of
      None \<Rightarrow> (False, en)
    | Some r \<Rightarrow> (case blocks_execution (or_symbol ord) (session_date en bar) r of
        (blocked, r') \<Rightarrow> (blocked, en\<lparr>en_replay := Some r'\<rparr>)))"
  obtain blocked en1 where c1: "c = (blocked, en1)" by (cases c)
  have "en_portfolio (snd c) = en_portfolio en"
    by (simp add: c_def split: option.splits prod.splits)
  with c1 have e: "en_portfolio en1 = en_portfolio en" by simp
  show ?thesis using assms e
    unfolding tradeable_order_def Let_def k option.case prod.case c_def[symmetric] c1
    by (simp add: k(2,5) bind_res_eq_Inr split: option.splits if_splits) auto
next
  case False
  then show ?thesis using assms
    by (auto simp: tradeable_order_def Let_def split: option.splits if_splits)
qed

lemma capacity_book: "capacity_order cfg ord en = Inr (o', en') \<Longrightarrow> en_portfolio en' = en_portfolio en"
  by (auto simp: capacity_order_def Let_def bind_res_eq_Inr split: option.splits if_splits)

lemma capacity_side:
  "capacity_order cfg ord en = Inr (Some ord', en') \<Longrightarrow>
    or_side ord' = or_side ord \<and> or_symbol ord' = or_symbol ord \<and> val (or_quantity ord') \<le> val (or_quantity ord)"
  by (auto simp: capacity_order_def Let_def bind_res_eq_Inr val_dmin split: option.splits if_splits)

lemma cash_funded_book: "cash_funded_fill cfg ord en = Some (r, en') \<Longrightarrow> en_portfolio en' = en_portfolio en"
  by (auto simp: cash_funded_fill_def split: option.splits if_splits sum.splits)

lemma attempt_book: "attempt_execution cfg ord en = Some (r, en') \<Longrightarrow> en_portfolio en' = en_portfolio en"
  by (auto simp: attempt_execution_def dest!: tradeable_book capacity_book cash_funded_book
      split: sum.splits prod.splits if_splits option.splits)

lemma attempt_covered:
  assumes "attempt_execution cfg ord en = Some (Inr (Some (ord', fl)), en')"
  shows "covered fl (pf_cash (en_portfolio en)) \<and> fl_side fl = or_side ord \<and> fl_symbol fl = or_symbol ord \<and>
    or_symbol ord' = or_symbol ord \<and> 0 < val (fl_quantity fl) \<and> val (fl_quantity fl) = val (or_quantity ord') \<and>
    (or_side ord = SELL \<longrightarrow> val (fl_quantity fl) \<le> val (or_quantity ord))"
proof -
  from assms obtain en1 en2 ord2 where "tradeable_order ord en = Inr (True, en1)"
    and 2: "capacity_order cfg ord en1 = Inr (Some ord2, en2)"
    and 3: "cash_funded_fill cfg ord2 en2 = Some (Inr (Some (ord', fl)), en')"
    by (auto simp: attempt_execution_def split: sum.splits prod.splits if_splits option.splits)
  then have "en_portfolio en2 = en_portfolio en" using tradeable_book capacity_book by metis
  with cash_funded_covered[OF 3] capacity_side[OF 2] show ?thesis by auto
qed

section \<open>Every handler, dispatch and drain keeps the invariant\<close>

lemma on_position_fill_safe: "strategy_ok cfg \<Longrightarrow> preserves safe (on_position_fill cfg fl)"
proof (rule preservesI)
  fix w w' x assume w: "strategy_ok cfg" "safe w" "on_position_fill cfg fl w = Some (w', x)"
  have "preserves safe (call_strategy (st_on_position_update (cf_ops cfg) (fl_symbol fl) q))" for q
    using w(1) by (intro call_strategy_safe) (simp add: strategy_ok_def)
  then show "safe w'" using w(2,3) by (auto simp: on_position_fill_def split: option.splits dest: preservesD)
qed

lemma on_signal_event_safe: "preserves safe (on_signal_event cfg ev)"
  by (auto simp: preserves_def safe_def on_signal_event_def Let_def split: option.splits if_splits)

lemma on_order_intent_event_safe: "preserves safe (on_order_intent_event cfg oi)"
  by (auto simp: preserves_def safe_def on_order_intent_event_def Let_def publish_def split: if_splits)

lemma fill_process_safe:
  assumes ok: "strategy_ok cfg" and w: "safe w" "covered fl (pf_cash (en_portfolio (snd w)))"
    and p: "publish_and_process is_instance (run_handler n cfg) (FillEv fl) w = Some (w', x)"
  shows "safe w'"
proof (cases n)
  case 0
  with p w(1) show ?thesis by (simp add: publish_and_process_def dispatch_def matching_engine safe_def)
next
  case (Suc m)
  let ?run = "run_handler (Suc m) cfg"
  have hs: "run_handlers ?run [H_on_portfolio_fill, H_strategy_on_fill, H_on_position_fill] (FillEv fl) w = Some (w', x)"
    using p w(1) by (simp add: publish_and_process_def dispatch_def matching_engine safe_def Suc del: run_handlers.simps run_handler.simps)
  then obtain w1 x1 where 1: "on_portfolio_fill fl w = Some (w1, x1)" by (auto split: option.splits)
  then have s1: "safe w1" by (rule on_portfolio_fill_safe[OF w])
  show ?thesis
  proof (cases "x1 \<noteq> None \<and> bus_raise (fst w1)")
    case True
    with hs 1 s1 show ?thesis by auto
  next
    case False
    then have tl: "run_handlers ?run [H_strategy_on_fill, H_on_position_fill] (FillEv fl) w1 = Some (w', x)"
      using hs 1 by (simp del: run_handlers.simps(1)) (simp split: if_splits)
    from tl s1 show ?thesis
    proof (rule run_handlers_invariant)
      fix h t t' y assume "h \<in> set [H_strategy_on_fill, H_on_position_fill]" "safe t"
        "?run h (FillEv fl) t = Some (t', y)"
      moreover have "preserves safe (call_strategy (st_on_fill (cf_ops cfg) fl))"
        using ok by (intro call_strategy_safe) (simp add: strategy_ok_def)
      ultimately show "safe t'" using on_position_fill_safe[OF ok, of fl] by (auto dest: preservesD)
    qed
  qed
qed

lemma approved_safe:
  assumes "approved_order cfg ord w = (a, w')" "safe w"
  shows "safe w' \<and> en_portfolio (snd w') = en_portfolio (snd w)"
  using assms by (auto simp: approved_order_def safe_def Let_def publish_def split: sum.splits if_splits)

lemma write_row_portfolio [simp]: "en_portfolio (write_row cfg row en) = en_portfolio en"
  by (simp add: write_row_def)

lemma add_bar_filled_portfolio [simp]: "en_portfolio (add_bar_filled ord fl en) = en_portfolio en"
  by (simp add: add_bar_filled_def split: option.splits)

lemma record_fill_safe:
  assumes "strategy_ok cfg" "safe w" "covered fl (pf_cash (en_portfolio (snd w)))"
    and "record_fill_event cfg (publish_and_process is_instance (run_handler n cfg)) fl ord w = Some (w', x)"
  shows "safe w'"
proof -
  define w0 where "w0 = (fst w, (write_row cfg (RowFill fl (asset_class_for_order ord (snd w))) (snd w))
    \<lparr>en_fills := en_fills (snd w) @ [fl]\<rparr>)"
  have w0: "safe w0" "covered fl (pf_cash (en_portfolio (snd w0)))"
    using assms(2,3) by (simp_all add: w0_def safe_def)
  obtain w1 x1 where p: "publish_and_process is_instance (run_handler n cfg) (FillEv fl) w0 = Some (w1, x1)"
    and t: "(case x1 of None \<Rightarrow> update_engine (write_row cfg (RowStatus (or_order_id ord) ''filled'')) w1
      | Some e \<Rightarrow> Some (w1, Some e)) = Some (w', x)"
    using assms(4)
    by (auto simp: record_fill_event_def then_do_def update_engine_def w0_def split: option.splits)
  have "safe w1" using fill_process_safe[OF assms(1) w0 p] .
  with t show ?thesis by (auto simp: update_engine_def safe_def split: option.splits)
qed

lemma on_order_event_safe:
  assumes ok: "strategy_ok cfg"
  shows "preserves safe (on_order_event cfg (publish_and_process is_instance (run_handler n cfg)) ev)"
proof (rule preservesI)
  fix w w' x assume w: "safe w"
    and r: "on_order_event cfg (publish_and_process is_instance (run_handler n cfg)) ev w = Some (w', x)"
  obtain a w1 where a: "approved_order cfg ev w = (a, w1)" by (cases "approved_order cfg ev w")
  note w1 = approved_safe[OF a w]
  define att where "att = (case a of None \<Rightarrow> Some (Inr None, snd w1)
     | Some ord \<Rightarrow> attempt_execution cfg ord (snd w1))"
  show "safe w'"
  proof (cases "en_warming_up (snd w)")
    case True
    with r w show ?thesis by (simp add: on_order_event_def)
  next
    case False
    note r' = r[unfolded on_order_event_def if_not_P[OF False] a prod.case att_def[symmetric]]
    from r' obtain ex en2 where att: "att = Some (ex, en2)" by (auto split: option.splits)
    have pf2: "en_portfolio en2 = en_portfolio (snd w1)"
      using att unfolding att_def by (auto split: option.splits dest: attempt_book)
    have w2: "safe (fst w1, en2)" using w1 pf2 by (auto simp: safe_def)
    show ?thesis
    proof (cases ex)
      case (Inl e)
      with r' att w2 show ?thesis by simp
    next
      case (Inr execution)
      let ?dec = "case (or_intent_id ev, or_risk_decision_id ev) of
          (Some i, Some d) \<Rightarrow> publish_event (DecisionEv (decision_event ev i d (map_option fst execution)))
        | _ \<Rightarrow> skip"
      have dec: "preserves (\<lambda>w. safe w \<and> snd w = en2) ?dec"
        by (auto simp: preserves_def publish_event_def publish_def safe_def skip_def split: option.splits)
      show ?thesis
      proof (cases execution)
        case None
        have p: "preserves safe (then_do ?dec skip)"
          by (rule preserves_then) (auto intro: publish_safe split: option.splits)
        have "then_do ?dec skip (fst w1, en2) = Some (w', x)"
          using r' unfolding att option.case prod.case Inr sum.case None .
        with p w2 show ?thesis by (rule preservesD)
      next
        case (Some pr)
        obtain ord fl where pr: "pr = (ord, fl)" by (cases pr)
        have "covered fl (pf_cash (en_portfolio en2))"
          using att Inr Some pr attempt_covered pf2 unfolding att_def by (fastforce split: option.splits)
        note c = this
        let ?upd = "update_engine (\<lambda>en. write_row cfg (RowOrder ord (asset_class_for_order ord en)) (add_bar_filled ord fl en))"
        let ?rec = "record_fill_event cfg (publish_and_process is_instance (run_handler n cfg)) fl ord"
        have r'': "then_do ?dec (then_do ?upd ?rec) (fst w1, en2) = Some (w', x)"
          using r' unfolding att option.case prod.case Inr sum.case Some pr .
        then obtain w3 y where w3: "?dec (fst w1, en2) = Some (w3, y)" by (auto simp: then_do_def split: option.splits)
        have "safe w3 \<and> snd w3 = en2" by (rule preservesD[OF dec _ w3]) (simp add: w2)
        then have s3: "safe w3" "snd w3 = en2" by simp_all
        show ?thesis
        proof (cases y)
          case (Some e)
          with r'' w3 s3 show ?thesis by (simp add: then_do_def)
        next
          case None
          with r'' w3 have "?rec (fst w3, write_row cfg (RowOrder ord (asset_class_for_order ord en2)) (add_bar_filled ord fl en2)) = Some (w', x)"
            using s3(2) by (simp add: then_do_def update_engine_def)
          then show ?thesis
            by (rule record_fill_safe[OF ok, rotated 2]) (use s3 c in \<open>simp_all add: safe_def\<close>)
        qed
      qed
    qed
  qed
qed

lemma size_pending_safe: "preserves safe (size_pending cfg pending ev)"
  by (auto simp: preserves_def safe_def size_pending_def Let_def publish_def
      split: option.splits sum.splits if_splits)

lemma on_market_event_safe:
  assumes ok: "strategy_ok cfg" and d: "preserves safe drain_all"
  shows "preserves safe (on_market_event cfg drain_all ev)"
proof -
  have "preserves safe (\<lambda>w. case dict_get (en_pending (snd w)) (me_symbol ev) of
      None \<Rightarrow> skip w
    | Some pending \<Rightarrow>
        if \<not> en_warming_up (snd w) \<and> sg_timestamp pending < me_timestamp ev
        then then_do (size_pending cfg pending ev) drain_all w
        else skip w)" (is "preserves safe ?f")
  proof (rule preservesI)
    fix w w' x assume w: "safe w" "?f w = Some (w', x)"
    have "preserves safe (then_do (size_pending cfg pending ev) drain_all)" for pending
      using size_pending_safe d by (rule preserves_then)
    with w show "safe w'" by (auto simp: skip_def split: option.splits if_splits dest: preservesD)
  qed
  moreover have "preserves safe (call_strategy (st_on_data (cf_ops cfg) ev))"
    using ok by (intro call_strategy_safe) (simp add: strategy_ok_def)
  ultimately show ?thesis using d unfolding on_market_event_def
    by (intro preserves_then preserves_update) (simp_all add: safe_def)
qed

text \<open>Fills are dispatched by the order handler only, so every other event keeps the invariant.\<close>

fun is_fill :: "event \<Rightarrow> bool" where
  "is_fill (FillEv _) = True"
| "is_fill _ = False"

lemma dispatch_safe:
  assumes "\<And>h. h \<in> set (handlers_of e) \<Longrightarrow> preserves safe (run h e)"
    and "safe w" "dispatch is_instance run e w = Some (w', x)"
  shows "safe w'"
proof -
  from assms(2,3) have "run_handlers run (handlers_of e) e w = Some (w', x)"
    by (simp add: dispatch_def matching_engine safe_def)
  from this assms(2) show ?thesis
  proof (rule run_handlers_invariant)
    fix h t t' y assume "h \<in> set (handlers_of e)" "safe t" "run h e t = Some (t', y)"
    then show "safe t'" using preservesD[OF assms(1)] by blast
  qed
qed

lemma drain_safe:
  assumes "\<And>h e. \<not> is_fill e \<Longrightarrow> preserves safe (run h e)"
  shows "preserves safe (drain_action n run)"
proof (rule preservesI)
  fix w w' x assume w: "safe w" "drain_action n run w = Some (w', x)"
  then obtain k where "drain n is_instance run w = Some (w', x, k)" by (auto simp: drain_action_def)
  then show "safe w'" using w(1)
  proof (rule drain_invariant[where P = safe and Q = "\<lambda>e. \<not> is_fill e"])
    fix e t t' y assume "safe t" "\<not> is_fill e" "dispatch is_instance run e t = Some (t', y)"
    then show "safe t'" using dispatch_safe[of e run t t' y] assms by blast
  next
    fix b en e q assume "safe (b, en)" "bus_queue b = e # q"
    then show "\<not> is_fill e \<and> safe (b\<lparr>bus_queue := q\<rparr>, en)"
      by (cases e) (auto simp: safe_def)
  qed
qed

lemma run_handler_safe: "strategy_ok cfg \<Longrightarrow> \<not> is_fill e \<Longrightarrow> preserves safe (run_handler n cfg h e)"
proof (induction n arbitrary: h e)
  case 0
  then show ?case by (simp add: preserves_def)
next
  case (Suc n)
  have d: "preserves safe (drain_action n (run_handler n cfg))" using Suc by (intro drain_safe) simp
  show ?case using Suc.prems(2) on_market_event_safe[OF Suc.prems(1) d] on_order_event_safe[OF Suc.prems(1)]
      on_signal_event_safe on_order_intent_event_safe
    by (cases e) (auto split: handler.split)
qed

section \<open>The whole run\<close>

lemma process_event_safe: "strategy_ok cfg \<Longrightarrow> \<not> is_fill e \<Longrightarrow> preserves safe (process_event fuel cfg e)"
  unfolding process_event_def publish_and_process_def
  by (rule preservesI) (rule dispatch_safe, rule run_handler_safe)

lemma drain_bus_safe: "strategy_ok cfg \<Longrightarrow> preserves safe (drain_bus fuel cfg)"
  unfolding drain_bus_def by (intro drain_safe run_handler_safe)

lemma book_ok_books: "pf_cash pf' = pf_cash pf \<Longrightarrow> pf_cash_dividends pf' = pf_cash_dividends pf \<Longrightarrow>
  book_ok pf \<Longrightarrow> book_ok pf'"
  by (simp add: book_ok_def)

lemma advance_clock_safe: "preserves safe (advance_clock e)"
  unfolding advance_clock_def by (rule preserves_try) (auto simp: safe_def bind_res_eq_Inr)

lemma mark_action_safe: "preserves safe (mark_action es)"
  unfolding mark_action_def by (rule preserves_update) (simp add: mark_closes_def safe_def book_ok_def)

lemma set_value_safe: "preserves safe (update_engine set_value)"
  by (rule preserves_update) (simp add: safe_def set_value_def)

lemma process_bar_safe: "strategy_ok cfg \<Longrightarrow> preserves safe (process_bar fuel cfg e)"
  unfolding process_bar_def
  by (intro preserves_then advance_clock_safe mark_action_safe set_value_safe process_event_safe drain_bus_safe
      preserves_update) (simp_all add: record_close_def safe_def book_ok_def record_equity_def Let_def)

lemma warmup_bar_safe: "strategy_ok cfg \<Longrightarrow> preserves safe (warmup_bar fuel cfg e)"
  unfolding warmup_bar_def by (intro preserves_then advance_clock_safe process_event_safe drain_bus_safe) simp_all

lemma decide_safe: "strategy_ok cfg \<Longrightarrow> preserves safe (decide fuel cfg day)"
  unfolding decide_def
  by (auto simp: strategy_ok_def split: option.split intro!: preserves_then call_strategy_safe drain_bus_safe)

lemma sync_positions_safe:
  assumes "strategy_ok cfg"
  shows "preserves safe (sync_positions cfg)"
proof -
  have "preserves safe (for_each (\<lambda>(s, p). call_strategy (st_on_position_update (cf_ops cfg) s (po_quantity p))) ps)"
    for ps :: positions
    using assms by (intro preserves_for_each) (auto simp: strategy_ok_def intro!: call_strategy_safe)
  then show ?thesis unfolding preserves_def sync_positions_def by blast
qed

text \<open>The boundaries of a session add non-negative dividends to the cash and touch nothing else of it.\<close>

lemma nonneg_decimal_Some: "nonneg_decimal q = Some d \<Longrightarrow> 0 \<le> val d"
  by (cases q) (auto simp: dlt_val split: if_splits)

lemma accrue_cash_book:
  assumes "accrue_cash_dividend a s q r pf = Inr (amount, pf')" "book_ok pf"
  shows "book_ok pf'"
proof -
  obtain q' r' where n: "nonneg_decimal q = Some q'" "nonneg_decimal r = Some r'"
    using assms(1) by (auto simp: accrue_cash_dividend_def split: option.splits if_splits)
  have nonneg: "dle DZERO (exact_mul q' r')"
    using n[THEN nonneg_decimal_Some] by (simp add: val_simps)
  show ?thesis
  proof (cases "dict_get (pf_cash_dividends pf) a")
    case None
    with assms n have "pf' = pf\<lparr>pf_cash_dividends := pf_cash_dividends pf @ [(a, s, q', r', exact_mul q' r')]\<rparr>"
      by (auto simp: accrue_cash_dividend_def Let_def dict_put_absent split: if_splits)
    with assms(2) nonneg show ?thesis by (simp add: book_ok_def)
  next
    case (Some p)
    with assms n show ?thesis by (auto simp: accrue_cash_dividend_def split: if_splits)
  qed
qed

lemma pay_cash_book:
  assumes "pay_cash_dividend a pf = Inr (amount, pf')" "book_ok pf"
  shows "book_ok pf'"
proof -
  obtain s q r m where g: "dict_get (pf_cash_dividends pf) a = Some (s, q, r, m)"
    using assms(1) by (auto simp: pay_cash_dividend_def split: option.splits)
  then have "(a, s, q, r, m) \<in> set (pf_cash_dividends pf)" by (rule dict_get_SomeD)
  then have "0 \<le> val m" "0 \<le> val (pf_cash pf)" using assms(2)
    by (auto simp: book_ok_def list_all_iff val_simps)
  then show ?thesis using assms g
    by (auto simp: pay_cash_dividend_def book_ok_def val_simps rnd_nonneg split: if_splits)
qed

lemma accrue_share_book:
  assumes "accrue_share_award a s q r pf = Inr (n, pf')" "book_ok pf"
  shows "book_ok pf'"
proof -
  have "pf_cash pf' = pf_cash pf \<and> pf_cash_dividends pf' = pf_cash_dividends pf"
  proof (cases "\<exists>q' r'. q = Num q' \<and> r = Num r'")
    case True
    with assms(1) show ?thesis
      by (cases "dict_get (pf_share_distributions pf) a")
        (auto simp: accrue_share_award_def bind_res_eq_Inr split: if_splits)
  next
    case False
    then obtain e where "share_distribution_quantity q r = Inl e"
      by (cases q; cases r) (auto simp: share_distribution_quantity_def split: option.splits)
    with assms(1) show ?thesis by (simp add: accrue_share_award_def split: if_splits)
  qed
  with assms(2) show ?thesis by (simp add: book_ok_def)
qed

lemma release_share_book: "release_share_award a pf = Inr (n, pf') \<Longrightarrow> book_ok pf \<Longrightarrow> book_ok pf'"
  by (auto simp: release_share_award_def bind_res_eq_Inr book_ok_def split: option.splits if_splits)

lemma session_item_book:
  assumes "session_item day d (r, pf) = Inr (r', pf')" "book_ok pf"
  shows "book_ok pf'"
proof -
  obtain r1 pf1 r2 pf2 where 1: "accrue_item day d (r, pf) = Inr (r1, pf1)"
    and 2: "pay_item day d (r1, pf1) = Inr (r2, pf2)" and 3: "list_item day d (r2, pf2) = Inr (r', pf')"
    using assms(1) by (auto simp: session_item_def bind_res_eq_Inr)
  have "book_ok pf1" using 1 assms(2) accrue_cash_book accrue_share_book
    by (auto simp: accrue_item_def bind_res_eq_Inr Let_def split: if_splits)
  then have "book_ok pf2" using 2 pay_cash_book by (auto simp: pay_item_def bind_res_eq_Inr split: if_splits)
  then show ?thesis using 3 release_share_book
    by (auto simp: list_item_def bind_res_eq_Inr split: if_splits)
qed

lemma before_session_book:
  assumes "before_session day (r, pf) = Inr (r', pf')" "book_ok pf"
  shows "book_ok pf'"
proof -
  have "fold_res (session_item day) ds (r, pf) = Inr (r', pf') \<Longrightarrow> book_ok pf \<Longrightarrow> book_ok pf'" for ds
    by (induction ds arbitrary: r pf) (auto simp: bind_res_eq_Inr dest: session_item_book)
  with assms show ?thesis by (simp add: before_session_def)
qed

lemma replay_before_safe:
  assumes "strategy_ok cfg"
  shows "preserves safe (replay_before cfg day es)"
proof -
  have "preserves safe (try_engine (open_boundary day))"
    by (rule preserves_try)
      (auto simp: open_boundary_def safe_def bind_res_eq_Inr dest: before_session_book split: option.splits)
  then have "preserves safe (then_do (mark_action es)
      (then_do (try_engine (open_boundary day)) (then_do (mark_action es) (sync_positions cfg))))"
    by (intro preserves_then mark_action_safe sync_positions_safe assms)
  then show ?thesis unfolding preserves_def replay_before_def skip_def by (auto split: if_splits)
qed

lemma replay_after_safe: "preserves safe (replay_after day)"
  unfolding replay_after_def
  by (rule preserves_try) (auto simp: close_boundary_def safe_def bind_res_eq_Inr split: option.splits)

lemma run_bars_safe:
  assumes "strategy_ok cfg"
  shows "preserves safe (run_bars fuel cfg es)"
proof -
  have b: "preserves safe (for_each (process_bar fuel cfg) xs)" for xs
    by (intro preserves_for_each process_bar_safe assms)
  then have "preserves safe (\<lambda>w1. for_each (process_bar fuel cfg) (sort_key (execution_key (snd w1)) es) w1)"
    unfolding preserves_def by blast
  then have "preserves safe (then_do (mark_action es)
      (\<lambda>w1. for_each (process_bar fuel cfg) (sort_key (execution_key (snd w1)) es) w1))"
    by (intro preserves_then mark_action_safe)
  note c = this
  show ?thesis
  proof (rule preservesI)
    fix w w' x assume w: "safe w" "run_bars fuel cfg es w = Some (w', x)"
    consider "for_each (process_bar fuel cfg) es w = Some (w', x)" | "w' = w"
      | "then_do (mark_action es) (\<lambda>w1. for_each (process_bar fuel cfg) (sort_key (execution_key (snd w1)) es) w1) w = Some (w', x)"
      using w(2) unfolding run_bars_def by (metis (no_types, lifting) Pair_inject option.inject)
    then show "safe w'" using w(1) preservesD[OF b] preservesD[OF c] by cases blast+
  qed
qed

lemma trading_session_safe: "strategy_ok cfg \<Longrightarrow> preserves safe (trading_session fuel cfg day es)"
  unfolding trading_session_def
  by (intro preserves_then preserves_update replay_before_safe run_bars_safe replay_after_safe decide_safe)
    (auto simp: settle_engine_def safe_def book_ok_def settle_portfolio_def split: option.split)

lemma run_session_safe:
  assumes "strategy_ok cfg"
  shows "preserves safe (run_session fuel cfg ses)"
proof -
  obtain day es where ses: "ses = (day, es)" by (cases ses)
  show ?thesis unfolding run_session_def ses prod.case Let_def
    by (intro preserves_then preserves_update)
      (auto simp: safe_def assms intro!: preserves_then preserves_for_each warmup_bar_safe decide_safe trading_session_safe)
qed

lemma run_events_safe:
  assumes "strategy_ok cfg"
  shows "preserves safe (run_events fuel cfg es)"
proof -
  have i: "preserves safe (call_strategy (st_on_init (cf_ops cfg) ks))" for ks
    using assms by (intro call_strategy_safe) (simp add: strategy_ok_def)
  have v: "preserves safe (validate_replay cfg es)" unfolding validate_replay_def
    by (rule preserves_try) (auto simp: bind_res_eq_Inr split: option.splits)
  have "preserves safe (then_do (update_engine (\<lambda>en. if cf_warmup_final_bar_targets cfg
         then en\<lparr>en_warmup_targets := warmup_targets cfg en es\<rparr> else en))
     (then_do (validate_replay cfg es)
     (then_do (call_strategy (st_on_init (cf_ops cfg) ks))
     (then_do (if cf_evaluation_start cfg \<noteq> None then drain_bus fuel cfg else skip)
       (for_each (run_session fuel cfg) ss)))))" for ks ss
    by (intro preserves_then preserves_update v i preserves_for_each run_session_safe assms)
      (auto simp: safe_def intro: drain_bus_safe[OF assms])
  then show ?thesis unfolding preserves_def run_events_def by blast
qed

lemma fold_add_instrument_books:
  "pf_cash (fold add_instrument is pf) = pf_cash pf \<and> pf_cash_dividends (fold add_instrument is pf) = pf_cash_dividends pf"
  by (induction "is" arbitrary: pf) (simp_all add: add_instrument_def)

lemma new_engine_safe:
  assumes "new_engine cfg instruments s = Inr w" "dle DZERO (cf_initial_cash cfg)"
  shows "safe w"
proof -
  have "book_ok (initial_portfolio (cf_initial_cash cfg) instruments)"
    using assms(2) fold_add_instrument_books[of "dict_values instruments" "new_portfolio (cf_initial_cash cfg)"]
    by (simp add: book_ok_def initial_portfolio_def new_portfolio_def)
  moreover have "bus_queue (engine_table (new_bus r)) = []" for r
    by (simp add: engine_table_queue new_bus_def)
  moreover have "\<exists>r. w = initial_world cfg instruments s r"
    using assms(1) unfolding new_engine_def by (elim bind_res_InrE if_Inl_InrE) (metis sum.inject(2))
  ultimately show ?thesis by (auto simp: safe_def initial_world_def engine_table_handlers)
qed

declare fund_loop.simps [code] shrink_to_cash.simps [code]

section \<open>Properties\<close>


text \<open>A sample: a strategy that asks for half of the equity in one stock at the first bar it sees.\<close>

definition sample_on_data :: "market_event \<Rightarrow> nat callback" where
  "sample_on_data e n = (n + 1,
     if n = 0 then [SignalEv \<lparr>sg_timestamp = me_timestamp e, sg_strategy_id = ''s'', sg_symbol = me_symbol e,
        sg_target_weight = Decimal 5 (- 1), sg_price = None\<rparr>] else [], None)"

definition sample_ops :: "nat strategy_ops" where
  "sample_ops = \<lparr>st_on_init = (\<lambda>_ n. (n, [], None)), st_on_data = sample_on_data,
     st_on_fill = (\<lambda>_ n. (n, [], None)), st_on_position_update = (\<lambda>_ _ n. (n, [], None))\<rparr>"

definition sample_config :: "nat config" where
  "sample_config = \<lparr>cf_ops = sample_ops, cf_rules = [], cf_slippage = FixedSlippage DZERO,
     cf_commission = SingleCommission GoldSpotCommission, cf_max_participation = Some (Decimal 1 (- 1)),
     cf_evaluation_start = None, cf_warmup_final_bar_targets = False, cf_observed = False, cf_strict = True,
     cf_initial_cash = Decimal 10000 0, cf_distributions = None, cf_include_shares = False, cf_persist = True,
     cf_session_decision = None, cf_session_completed = None, cf_uids = (\<lambda>_. ''u'')\<rparr>"

definition sample_bar :: "int \<Rightarrow> int \<Rightarrow> market_event" where
  "sample_bar day price = \<lparr>me_timestamp = day * day_micros, me_symbol = ''600000'', me_open = Decimal price 0,
     me_high = Decimal price 0, me_low = Decimal price 0, me_close = Decimal price 0,
     me_volume = Decimal 100000 0, me_frequency = DAILY, me_asset_class = None,
     me_instrument_type = None, me_available_at = None\<rparr>"

definition sample_instruments :: "(symbol, instrument) dict" where
  "sample_instruments = [(''600000'', make_stock ''600000'' ''PF'' None)]"

definition sample_bars :: "(symbol, market_event list) dict" where
  "sample_bars = [(''600000'', [sample_bar 1 10])]"

definition run_summary :: "'s eoutcome \<Rightarrow> (symbol list \<times> py_exc option) option" where
  "run_summary r = (case r of None \<Rightarrow> None | Some (w, exc) \<Rightarrow> Some (dict_keys (en_pending (snd w)), exc))"

lemma sample_strategy_ok: "strategy_ok sample_config"
  by (auto simp: strategy_ok_def sample_config_def sample_ops_def signals_only_def sample_on_data_def)

lemma sample_run:
  "run_summary (run_events 2 sample_config [sample_bar 1 10]
     (initial_world sample_config sample_instruments 0 None)) = Some ([''600000''], None)"
  by code_simp

lemma sample_merge: "merge_streams (cf_observed sample_config) sample_bars = Inr [sample_bar 1 10]"
  by (simp add: merge_streams_def sample_config_def sample_bars_def)

lemma sample_new:
  "new_engine sample_config sample_instruments 0 = Inr (initial_world sample_config sample_instruments 0 None)"
proof -
  have "dlt DZERO (Decimal 1 (- 1)) \<and> dle (Decimal 1 (- 1)) DONE" by code_simp
  then show ?thesis by (simp add: new_engine_def sample_config_def)
qed


end
