(* ===== verification/Engine_Progress.thy ===== *)
theory Engine_Progress
  imports Engine_Safety
begin

text \<open>
  Progress of the backtest engine: what each handler adds to the queue, the interpretation of the
  locale \<open>draining\<close> on the engine's handlers (the weight of the queue is fuel enough for every drain),
  and the termination of the loop that shrinks an order to the cash. Then the properties of one
  execution: market rules, capacity, covered sales, and that signals are executed on later bars only.
\<close>

section \<open>What a handler adds to the queue\<close>

text \<open>Strategies that publish at most \<open>K\<close> events per callback.\<close>

definition publishes_at_most :: "nat \<Rightarrow> 's callback \<Rightarrow> bool" where
  "publishes_at_most K f = (\<forall>s. length (fst (snd (f s))) \<le> K)"

definition strategy_bounded :: "nat \<Rightarrow> 's config \<Rightarrow> bool" where
  "strategy_bounded K cfg =
    ((\<forall>x. publishes_at_most K (st_on_fill (cf_ops cfg) x)) \<and>
     (\<forall>x q. publishes_at_most K (st_on_position_update (cf_ops cfg) x q)))"

fun event_weight :: "nat \<Rightarrow> event \<Rightarrow> nat" where
  "event_weight K (OrderEv _) = 2 * K + 3"
| "event_weight K (IntentEv _) = 2 * K + 4"
| "event_weight K _ = 1"

definition extends :: "nat \<Rightarrow> nat \<Rightarrow> 's eworld \<Rightarrow> 's eworld \<Rightarrow> bool" where
  "extends K k w w' = (safe w' \<and>
     (\<exists>new. bus_queue (fst w') = bus_queue (fst w) @ new \<and> sum_list (map (event_weight K) new) \<le> k))"

lemma extendsI:
  "safe w' \<Longrightarrow> bus_queue (fst w') = bus_queue (fst w) @ new \<Longrightarrow> sum_list (map (event_weight K) new) \<le> k \<Longrightarrow>
    extends K k w w'"
  unfolding extends_def by blast

lemma extends_same: "safe w' \<Longrightarrow> bus_queue (fst w') = bus_queue (fst w) \<Longrightarrow> extends K k w w'"
  by (rule extendsI[where new = "[]"]) simp_all

lemma extends_trans:
  assumes "extends K a w w1" "extends K b w1 w2"
  shows "extends K (a + b) w w2"
proof -
  obtain n1 n2 where "bus_queue (fst w1) = bus_queue (fst w) @ n1" "sum_list (map (event_weight K) n1) \<le> a"
    "bus_queue (fst w2) = bus_queue (fst w1) @ n2" "sum_list (map (event_weight K) n2) \<le> b" "safe w2"
    using assms unfolding extends_def by blast
  then show ?thesis by (intro extendsI[where new = "n1 @ n2"]) simp_all
qed

lemma extends_weaken: "extends K a w w' \<Longrightarrow> a \<le> b \<Longrightarrow> extends K b w w'"
  unfolding extends_def by (meson le_trans)

lemma extends_safe: "extends K k w w' \<Longrightarrow> safe w'"
  by (simp add: extends_def)

definition adds :: "nat \<Rightarrow> nat \<Rightarrow> 's action \<Rightarrow> bool" where
  "adds K k f = (\<forall>w w' x. safe w \<longrightarrow> f w = Some (w', x) \<longrightarrow> extends K k w w')"

lemma addsD: "adds K k f \<Longrightarrow> safe w \<Longrightarrow> f w = Some (w', x) \<Longrightarrow> extends K k w w'"
  unfolding adds_def by blast

lemma addsI: "(\<And>w w' x. safe w \<Longrightarrow> f w = Some (w', x) \<Longrightarrow> extends K k w w') \<Longrightarrow> adds K k f"
  unfolding adds_def by blast

lemma adds_weaken: "adds K k f \<Longrightarrow> k \<le> l \<Longrightarrow> adds K l f"
  unfolding adds_def by (blast intro: extends_weaken)

lemma adds_quiet:
  assumes "preserves safe f" "\<And>w w' x. f w = Some (w', x) \<Longrightarrow> bus_queue (fst w') = bus_queue (fst w)"
  shows "adds K k f"
  by (rule addsI) (rule extends_same, erule (1) preservesD[OF assms(1)], erule assms(2))

lemma adds_then:
  assumes "adds K a f" "adds K b g"
  shows "adds K (a + b) (then_do f g)"
proof (rule addsI)
  fix w w' x assume w: "safe w" "then_do f g w = Some (w', x)"
  then obtain w1 y where f: "f w = Some (w1, y)" by (auto simp: then_do_def split: option.splits)
  note 1 = addsD[OF assms(1) w(1) f]
  show "extends K (a + b) w w'"
  proof (cases y)
    case (Some e)
    with w(2) f have "w' = w1" by (simp add: then_do_def)
    with 1 show ?thesis by (auto intro: extends_weaken)
  next
    case None
    with w(2) f have "g w1 = Some (w', x)" by (simp add: then_do_def)
    from 1 addsD[OF assms(2) extends_safe[OF 1] this] show ?thesis by (rule extends_trans)
  qed
qed

lemma adds_publish: "queueable e \<Longrightarrow> adds K (event_weight K e) (publish_event e)"
  by (rule addsI, rule extendsI[where new = "[e]"]) (auto simp: publish_event_def publish_def safe_def)

lemma signal_weight: "\<forall>e \<in> set evs. class_of_event e = C_Signal \<Longrightarrow> sum_list (map (event_weight K) evs) = length evs"
proof (induction evs)
  case (Cons e evs)
  then show ?case by (cases e) simp_all
qed simp

lemma adds_call:
  assumes "signals_only f" "publishes_at_most K f"
  shows "adds K K (call_strategy f)"
proof (rule addsI)
  fix w w' x assume w: "safe w" "call_strategy f w = Some (w', x)"
  obtain s evs exc where f: "f (en_strategy (snd w)) = (s, evs, exc)" by (cases "f (en_strategy (snd w))")
  have "\<forall>e \<in> set (fst (snd (f (en_strategy (snd w))))). class_of_event e = C_Signal"
    using assms(1) unfolding signals_only_def by blast
  then have "sum_list (map (event_weight K) evs) = length evs" by (intro signal_weight) (simp add: f)
  moreover have "length (fst (snd (f (en_strategy (snd w))))) \<le> K"
    using assms(2) unfolding publishes_at_most_def by blast
  moreover have "bus_queue (fst w') = bus_queue (fst w) @ evs"
    using w(2) f by (auto simp: call_strategy_def fold_publish)
  ultimately show "extends K K w w'"
    using preservesD[OF call_strategy_safe[OF assms(1)] w] f by (intro extendsI[where new = evs]) simp_all
qed

definition disciplined :: "nat \<Rightarrow> 's config \<Rightarrow> bool" where
  "disciplined K cfg = (strategy_ok cfg \<and> strategy_bounded K cfg)"

lemma on_position_fill_adds: "disciplined K cfg \<Longrightarrow> adds K K (on_position_fill cfg fl)"
proof (rule addsI)
  fix w w' x assume w: "disciplined K cfg" "safe w" "on_position_fill cfg fl w = Some (w', x)"
  show "extends K K w w'"
  proof (cases "dict_get (pf_positions (en_portfolio (snd w))) (fl_symbol fl)")
    case None
    with w show ?thesis by (auto simp: on_position_fill_def intro: extends_same)
  next
    case (Some p)
    have a: "adds K K (call_strategy (st_on_position_update (cf_ops cfg) (fl_symbol fl) (po_quantity p)))"
      using w(1) by (intro adds_call) (simp_all add: disciplined_def strategy_ok_def strategy_bounded_def)
    have "call_strategy (st_on_position_update (cf_ops cfg) (fl_symbol fl) (po_quantity p)) w = Some (w', x)"
      using w(3) Some by (simp add: on_position_fill_def)
    then show ?thesis by (rule addsD[OF a w(2)])
  qed
qed

lemma on_portfolio_fill_queue: "on_portfolio_fill fl w = Some (w', x) \<Longrightarrow> fst w' = fst w"
  by (auto simp: on_portfolio_fill_def split: option.splits prod.splits)

text \<open>The dispatch of a fill adds what the two callbacks of the strategy publish.\<close>

lemma handlers_add:
  assumes "\<And>h. h \<in> set hs \<Longrightarrow> adds K k (run h e)"
    and "run_handlers run hs e w = Some (w', x)" "safe w"
  shows "extends K (length hs * k) w w'"
  using assms
proof (induction hs arbitrary: w)
  case (Cons h hs)
  obtain w1 y where h: "run h e w = Some (w1, y)" using Cons.prems(2) by (auto split: option.splits)
  have a: "adds K k (run h e)" by (rule Cons.prems(1)) simp
  note 1 = addsD[OF a Cons.prems(3) h]
  show ?case
  proof (cases "y \<noteq> None \<and> bus_raise (fst w1)")
    case True
    then have "w' = w1" using Cons.prems(2) h by simp
    with 1 show ?thesis by (auto intro: extends_weaken)
  next
    case False
    then have r: "run_handlers run hs e w1 = Some (w', x)" using Cons.prems(2) h by (simp split: if_splits)
    have "extends K (length hs * k) w1 w'"
      by (rule Cons.IH[OF _ r extends_safe[OF 1]]) (rule Cons.prems(1), simp)
    from extends_trans[OF 1 this] show ?thesis by simp
  qed
qed (simp add: extends_same)

lemma fill_process_adds:
  assumes d: "disciplined K cfg" and w: "safe w" "covered fl (pf_cash (en_portfolio (snd w)))"
    and p: "publish_and_process is_instance (run_handler n cfg) (FillEv fl) w = Some (w', x)"
  shows "extends K (2 * K) w w'"
proof (cases n)
  case 0
  with p w(1) show ?thesis by (simp add: publish_and_process_def dispatch_def matching_engine safe_def)
next
  case (Suc m)
  let ?run = "run_handler (Suc m) cfg"
  have hs: "run_handlers ?run [H_on_portfolio_fill, H_strategy_on_fill, H_on_position_fill] (FillEv fl) w = Some (w', x)"
    using p w(1) by (simp add: publish_and_process_def dispatch_def matching_engine safe_def Suc
        del: run_handlers.simps run_handler.simps)
  then obtain w1 x1 where 1: "on_portfolio_fill fl w = Some (w1, x1)" by (auto split: option.splits)
  then have s1: "safe w1" by (rule on_portfolio_fill_safe[OF w])
  have q1: "bus_queue (fst w1) = bus_queue (fst w)" using on_portfolio_fill_queue[OF 1] by simp
  show ?thesis
  proof (cases "x1 \<noteq> None \<and> bus_raise (fst w1)")
    case True
    with hs 1 have "w' = w1" by simp
    with s1 q1 show ?thesis by (simp add: extends_same)
  next
    case False
    then have tl: "run_handlers ?run [H_strategy_on_fill, H_on_position_fill] (FillEv fl) w1 = Some (w', x)"
      using hs 1 by (simp del: run_handlers.simps(1)) (simp split: if_splits)
    have "adds K K (call_strategy (st_on_fill (cf_ops cfg) fl))"
      using d by (intro adds_call) (simp_all add: disciplined_def strategy_ok_def strategy_bounded_def)
    then have "h \<in> set [H_strategy_on_fill, H_on_position_fill] \<Longrightarrow> adds K K (?run h (FillEv fl))" for h
      using on_position_fill_adds[OF d] by auto
    from handlers_add[OF this tl s1] have "extends K (2 * K) w1 w'" by (simp add: mult_2)
    with q1 show ?thesis by (simp add: extends_def)
  qed
qed

lemma record_fill_adds:
  assumes "disciplined K cfg" "safe w" "covered fl (pf_cash (en_portfolio (snd w)))"
    and r: "record_fill_event cfg (publish_and_process is_instance (run_handler n cfg)) fl ord w = Some (w', x)"
  shows "extends K (2 * K) w w'"
proof -
  define w0 where "w0 = (fst w, (write_row cfg (RowFill fl (asset_class_for_order ord (snd w))) (snd w))
    \<lparr>en_fills := en_fills (snd w) @ [fl]\<rparr>)"
  have w0: "safe w0" "covered fl (pf_cash (en_portfolio (snd w0)))"
    using assms(2,3) by (simp_all add: w0_def safe_def)
  obtain w1 x1 where p: "publish_and_process is_instance (run_handler n cfg) (FillEv fl) w0 = Some (w1, x1)"
    and t: "(case x1 of None \<Rightarrow> update_engine (write_row cfg (RowStatus (or_order_id ord) ''filled'')) w1
      | Some e \<Rightarrow> Some (w1, Some e)) = Some (w', x)"
    using r by (auto simp: record_fill_event_def then_do_def update_engine_def w0_def split: option.splits)
  have e: "extends K (2 * K) w0 w1" by (rule fill_process_adds[OF assms(1) w0 p])
  have "fst w' = fst w1" using t by (auto simp: update_engine_def split: option.splits)
  moreover have "safe w'"
    by (rule record_fill_safe[OF _ assms(2,3) r]) (use assms(1) in \<open>simp add: disciplined_def\<close>)
  moreover have "bus_queue (fst w0) = bus_queue (fst w)" by (simp add: w0_def)
  ultimately show ?thesis using e by (simp add: extends_def)
qed

lemma approved_adds:
  assumes "approved_order cfg ord w = (a, w')" "safe w"
  shows "extends K (if a = None then 1 else 0) w w'"
proof -
  have s: "safe w'" using approved_safe[OF assms] by simp
  show ?thesis
  proof (cases "bus_queue (fst w') = bus_queue (fst w)")
    case False
    with assms(1) obtain alert where "a = None" "bus_queue (fst w') = bus_queue (fst w) @ [AlertEv alert]"
      by (auto simp: approved_order_def Let_def publish_def split: sum.splits if_splits)
    with s show ?thesis by (intro extendsI[where new = "[AlertEv alert]"]) simp_all
  qed (use s in \<open>simp add: extends_same\<close>)
qed

lemma on_order_event_adds:
  assumes d: "disciplined K cfg"
  shows "adds K (2 * K + 2) (on_order_event cfg (publish_and_process is_instance (run_handler n cfg)) ev)"
proof (rule addsI)
  fix w w' x assume w: "safe w"
    and r: "on_order_event cfg (publish_and_process is_instance (run_handler n cfg)) ev w = Some (w', x)"
  have sw: "safe w'"
    using preservesD[OF on_order_event_safe w r] d by (simp add: disciplined_def)
  obtain a w1 where a: "approved_order cfg ev w = (a, w1)" by (cases "approved_order cfg ev w")
  note w1 = approved_safe[OF a w] and q1 = approved_adds[OF a w, of K]
  define att where "att = (case a of None \<Rightarrow> Some (Inr None, snd w1)
     | Some ord \<Rightarrow> attempt_execution cfg ord (snd w1))"
  show "extends K (2 * K + 2) w w'"
  proof (cases "en_warming_up (snd w)")
    case True
    with r w show ?thesis by (simp add: on_order_event_def extends_same)
  next
    case False
    note r' = r[unfolded on_order_event_def if_not_P[OF False] a prod.case att_def[symmetric]]
    from r' obtain ex en2 where att: "att = Some (ex, en2)" by (auto split: option.splits)
    have pf2: "en_portfolio en2 = en_portfolio (snd w1)"
      using att unfolding att_def by (auto split: option.splits dest: attempt_book)
    have w2: "extends K (if a = None then 1 else 0) w (fst w1, en2)"
      using q1 pf2 by (auto simp: extends_def safe_def)
    show ?thesis
    proof (cases ex)
      case (Inl e)
      with r' att have "w' = (fst w1, en2)" by simp
      with w2 show ?thesis by (auto intro: extends_weaken)
    next
      case (Inr execution)
      let ?dec = "case (or_intent_id ev, or_risk_decision_id ev) of
          (Some i, Some d) \<Rightarrow> publish_event (DecisionEv (decision_event ev i d (map_option fst execution)))
        | _ \<Rightarrow> skip"
      have dec: "adds K 1 ?dec"
        using adds_publish[of "DecisionEv rd" for rd]
        by (auto intro: adds_quiet simp: skip_def split: option.splits)
      show ?thesis
      proof (cases execution)
        case None
        have p: "adds K (1 + 0) (then_do ?dec skip)"
          by (rule adds_then[OF dec]) (auto intro: adds_quiet simp: skip_def)
        have "then_do ?dec skip (fst w1, en2) = Some (w', x)"
          using r' unfolding att option.case prod.case Inr sum.case None .
        from extends_trans[OF w2 addsD[OF p extends_safe[OF w2] this]]
        show ?thesis by (rule extends_weaken) simp
      next
        case (Some pr)
        obtain ord fl where pr: "pr = (ord, fl)" by (cases pr)
        have a: "a \<noteq> None" using att Inr Some by (cases a) (auto simp: att_def)
        have c: "covered fl (pf_cash (en_portfolio en2))"
          using att Inr Some pr attempt_covered pf2 unfolding att_def by (fastforce split: option.splits)
        let ?upd = "update_engine (\<lambda>en. write_row cfg (RowOrder ord (asset_class_for_order ord en)) (add_bar_filled ord fl en))"
        let ?rec = "record_fill_event cfg (publish_and_process is_instance (run_handler n cfg)) fl ord"
        have r'': "then_do ?dec (then_do ?upd ?rec) (fst w1, en2) = Some (w', x)"
          using r' unfolding att option.case prod.case Inr sum.case Some pr .
        then obtain w3 y where w3: "?dec (fst w1, en2) = Some (w3, y)" by (auto simp: then_do_def split: option.splits)
        note e3 = extends_trans[OF w2 addsD[OF dec extends_safe[OF w2] w3]]
        have s3: "snd w3 = en2"
          using w3 by (auto simp: publish_event_def skip_def split: option.splits)
        show ?thesis
        proof (cases y)
          case (Some e)
          with r'' w3 have "w' = w3" by (simp add: then_do_def)
          with e3 show ?thesis by (auto intro: extends_weaken)
        next
          case None
          let ?w4 = "(fst w3, write_row cfg (RowOrder ord (asset_class_for_order ord en2)) (add_bar_filled ord fl en2))"
          from None r'' w3 have rec: "?rec ?w4 = Some (w', x)"
            using s3 by (simp add: then_do_def update_engine_def)
          have "extends K (2 * K) ?w4 w'"
            by (rule record_fill_adds[OF d _ _ rec])
              (use extends_safe[OF e3] s3 c in \<open>simp_all add: safe_def\<close>)
          then have "extends K (2 * K) w3 w'" by (simp add: extends_def)
          from extends_trans[OF e3 this] show ?thesis by (rule extends_weaken) (use a in simp)
        qed
      qed
    qed
  qed
qed

section \<open>The drains of the engine\<close>

lemma handler_adds:
  assumes "disciplined K cfg" "queueable e" "h \<in> set (handlers_of e)"
  shows "adds K (event_weight K e - 1) (run_handler n cfg h e)"
proof (cases n)
  case 0
  then show ?thesis by (simp add: adds_def)
next
  case (Suc m)
  show ?thesis
  proof (cases e)
    case (SignalEv s)
    have "adds K 0 (on_signal_event cfg s)"
      by (rule adds_quiet[OF on_signal_event_safe])
        (auto simp: on_signal_event_def Let_def split: option.splits if_splits)
    with SignalEv assms(3) Suc show ?thesis by simp
  next
    case (IntentEv oi)
    have "extends K (2 * K + 3) w w'" if "safe w" "on_order_intent_event cfg oi w = Some (w', x)" for w w' x
    proof (cases "en_warming_up (snd w)")
      case False
      with that(2) obtain ord where q: "bus_queue (fst w') = bus_queue (fst w) @ [OrderEv ord]"
        by (auto simp: on_order_intent_event_def Let_def publish_def)
      have "safe w'" using preservesD[OF on_order_intent_event_safe that] .
      from extendsI[OF this q] show ?thesis by simp
    qed (use that in \<open>simp add: on_order_intent_event_def extends_same\<close>)
    then have "adds K (2 * K + 3) (on_order_intent_event cfg oi)" by (rule addsI)
    with IntentEv assms(3) Suc show ?thesis by (simp add: add.commute)
  next
    case (OrderEv ord)
    with on_order_event_adds[OF assms(1)] assms(3) Suc show ?thesis by simp
  qed (use assms in simp_all)
qed

definition steady :: "nat \<Rightarrow> 's config \<Rightarrow> 's eworld \<Rightarrow> bool" where
  "steady K cfg w = (disciplined K cfg \<and> safe w)"

interpretation engine_drain: draining is_instance "run_handler n cfg" "event_weight K" queueable "steady K cfg"
  for n and cfg :: "'s config" and K
proof
  fix s :: "'s eworld" and e s' exc
  assume s: "steady K cfg s" "queueable e" and d: "dispatch is_instance (run_handler n cfg) e s = Some (s', exc)"
  have "run_handlers (run_handler n cfg) (handlers_of e) e s = Some (s', exc)"
    using s(1) d by (simp add: dispatch_def matching_engine safe_def steady_def)
  from handlers_add[OF handler_adds this, of K] s
  have x: "extends K (length (handlers_of e) * (event_weight K e - 1)) s s'" by (simp add: steady_def)
  have "length (handlers_of e) * (event_weight K e - 1) < event_weight K e" using s(2) by (cases e) simp_all
  with x s(1) show "steady K cfg s' \<and>
      (\<exists>new. bus_queue (fst s') = bus_queue (fst s) @ new \<and> sum_list (map (event_weight K) new) < event_weight K e)"
    unfolding extends_def steady_def by (meson le_less_trans)
next
  fix b :: engine_bus and w :: "'s engine" and e q
  assume "steady K cfg (b, w)" "bus_queue b = e # q"
  then show "queueable e \<and> steady K cfg (b\<lparr>bus_queue := q\<rparr>, w)" by (simp add: steady_def safe_def)
qed

section \<open>Shrinking an order to the cash ends\<close>

lemma dmul_lots_smaller:
  assumes "grid k lot" "0 < val lot" "val q = of_nat (Suc m) * val lot" "grid k q"
    and n: "val n = of_int i" and neg: "cr (of_int i * val lot) < of_nat m * val lot"
  shows "cr (of_int i * val lot) \<le> 0 \<or> (\<exists>j<m. cr (of_int i * val lot) = of_nat j * val lot \<and> gridv k (of_nat j * val lot))"
proof (cases "0 \<le> i")
  case False
  then have "of_int i * val lot \<le> 0" using assms(2) by (simp add: mult_le_0_iff)
  then show ?thesis using rnd_mono[of "of_int i * val lot" 0 28] by simp
next
  case True
  then obtain j where j: "i = int j" using nonneg_int_cases by blast
  have sub: "gridv k (of_nat j' * val lot)" if "j' \<le> Suc m" for j'
  proof -
    obtain l where l: "val lot = of_int l * 10 powi k" "\<bar>l\<bar> \<le> 10 ^ 28" using assms(1) unfolding gridv_iff by blast
    obtain z where z: "val q = of_int z * 10 powi k" "\<bar>z\<bar> \<le> 10 ^ 28" using assms(4) unfolding gridv_iff by blast
    have "of_int z * (10::rat) powi k = of_int (int (Suc m) * l) * 10 powi k" using z l assms(3) by (simp add: ac_simps)
    then have "z = int (Suc m) * l" using powi10_pos[of k] by (metis less_irrefl mult_right_cancel of_int_eq_iff)
    moreover have "0 \<le> l" using assms(2) l(1) powi10_pos[of k] by (simp add: zero_less_mult_iff)
    ultimately have "\<bar>int j' * l\<bar> \<le> 10 ^ 28" using z(2) that
      by (smt (verit) mult_nonneg_nonneg mult_right_mono of_nat_0_le_iff of_nat_le_iff)
    then show ?thesis unfolding gridv_iff using l(1) by (intro exI[of _ "int j' * l"]) simp
  qed
  have "j < m"
  proof (rule ccontr)
    assume "\<not> j < m"
    then have "of_nat m * val lot \<le> of_int i * val lot" using assms(2) j by simp
    then have "cr (of_nat m * val lot) \<le> cr (of_int i * val lot)" by (intro rnd_mono) simp_all
    moreover have "cr (of_nat m * val lot) = of_nat m * val lot" using sub[of m] by simp
    ultimately show False using neg by simp
  qed
  then show ?thesis using j sub[of j] by (intro disjI2 exI[of _ j]) simp
qed

lemma next_quantity_smaller:
  assumes "grid k lot" "0 < val lot" "val q = of_nat (Suc m) * val lot" "grid k q"
    and n: "next_quantity lot cash fee price q = Inr q'"
  shows "val q' \<le> 0 \<or> (\<exists>j\<le>m. val q' = of_nat j * val lot \<and> grid k q')"
proof -
  obtain x n where x: "dfloordiv x lot = Inr n" and q': "q' = dmin (dsub q lot) (dmul n lot)"
    using n by (auto simp: next_quantity_def bind_res_eq_Inr)
  have "\<exists>j. n = Decimal j 0"
    using x by (auto simp: dfloordiv_def Let_def split: if_splits prod.splits)
  then obtain i where i: "val n = of_int i" by (auto simp: val_def)
  have diff: "val q - val lot = of_nat m * val lot" using assms(3) by (simp add: algebra_simps)
  have g: "gridv k (val q - val lot)" using assms(1-4)
    by (intro gridv_diff) (simp_all add: algebra_simps)
  have s: "val (dsub q lot) = of_nat m * val lot" using g diff by (simp add: val_simps)
  have d: "val (dmul n lot) = cr (of_int i * val lot)" by (simp add: val_simps i)
  show ?thesis
  proof (cases "cr (of_int i * val lot) < of_nat m * val lot")
    case True
    then have "val q' = cr (of_int i * val lot)" by (simp add: q' val_dmin s d)
    with dmul_lots_smaller[OF assms(1-4) i True] show ?thesis by (metis less_imp_le)
  next
    case False
    then have "val q' = of_nat m * val lot" by (simp add: q' val_dmin s d)
    then show ?thesis using g diff by auto
  qed
qed

lemma fund_loop_ends:
  assumes "grid k (in_lot_size inst)" "0 < val (in_lot_size inst)"
    and "val q \<le> 0 \<or> (val q = of_nat m * val (in_lot_size inst) \<and> grid k q)"
  shows "\<exists>r u'. fund_loop cfg inst ord cash u q = Some (r, u') \<and> u' \<le> u + m"
  using assms(3)
proof (induction m arbitrary: q u rule: less_induct)
  case (less m)
  note step = fund_loop.simps[of cfg inst ord cash u q]
  show ?case
  proof (cases "0 < val q")
    case False
    then have "fund_loop cfg inst ord cash u q = Some (Inr None, u)" by (simp add: step dlt_val)
    then show ?thesis by simp
  next
    case True
    then have q: "val q = of_nat m * val (in_lot_size inst)" "grid k q" using less.prems by auto
    then obtain m' where m: "m = Suc m'" using True by (cases m) auto
    let ?fl = "resolve_fill cfg inst (cf_uids cfg u) (ord\<lparr>or_quantity := q\<rparr>)"
    show ?thesis
    proof (cases "total_trade_fee (fl_commission ?fl) (fl_fee_breakdown ?fl)")
      case (Inl e)
      with True show ?thesis using m by (simp add: step dlt_val)
    next
      case (Inr fee)
      let ?debit = "if or_side ord = BUY then dadd (dmul (fl_price ?fl) (fl_quantity ?fl)) fee
        else dsub fee (dmul (fl_price ?fl) (fl_quantity ?fl))"
      show ?thesis
      proof (cases "dle (fl_price ?fl) DZERO \<or> dle ?debit cash \<or> or_side ord = SELL")
        case True
        then show ?thesis using Inr \<open>0 < val q\<close> m by (auto simp: step dlt_val Let_def)
      next
        case False
        then have buy: "or_side ord = BUY" by (cases "or_side ord") auto
        with False have over: "\<not> dle (dadd (dmul (fl_price ?fl) q) fee) cash" by simp
        show ?thesis
        proof (cases "next_quantity (in_lot_size inst) cash fee (fl_price ?fl) q")
          case (Inl e)
          with Inr False buy over True show ?thesis using m by (simp add: step dlt_val Let_def)
        next
          case (Inr q')
          have "fund_loop cfg inst ord cash u q = fund_loop cfg inst ord cash (Suc u) q'"
            using Inr \<open>total_trade_fee _ _ = _\<close> False buy over True by (simp add: step dlt_val Let_def)
          moreover obtain j where j: "j \<le> m'" "val q' \<le> 0 \<or> (val q' = of_nat j * val (in_lot_size inst) \<and> grid k q')"
            using next_quantity_smaller[OF assms(1,2) _ q(2) Inr] q(1) m by blast
          moreover obtain r u' where "fund_loop cfg inst ord cash (Suc u) q' = Some (r, u')" "u' \<le> Suc u + j"
            using less.IH[OF _ j(2)] j(1) m by (metis le_imp_less_Suc)
          ultimately show ?thesis using m by auto
        qed
      qed
    qed
  qed
qed

section \<open>Market rules, capacity and covered sales\<close>

definition closed_market :: "'s engine \<Rightarrow> order_event \<Rightarrow> market_event \<Rightarrow> instrument \<Rightarrow> bool" where
  "closed_market en ord bar inst =
    (is_suspended (me_volume bar) \<or>
     (case dict_get (en_previous_close en) (or_symbol ord) of None \<Rightarrow> False
      | Some previous \<Rightarrow> dlt DZERO (in_limit_pct inst) \<and>
          (if or_side ord = BUY
           then is_limit_up (me_close bar) previous (in_limit_pct inst) (in_price_tick inst)
           else is_limit_down (me_close bar) previous (in_limit_pct inst) (in_price_tick inst)) = Inr True) \<or>
     (case en_replay en of None \<Rightarrow> False
      | Some r \<Rightarrow> list_ex (\<lambda>d. sd_symbol d = or_symbol ord \<and> sd_ex_date d = session_date en bar)
          (dr_distributions r)))"

lemma closed_market_blocks:
  assumes bar: "en_current en = Some bar" "me_symbol bar = or_symbol ord"
    and inst: "dict_get (en_instruments en) (or_symbol ord) = Some inst" "in_type inst \<in> {IT_STOCK, IT_ETF}"
    and c: "closed_market en ord bar inst"
  shows "\<exists>en1. tradeable_order ord en = Inr (False, en1)"
proof -
  have mp: "known_market_price (or_symbol ord) en = Some (me_close bar)"
    using bar by (simp add: known_market_price_def)
  show ?thesis
  proof (cases "dle (me_close bar) DZERO")
    case True
    then show ?thesis by (simp add: tradeable_order_def mp)
  next
    case False
    define x where "x = (case en_replay en of
        None \<Rightarrow> (False, en)
      | Some r \<Rightarrow> (case blocks_execution (or_symbol ord) (session_date en bar) r of
          (blocked, r') \<Rightarrow> (blocked, en\<lparr>en_replay := Some r'\<rparr>)))"
    obtain blocked en1 where x1: "x = (blocked, en1)" by (cases x)
    have same: "en_previous_close en1 = en_previous_close en"
      and b: "blocked = (case en_replay en of None \<Rightarrow> False
      | Some r \<Rightarrow> list_ex (\<lambda>d. sd_symbol d = or_symbol ord \<and> sd_ex_date d = session_date en bar)
          (dr_distributions r))"
      using x1 by (auto simp: x_def blocks_execution_def Let_def split: option.splits)
    have t: "tradeable_order ord en =
       (if blocked then Inr (False, en1)
        else if is_suspended (me_volume bar)
        then Inr (False, en1\<lparr>en_suspension_blocked := en_suspension_blocked en1 + 1\<rparr>)
        else (case dict_get (en_previous_close en) (or_symbol ord) of
            None \<Rightarrow> Inr (True, en1)
          | Some previous \<Rightarrow>
              if dle (in_limit_pct inst) DZERO then Inr (True, en1)
              else bind_res
                (if or_side ord = BUY
                 then is_limit_up (me_close bar) previous (in_limit_pct inst) (in_price_tick inst)
                 else is_limit_down (me_close bar) previous (in_limit_pct inst) (in_price_tick inst))
                (\<lambda>blocked. Inr (\<not> blocked,
                  if blocked then en1\<lparr>en_limit_blocked := en_limit_blocked en1 + 1\<rparr> else en1))))"
      unfolding tradeable_order_def Let_def mp option.case bar(1) inst(1) prod.case x_def[symmetric] x1
      using False bar(2) inst(2) same by (simp cong: option.case_cong)
    show ?thesis
    proof (cases "blocked \<or> is_suspended (me_volume bar)")
      case True
      then show ?thesis unfolding t by auto
    next
      case open_: False
      then obtain previous where p: "dict_get (en_previous_close en) (or_symbol ord) = Some previous"
        "dlt DZERO (in_limit_pct inst)"
        "(if or_side ord = BUY
          then is_limit_up (me_close bar) previous (in_limit_pct inst) (in_price_tick inst)
          else is_limit_down (me_close bar) previous (in_limit_pct inst) (in_price_tick inst)) = Inr True"
        using c b by (auto simp: closed_market_def split: option.splits)
      then have "\<not> dle (in_limit_pct inst) DZERO" by (simp add: val_simps)
      with open_ p show ?thesis unfolding t by simp
    qed
  qed
qed

section \<open>Properties\<close>

text \<open>C9: the market rules of a session hold at execution. While a share or fund is suspended, closes at
  its upper limit (for a purchase) or at its lower limit (for a sale), or is on the ex-date of a
  distribution that is being replayed, an order for it is not executed: the attempt returns, without
  an exception, no fill, and leaves the portfolio as it is.\<close>

theorem no_execution_on_closed_market:
  assumes "en_current en = Some bar" "me_symbol bar = or_symbol ord"
    and "dict_get (en_instruments en) (or_symbol ord) = Some inst" "in_type inst \<in> {IT_STOCK, IT_ETF}"
    and "closed_market en ord bar inst"
  shows "\<exists>en'. attempt_execution cfg ord en = Some (Inr None, en') \<and> en_portfolio en' = en_portfolio en"
proof -
  obtain en1 where "tradeable_order ord en = Inr (False, en1)" using closed_market_blocks[OF assms] by blast
  then have "attempt_execution cfg ord en = Some (Inr None, en1)" by (simp add: attempt_execution_def)
  with attempt_book show ?thesis by blast
qed

definition sample_order :: "order_side \<Rightarrow> int \<Rightarrow> order_event" where
  "sample_order side n = \<lparr>or_timestamp = 0, or_order_id = ''o'', or_symbol = ''600000'', or_side = side,
     or_order_type = MARKET, or_quantity = Decimal n 0, or_price = Some (Decimal 10 0), or_intent_id = None,
     or_risk_decision_id = None, or_execution_mode = ''paper'', or_asset_class = None\<rparr>"

definition sample_engine :: "int \<Rightarrow> nat engine" where
  "sample_engine close = (snd (initial_world sample_config sample_instruments 0 None))
     \<lparr>en_current := Some (sample_bar 2 close), en_previous_close := [(''600000'', Decimal 10 0)]\<rparr>"

lemma no_execution_on_closed_market_witness:
  "\<exists>en'. attempt_execution sample_config (sample_order BUY 100) (sample_engine 11) = Some (Inr None, en') \<and>
    en_portfolio en' = en_portfolio (sample_engine 11)"
proof (rule no_execution_on_closed_market)
  show "en_current (sample_engine 11) = Some (sample_bar 2 11)" by (simp add: sample_engine_def)
  show "me_symbol (sample_bar 2 11) = or_symbol (sample_order BUY 100)"
    by (simp add: sample_bar_def sample_order_def)
  show "dict_get (en_instruments (sample_engine 11)) (or_symbol (sample_order BUY 100)) =
      Some (make_stock ''600000'' ''PF'' None)"
    by (simp add: sample_engine_def sample_order_def initial_world_def sample_instruments_def)
  show "in_type (make_stock ''600000'' ''PF'' None) \<in> {IT_STOCK, IT_ETF}" by (simp add: make_stock_def)
  show "closed_market (sample_engine 11) (sample_order BUY 100) (sample_bar 2 11) (make_stock ''600000'' ''PF'' None)"
    by code_simp
qed

text \<open>C10: an order is cut to the capacity of its bar. When a participation limit is configured and an order
  passes the capacity check, its quantity is positive, not larger than what was ordered, and not larger
  than what the limit leaves of the bar's volume after the earlier fills of that bar.\<close>

theorem capacity_respects_participation:
  assumes "capacity_order cfg ord en = Inr (Some ord', en')" "cf_max_participation cfg = Some p"
    and "en_current en = Some bar" "dict_get (en_instruments en) (or_symbol ord) = Some inst"
    and "dlt DZERO (in_lot_size inst)"
  shows "dlt DZERO (or_quantity ord') \<and> dle (or_quantity ord') (or_quantity ord) \<and>
    dle (or_quantity ord')
      (dmax DZERO (dsub (dmul (me_volume bar) p) (bar_filled_of (me_symbol bar) (me_timestamp bar) en)))"
proof -
  let ?remaining = "if dlt DZERO (me_volume bar)
      then dmax DZERO (dsub (dmul (me_volume bar) p) (bar_filled_of (me_symbol bar) (me_timestamp bar) en))
      else DZERO"
  let ?cap = "dmax DZERO (dsub (dmul (me_volume bar) p) (bar_filled_of (me_symbol bar) (me_timestamp bar) en))"
  obtain n where n: "dfloordiv ?remaining (in_lot_size inst) = Inr n"
    and q: "or_quantity ord' = (if or_side ord = SELL \<and> dle (or_quantity ord) ?remaining
        then or_quantity ord else dmin (or_quantity ord) (dmul n (in_lot_size inst)))"
    and pos: "\<not> dle (or_quantity ord') DZERO"
    using assms(1-4) by (auto simp: capacity_order_def Let_def bind_res_eq_Inr split: if_splits)
  have r0: "0 \<le> val ?remaining" by (simp add: val_dmax)
  have rc: "val ?remaining \<le> val ?cap" by (simp add: val_dmax)
  have "cr (val ?remaining) = val ?remaining"
    by (simp add: val_dmax val_dsub max_def)
  moreover have "val n * val (in_lot_size inst) \<le> val ?remaining"
  proof -
    have l: "0 < val (in_lot_size inst)" using assms(5) by (simp add: val_simps)
    from dfloordiv_Inr[OF n r0 l] have "val n \<le> val ?remaining / val (in_lot_size inst)" by linarith
    with l show ?thesis by (simp add: pos_le_divide_eq)
  qed
  ultimately have "cr (val n * val (in_lot_size inst)) \<le> val ?remaining"
    using rnd_mono[of "val n * val (in_lot_size inst)" "val ?remaining" 28] by simp
  then have "val (dmul n (in_lot_size inst)) \<le> val ?cap" using rc by (simp add: val_dmul)
  then have "val (or_quantity ord') \<le> val ?cap \<and> val (or_quantity ord') \<le> val (or_quantity ord)"
    using rc unfolding q by (auto simp: val_dmin dle_val)
  with pos show ?thesis by (simp add: dle_val dlt_val)
qed

lemma capacity_respects_participation_witness:
  "\<exists>ord' en'. capacity_order sample_config (sample_order BUY 20000) (sample_engine 10) = Inr (Some ord', en') \<and>
    val (or_quantity ord') = 10000 \<and> dle (or_quantity ord') (dmax DZERO (dsub (dmul (Decimal 100000 0) (Decimal 1 (- 1)))
      (bar_filled_of (me_symbol (sample_bar 2 10)) (me_timestamp (sample_bar 2 10)) (sample_engine 10))))"
proof -
  let ?r = "capacity_order sample_config (sample_order BUY 20000) (sample_engine 10)"
  have "case ?r of Inr (Some ord', _) \<Rightarrow> deq (or_quantity ord') (Decimal 10000 0) | _ \<Rightarrow> False" by code_simp
  then obtain ord' en' where r: "?r = Inr (Some ord', en')" "deq (or_quantity ord') (Decimal 10000 0)"
    by (auto split: sum.splits option.splits)
  have "dlt DZERO (in_lot_size (make_stock ''600000'' ''PF'' None))" by code_simp
  with capacity_respects_participation[OF r(1), of "Decimal 1 (- 1)" "sample_bar 2 10" "make_stock ''600000'' ''PF'' None"]
  have "dle (or_quantity ord') (dmax DZERO (dsub (dmul (Decimal 100000 0) (Decimal 1 (- 1)))
      (bar_filled_of (me_symbol (sample_bar 2 10)) (me_timestamp (sample_bar 2 10)) (sample_engine 10))))"
    by (simp add: sample_config_def sample_engine_def initial_world_def sample_instruments_def sample_order_def sample_bar_def)
  with r show ?thesis by (intro exI[of _ ord'] exI[of _ en'] conjI) (simp_all add: val_simps)
qed

text \<open>C3: only shares that are available are sold. An order that passes the rules and is executed as a sale
  sells at most the quantity of the position that is available at that moment: shares bought under
  T+1 in the same session, and awarded shares not yet listed, cannot be sold.\<close>

theorem sales_are_covered:
  assumes "approved_order cfg ev w = (Some ord, w1)"
    and "attempt_execution cfg ord (snd w1) = Some (Inr (Some (ord', fl)), en2)" "fl_side fl = SELL"
  shows "dle (fl_quantity fl)
    (case dict_get (pf_positions (en_portfolio (snd w))) (fl_symbol fl) of None \<Rightarrow> DZERO | Some p \<Rightarrow> available_qty p)"
proof -
  have c: "fl_side fl = or_side ord" "fl_symbol fl = or_symbol ord"
    "or_side ord = SELL \<longrightarrow> val (fl_quantity fl) \<le> val (or_quantity ord)"
    using attempt_covered[OF assms(2)] by auto
  have "\<not> dlt (case dict_get (pf_positions (en_portfolio (snd w))) (or_symbol ord) of
      None \<Rightarrow> DZERO | Some p \<Rightarrow> available_qty p) (or_quantity ord)"
    using assms(1,3) c(1) by (auto simp: approved_order_def Let_def split: sum.splits if_splits)
  then have "val (or_quantity ord) \<le> val (case dict_get (pf_positions (en_portfolio (snd w))) (or_symbol ord) of
      None \<Rightarrow> DZERO | Some p \<Rightarrow> available_qty p)" by (simp only: dlt_val not_less)
  with c assms(3) show ?thesis by (simp only: dle_val) simp
qed

definition holding_world :: "nat eworld" where
  "holding_world = (engine_table (new_bus True), (sample_engine 10)\<lparr>en_portfolio :=
     (new_portfolio (Decimal 1000 0))\<lparr>pf_positions :=
       [(''600000'', (new_position ''600000'')\<lparr>po_quantity := Decimal 300 0\<rparr>)]\<rparr>\<rparr>)"

lemma sample_sale_tradeable:
  "tradeable_order (sample_order SELL 200) (snd holding_world) = Inr (True, snd holding_world)"
proof -
  have "is_limit_down (Decimal 10 0) (Decimal 10 0) MAIN_BOARD_LIMIT_PCT (Decimal 1 (- 2)) = Inr False"
    "\<not> is_suspended (Decimal 100000 0)" "\<not> dle (Decimal 10 0) DZERO" "\<not> dle MAIN_BOARD_LIMIT_PCT DZERO"
    "str_startswith ''600000'' [''3'', ''68''] = False"
    by code_simp+
  then show ?thesis
    by (simp add: tradeable_order_def known_market_price_def holding_world_def sample_engine_def
        initial_world_def sample_order_def sample_bar_def sample_instruments_def make_stock_def Let_def)
qed

lemma sample_sale_capacity:
  "capacity_order sample_config (sample_order SELL 200) (snd holding_world) =
    Inr (Some (sample_order SELL 200), snd holding_world)"
proof -
  let ?r = "dmax DZERO (dsub (dmul (Decimal 100000 0) (Decimal 1 (- 1))) DZERO)"
  have "\<not> dle (Decimal 200 0) DZERO" "dlt DZERO (Decimal 100000 0)" "dle (Decimal 200 0) ?r"
    "\<not> dlt (Decimal 200 0) (Decimal 200 0)" "dfloordiv ?r (Decimal 100 0) = Inr (Decimal 100 0)"
    by code_simp+
  then show ?thesis
    by (simp add: capacity_order_def bar_filled_of_def dict_get_default_def holding_world_def sample_engine_def
        sample_config_def initial_world_def sample_order_def sample_bar_def sample_instruments_def make_stock_def Let_def)
qed

lemma sample_sale_funded:
  "\<exists>fl en'. cash_funded_fill sample_config (sample_order SELL 200) (snd holding_world) =
    Some (Inr (Some (sample_order SELL 200, fl)), en')"
proof -
  let ?b = "breakdown GoldSpotCommission SELL (Decimal 10 0) (Decimal 200 0)"
  have "dsub (Decimal 10 0) DZERO = Decimal 10 0" "dlt DZERO (Decimal 200 0)" "\<not> dle (Decimal 10 0) DZERO"
    "dle (dsub (dabs (fb_total_fee ?b)) (dmul (Decimal 10 0) (Decimal 200 0))) (Decimal 1000 0)"
    "deq (Decimal 10 0) DZERO = False" "\<not> dle (Decimal 200 0) DZERO"
    by code_simp+
  then show ?thesis
    by (simp add: cash_funded_fill_def fund_loop.simps resolve_fill_def execute_def apply_slippage_def or_none_def
        json_total_fee holding_world_def sample_engine_def sample_config_def initial_world_def sample_order_def
        sample_instruments_def make_stock_def new_portfolio_def Let_def del: breakdown.simps)
qed

lemma sales_are_covered_witness:
  "\<exists>ord' fl en2. attempt_execution sample_config (sample_order SELL 200) (snd holding_world) =
      Some (Inr (Some (ord', fl)), en2) \<and>
    dle (fl_quantity fl) (case dict_get (pf_positions (en_portfolio (snd holding_world))) (fl_symbol fl) of
      None \<Rightarrow> DZERO | Some p \<Rightarrow> available_qty p)"
proof -
  obtain fl en2 where a: "attempt_execution sample_config (sample_order SELL 200) (snd holding_world) =
      Some (Inr (Some (sample_order SELL 200, fl)), en2)"
    using sample_sale_funded by (auto simp: attempt_execution_def sample_sale_tradeable sample_sale_capacity)
  have "\<not> dlt (available_qty ((new_position ''600000'')\<lparr>po_quantity := Decimal 300 0\<rparr>)) (Decimal 200 0)" by code_simp
  then have p: "approved_order sample_config (sample_order SELL 200) holding_world =
      (Some (sample_order SELL 200), holding_world)"
    by (simp add: approved_order_def sample_config_def sample_order_def holding_world_def new_portfolio_def Let_def)
  have "fl_side fl = SELL" using attempt_covered[OF a] by (simp add: sample_order_def)
  from a sales_are_covered[OF p a this] show ?thesis by (intro exI conjI)
qed

text \<open>C2: signals are executed on later bars only. A signal that the strategy gives while a bar is current is
  not sized by any bar of its symbol with the same or an earlier time: such a bar only hands itself to the
  strategy, drains, and records its close. No decision can trade on the bar it was made from.\<close>

theorem signals_execute_on_later_bars:
  assumes "on_signal_event cfg sg w = Some (w1, None)" "en_current (snd w) = Some bar"
    and "snd w1 \<noteq> snd w \<or> dict_get (en_pending (snd w)) (sg_symbol sg) = None"
    and "me_symbol ev = sg_symbol sg" "me_timestamp ev \<le> me_timestamp bar"
  shows "on_market_event cfg drain_all ev w1 =
    then_do (update_engine (\<lambda>en. en\<lparr>en_current := Some ev\<rparr>))
     (then_do (call_strategy (st_on_data (cf_ops cfg) ev))
     (then_do drain_all
       (update_engine (\<lambda>en. en\<lparr>en_previous_close :=
          dict_put (me_symbol ev) (me_close ev) (en_previous_close en)\<rparr>)))) w1"
proof -
  have "case dict_get (en_pending (snd w1)) (sg_symbol sg) of None \<Rightarrow> True
    | Some p \<Rightarrow> me_timestamp bar \<le> sg_timestamp p"
    using assms(1-3) by (auto simp: on_signal_event_def Let_def dict_get_put split: option.splits if_splits)
  then show ?thesis using assms(4,5)
    by (auto simp: on_market_event_def then_do_def update_engine_def skip_def split: option.splits)
qed

lemma signals_execute_on_later_bars_witness:
  "\<exists>w1. on_signal_event sample_config \<lparr>sg_timestamp = 0, sg_strategy_id = ''s'', sg_symbol = ''600000'',
      sg_target_weight = DZERO, sg_price = None\<rparr> (new_bus True, sample_engine 10) = Some (w1, None) \<and>
    on_market_event sample_config skip (sample_bar 2 12) w1 =
    then_do (update_engine (\<lambda>en. en\<lparr>en_current := Some (sample_bar 2 12)\<rparr>))
     (then_do (call_strategy (st_on_data (cf_ops sample_config) (sample_bar 2 12)))
     (then_do skip
       (update_engine (\<lambda>en. en\<lparr>en_previous_close :=
          dict_put (me_symbol (sample_bar 2 12)) (me_close (sample_bar 2 12)) (en_previous_close en)\<rparr>)))) w1"
proof -
  let ?s = "\<lparr>sg_timestamp = 0, sg_strategy_id = ''s'', sg_symbol = ''600000'', sg_target_weight = DZERO, sg_price = None\<rparr>"
  let ?w = "(new_bus True, sample_engine 10) :: nat eworld"
  have e: "\<exists>w1. on_signal_event sample_config ?s ?w = Some (w1, None)"
    by (simp add: on_signal_event_def sample_engine_def initial_world_def sample_config_def Let_def)
  then obtain w1 where w1: "on_signal_event sample_config ?s ?w = Some (w1, None)" by blast
  have "en_current (snd ?w) = Some (sample_bar 2 10)" "dict_get (en_pending (snd ?w)) (sg_symbol ?s) = None"
    by (simp_all add: sample_engine_def initial_world_def)
  from signals_execute_on_later_bars[OF w1 this(1) disjI2[OF this(2)], of "sample_bar 2 12" skip] w1
  show ?thesis by (intro exI[of _ w1] conjI) (simp_all add: sample_bar_def)
qed

text \<open>C11: shrinking an order to the cash ends. When the lot is positive and the quantity is a whole number
  \<open>m\<close> of lots within the precision of the arithmetic, the loop that funds an order returns after at
  most \<open>m\<close> priced attempts, whatever the fees, the slippage and the price are.\<close>

theorem order_funding_returns:
  assumes "grid k (in_lot_size inst)" "dlt DZERO (in_lot_size inst)"
    and "val q = of_nat m * val (in_lot_size inst)" "grid k q"
  shows "\<exists>r u'. fund_loop cfg inst ord cash u q = Some (r, u') \<and> u' \<le> u + m"
proof -
  have "0 < val (in_lot_size inst)" using assms(2) by (simp add: dlt_val)
  from fund_loop_ends[OF assms(1) this] assms(3,4) show ?thesis by blast
qed

lemma order_funding_returns_witness:
  "\<exists>r u'. fund_loop sample_config (make_stock ''600000'' ''PF'' None) (sample_order BUY 500) (Decimal 2000 0) 0
     (Decimal 500 0) = Some (r, u') \<and> u' \<le> 5"
proof -
  have "grid 0 (in_lot_size (make_stock ''600000'' ''PF'' None))" "grid 0 (Decimal 500 0)"
    by (simp_all add: make_stock_def gridv_def val_def)
  with order_funding_returns[of 0 "make_stock ''600000'' ''PF'' None" "Decimal 500 0" 5 sample_config
      "sample_order BUY 500" "Decimal 2000 0" 0]
  show ?thesis by (simp add: make_stock_def val_def dlt_val)
qed

text \<open>C12: a drain of the engine needs no more steps than the weight of its queue. For a strategy that publishes
  at most \<open>K\<close> signals per callback, with every event but an order or an intent weighing one, draining with
  any two amounts of fuel above the weight of the queue gives the same result; so when a drain does not
  return then one of the dispatches that it makes does not return.\<close>

theorem engine_drain_needs_no_more_fuel:
  assumes "strategy_ok cfg" "strategy_bounded K cfg" "safe w"
    and "sum_list (map (event_weight K) (bus_queue (fst w))) < fuel"
    and "sum_list (map (event_weight K) (bus_queue (fst w))) < fuel'"
  shows "drain_action fuel (run_handler n cfg) w = drain_action fuel' (run_handler n cfg) w \<and>
    (drain_action fuel (run_handler n cfg) w = None \<longrightarrow>
      (\<exists>t e. safe t \<and> queueable e \<and> dispatch is_instance (run_handler n cfg) e t = None))"
proof -
  have s: "steady K cfg w" using assms(1-3) by (simp add: steady_def disciplined_def)
  have l: "engine_drain.load K w = sum_list (map (event_weight K) (bus_queue (fst w)))"
    by (simp add: engine_drain.load_def)
  have "drain fuel is_instance (run_handler n cfg) w = drain fuel' is_instance (run_handler n cfg) w"
    by (rule engine_drain.drain_stable[OF s]) (simp_all add: l assms)
  moreover have "drain fuel is_instance (run_handler n cfg) w = None \<Longrightarrow>
      \<exists>t e. steady K cfg t \<and> queueable e \<and> dispatch is_instance (run_handler n cfg) e t = None"
    by (rule engine_drain.drain_enough[OF s]) (simp_all add: l assms)
  ultimately show ?thesis by (auto simp: drain_action_def steady_def)
qed

lemma engine_drain_needs_no_more_fuel_witness:
  "let w = (engine_table (new_bus True)\<lparr>bus_queue := [OrderEv (sample_order BUY 100)]\<rparr>, sample_engine 10) in
   drain_action 4 (run_handler 3 sample_config) w = drain_action 9 (run_handler 3 sample_config) w"
proof -
  let ?w = "(engine_table (new_bus True)\<lparr>bus_queue := [OrderEv (sample_order BUY 100)]\<rparr>, sample_engine 10) :: nat eworld"
  have pf: "en_portfolio (sample_engine 10) = initial_portfolio (Decimal 10000 0) sample_instruments"
    by (simp add: sample_engine_def initial_world_def sample_config_def)
  have "safe (initial_world sample_config sample_instruments 0 None)"
    using new_engine_safe[OF sample_new] by (simp add: sample_config_def val_simps val_def)
  then have "safe ?w"
    using pf by (simp add: safe_def initial_world_def engine_table_handlers sample_config_def)
  moreover have "strategy_bounded 0 sample_config"
    by (simp add: strategy_bounded_def publishes_at_most_def sample_config_def sample_ops_def)
  ultimately show ?thesis
    using engine_drain_needs_no_more_fuel[OF sample_strategy_ok, of 0 ?w 4 9 3] by (simp add: Let_def)
qed

end
