(* ===== verification/Replay_Streams.thy ===== *)
theory Replay_Streams
  imports Engine_Safety
begin

text \<open>
  The two ways a backtest reads its bars: the eager one collects and sorts every event
  (\<open>_merge_streams\<close>, theory \<open>Engine_Run\<close>), the streaming one checks every \<open>DataHandler\<close>
  (\<open>data/handler.py\<close>) once and then merges them lazily (\<open>_validate_sorted_data_handlers\<close> and
  \<open>_merge_sorted_data_handlers\<close> in \<open>backtest/engine.py\<close>). A handler's frame is a list of rows with
  parsed timestamps of one kind, so that timestamps can always be compared. The theory shows that a
  checked run does not depend on the way the bars are read.
\<close>

section \<open>Data handlers\<close>

record bar_row =
  br_timestamp :: timestamp
  br_open :: decimal
  br_high :: decimal
  br_low :: decimal
  br_close :: decimal
  br_volume :: decimal
  br_available_at :: "timestamp option"

text \<open>
  \<open>dh_id\<close> is the identity of the object, \<open>dh_exact\<close> says that its type is \<open>DataHandler\<close> and no
  subclass, \<open>dh_canonical\<close> that its frame has the exact shape of a dataset.
\<close>

record data_handler =
  dh_id :: nat
  dh_exact :: bool
  dh_canonical :: bool
  dh_rows :: "bar_row list"
  dh_symbol :: symbol
  dh_frequency :: bar_frequency
  dh_asset_class :: "asset_class option"
  dh_instrument_type :: "instrument_type option"
  dh_index :: nat

definition values_to_event :: "data_handler \<Rightarrow> bar_row \<Rightarrow> market_event" where
  "values_to_event h r =
     \<lparr>me_timestamp = br_timestamp r, me_symbol = dh_symbol h, me_open = br_open r, me_high = br_high r,
      me_low = br_low r, me_close = br_close r, me_volume = br_volume r,
      me_frequency = dh_frequency h, me_asset_class = dh_asset_class h,
      me_instrument_type = dh_instrument_type h, me_available_at = br_available_at r\<rparr>"

definition handler_iter :: "data_handler \<Rightarrow> data_handler" where
  "handler_iter h = h\<lparr>dh_index := 0\<rparr>"

definition handler_next :: "data_handler \<Rightarrow> (market_event \<times> data_handler) option" where
  "handler_next h =
     (if length (dh_rows h) \<le> dh_index h then None
      else Some (values_to_event h (dh_rows h ! dh_index h), h\<lparr>dh_index := Suc (dh_index h)\<rparr>))"

text \<open>What a \<open>for\<close> loop over an iterator still sees.\<close>

function remaining_events :: "data_handler \<Rightarrow> market_event list" where
  "remaining_events h =
     (case handler_next h of None \<Rightarrow> [] | Some (e, h') \<Rightarrow> e # remaining_events h')"
  by pat_completeness auto
termination
  by (relation "measure (\<lambda>h. length (dh_rows h) - dh_index h)")
    (auto simp: handler_next_def split: if_splits)

declare remaining_events.simps [simp del]

definition handler_events :: "data_handler \<Rightarrow> market_event list" where
  "handler_events h = remaining_events (handler_iter h)"

definition iter_replay_events :: "data_handler \<Rightarrow> market_event list" where
  "iter_replay_events h =
     (if dh_exact h \<and> dh_canonical h then map (values_to_event h) (dh_rows h) else handler_events h)"

section \<open>The streaming mode\<close>

fun check_stream :: "bool \<Rightarrow> timestamp option \<Rightarrow> market_event list \<Rightarrow> unit res" where
  "check_stream observed previous [] = Inr ()"
| "check_stream observed previous (e # es) =
     bind_res (if observed then require_available_observation e else Inr ()) (\<lambda>_.
       if (case previous of None \<Rightarrow> False | Some t \<Rightarrow> me_timestamp e < t)
       then Inl (ValueError ''backtest_streaming_data_handler_unsorted'')
       else check_stream observed (Some (me_timestamp e)) es)"

fun check_handlers :: "bool \<Rightarrow> nat list \<Rightarrow> (symbol, data_handler) dict \<Rightarrow> unit res" where
  "check_handlers observed seen [] = Inr ()"
| "check_handlers observed seen ((s, h) # hs) =
     (if \<not> dh_exact h \<or> dh_symbol h \<noteq> s \<or> dh_id h \<in> set seen
      then Inl (ValueError ''backtest_streaming_requires_distinct_data_handlers'')
      else bind_res (check_stream observed None (iter_replay_events h)) (\<lambda>_.
        check_handlers observed (dh_id h # seen) hs))"

definition validate_sorted_data_handlers :: "bool \<Rightarrow> (symbol, data_handler) dict \<Rightarrow> unit res" where
  "validate_sorted_data_handlers observed hs = check_handlers observed [] hs"

text \<open>
  \<open>heapq.merge\<close>: the next element is the head with the smallest key, of the earliest stream among
  equal keys.
\<close>

fun take_smallest :: "('a \<Rightarrow> 'k::linorder) \<Rightarrow> 'a list list \<Rightarrow> ('a \<times> 'a list list) option" where
  "take_smallest key [] = None"
| "take_smallest key ([] # xss) = map_option (\<lambda>(y, yss). (y, [] # yss)) (take_smallest key xss)"
| "take_smallest key ((x # xs) # xss) =
     (case take_smallest key xss of
        Some (y, yss) \<Rightarrow> if key y < key x then Some (y, (x # xs) # yss) else Some (x, xs # xss)
      | None \<Rightarrow> Some (x, xs # xss))"

lemma take_smallest_length:
  "take_smallest key xss = Some (y, yss) \<Longrightarrow> length (concat xss) = Suc (length (concat yss))"
  by (induction key xss arbitrary: y yss rule: take_smallest.induct)
    (auto split: option.splits if_splits prod.splits)

function heap_merge :: "('a \<Rightarrow> 'k::linorder) \<Rightarrow> 'a list list \<Rightarrow> 'a list" where
  "heap_merge key xss =
     (case take_smallest key xss of None \<Rightarrow> [] | Some (y, yss) \<Rightarrow> y # heap_merge key yss)"
  by pat_completeness auto
termination
  by (relation "measure (\<lambda>(key, xss). length (concat xss))") (auto dest!: take_smallest_length simp del: length_concat)

declare heap_merge.simps [simp del]

definition merge_sorted_data_handlers :: "(symbol, data_handler) dict \<Rightarrow> market_event list" where
  "merge_sorted_data_handlers hs = heap_merge event_key (map iter_replay_events (dict_values hs))"

text \<open>The two beginnings of \<open>run\<close>; the rest of a run is \<open>run_events\<close>.\<close>

definition replay_stream :: "bool \<Rightarrow> bool \<Rightarrow> (symbol, data_handler) dict \<Rightarrow> market_event list res" where
  "replay_stream streaming observed hs =
     (if streaming
      then bind_res (validate_sorted_data_handlers observed hs) (\<lambda>_. Inr (merge_sorted_data_handlers hs))
      else merge_streams observed (map (\<lambda>(s, h). (s, handler_events h)) hs))"

definition run_replay ::
  "nat \<Rightarrow> 's config \<Rightarrow> bool \<Rightarrow> (symbol, instrument) dict \<Rightarrow> (symbol, data_handler) dict \<Rightarrow> 's
    \<Rightarrow> ('s eworld \<times> py_exc option) option res" where
  "run_replay fuel cfg streaming instruments hs strategy =
     bind_res (new_engine cfg instruments strategy) (\<lambda>w.
     bind_res (replay_stream streaming (cf_observed cfg) hs) (\<lambda>es. Inr (run_events fuel cfg es w)))"

section \<open>Both iterators of a handler give the rows\<close>

lemma values_to_event_index [simp]: "values_to_event (h\<lparr>dh_index := i\<rparr>) = values_to_event h"
  by (rule ext) (simp add: values_to_event_def)

lemma remaining_events_rows:
  "remaining_events h = map (values_to_event h) (drop (dh_index h) (dh_rows h))"
proof (induction h rule: remaining_events.induct)
  case (1 h)
  show ?case
  proof (cases "length (dh_rows h) \<le> dh_index h")
    case True
    then show ?thesis by (simp add: remaining_events.simps [of h] handler_next_def)
  next
    case False
    let ?h = "h\<lparr>dh_index := Suc (dh_index h)\<rparr>"
    have n: "handler_next h = Some (values_to_event h (dh_rows h ! dh_index h), ?h)"
      using False by (simp add: handler_next_def)
    have "remaining_events ?h = map (values_to_event h) (drop (Suc (dh_index h)) (dh_rows h))"
      using 1 [OF n refl] by simp
    then show ?thesis
      using False by (simp add: remaining_events.simps [of h] n Cons_nth_drop_Suc [symmetric])
  qed
qed

lemma handler_events_rows: "handler_events h = map (values_to_event h) (dh_rows h)"
  by (simp add: handler_events_def handler_iter_def remaining_events_rows)

lemma iter_replay_events_rows: "iter_replay_events = handler_events"
  by (rule ext) (simp add: iter_replay_events_def handler_events_rows)

section \<open>The merge sorts\<close>

lemma take_smallest_None: "take_smallest key xss = None \<Longrightarrow> concat xss = []"
  by (induction key xss rule: take_smallest.induct) (auto split: option.splits if_splits)

lemma take_smallest_splits:
  assumes "take_smallest key xss = Some (y, yss)" "\<forall>xs \<in> set xss. sorted (map key xs)"
  shows "\<exists>as bs. concat xss = as @ y # bs \<and> concat yss = as @ bs \<and> (\<forall>a \<in> set as. key y < key a) \<and>
    (\<forall>b \<in> set bs. key y \<le> key b) \<and> (\<forall>xs \<in> set yss. sorted (map key xs))"
  using assms
proof (induction key xss arbitrary: y yss rule: take_smallest.induct)
  case (2 key xss)
  then show ?case by fastforce
next
  case (3 key x xs xss)
  have x: "\<forall>z \<in> set xs. key x \<le> key z" and s: "sorted (map key xs)" "\<forall>ys \<in> set xss. sorted (map key ys)"
    using "3.prems" by auto
  show ?case
  proof (cases "take_smallest key xss")
    case None
    with "3.prems" x s take_smallest_None [OF None] show ?thesis
      by (intro exI [of _ "[]"] exI [of _ "xs"]) auto
  next
    case (Some p)
    obtain z zss where p: "p = (z, zss)" by (cases p)
    obtain as bs where z: "concat xss = as @ z # bs" "concat zss = as @ bs"
      "\<forall>a \<in> set as. key z < key a" "\<forall>b \<in> set bs. key z \<le> key b" "\<forall>ys \<in> set zss. sorted (map key ys)"
      using "3.IH" [OF Some [unfolded p] s(2)] by blast
    show ?thesis
    proof (cases "key z < key x")
      case True
      then have e: "y = z" "yss = (x # xs) # zss" using "3.prems"(1) Some p by auto
      show ?thesis
        using z True x s e "3.prems"(2) by (intro exI [of _ "(x # xs) @ as"] exI [of _ bs]) auto
    next
      case False
      then have e: "y = x" "yss = xs # xss" using "3.prems"(1) Some p by auto
      have "\<forall>b \<in> set (concat xss). key x \<le> key b"
        unfolding z(1) using False z(3,4) by auto
      then show ?thesis
        using x s e by (intro exI [of _ "[]"] exI [of _ "xs @ concat xss"]) auto
    qed
  qed
qed simp

lemma sort_key_extract:
  "\<lbrakk>\<forall>a \<in> set as. key y < key a; \<forall>b \<in> set bs. key y \<le> key b\<rbrakk> \<Longrightarrow>
    sort_key key (as @ y # bs) = y # sort_key key (as @ bs)"
proof (induction as)
  case Nil
  then have "insort_key key y (sort_key key bs) = y # sort_key key bs" by (intro insort_is_Cons) simp
  then show ?case by simp
next
  case (Cons a as)
  then show ?case by auto
qed

theorem heap_merge_sorts:
  "\<forall>xs \<in> set xss. sorted (map key xs) \<Longrightarrow> heap_merge key xss = sort_key key (concat xss)"
proof (induction key xss rule: heap_merge.induct)
  case (1 key xss)
  show ?case
  proof (cases "take_smallest key xss")
    case None
    then show ?thesis by (simp add: heap_merge.simps [of key xss] take_smallest_None del: concat_eq_Nil_conv)
  next
    case (Some p)
    obtain y yss where p: "p = (y, yss)" by (cases p)
    obtain as bs where s: "concat xss = as @ y # bs" "concat yss = as @ bs"
      "\<forall>a \<in> set as. key y < key a" "\<forall>b \<in> set bs. key y \<le> key b" "\<forall>xs \<in> set yss. sorted (map key xs)"
      using take_smallest_splits [OF Some [unfolded p] "1.prems"] by blast
    show ?thesis
      using "1.IH" [OF Some p [symmetric] s(5)] sort_key_extract [OF s(3,4)]
      by (simp add: heap_merge.simps [of key xss] Some p s(1,2))
  qed
qed

section \<open>What the check establishes\<close>

definition available :: "market_event \<Rightarrow> bool" where
  "available e = (case me_available_at e of None \<Rightarrow> False | Some t \<Rightarrow> t \<le> me_timestamp e)"

lemma require_available_iff: "require_available_observation e = Inr () \<longleftrightarrow> available e"
  by (auto simp: require_available_observation_def available_def split: option.splits)

lemma check_stream_iff:
  "check_stream observed previous es = Inr () \<longleftrightarrow>
    (observed \<longrightarrow> list_all available es) \<and>
    sorted ((case previous of None \<Rightarrow> [] | Some t \<Rightarrow> [t]) @ map me_timestamp es)"
proof (induction es arbitrary: previous)
  case (Cons e es)
  show ?case
    using Cons.IH [of "Some (me_timestamp e)"]
    by (auto simp: bind_res_eq_Inr require_available_iff split: option.splits)
      (fastforce intro: order_trans)+
qed (auto split: option.splits)

lemma check_handlers_iff:
  "check_handlers observed seen hs = Inr () \<longleftrightarrow>
    list_all (\<lambda>(s, h). dh_exact h \<and> dh_symbol h = s \<and>
      (observed \<longrightarrow> list_all available (handler_events h)) \<and> sorted (map me_timestamp (handler_events h))) hs \<and>
    distinct (map dh_id (dict_values hs)) \<and> set (map dh_id (dict_values hs)) \<inter> set seen = {}"
proof (induction hs arbitrary: seen)
  case (Cons p hs)
  obtain s h where p: "p = (s, h)" by (cases p)
  show ?case
    using Cons.IH [of "dh_id h # seen"]
    by (auto simp: p bind_res_eq_Inr check_stream_iff iter_replay_events_rows)
qed simp

lemma sorted_by_event_key:
  assumes "sorted (map me_timestamp es)" "\<forall>e \<in> set es. me_symbol e = s"
  shows "sorted (map event_key es)"
  using assms by (induction es) (auto simp: event_key_def less_eq_prod_def)

lemma validated_handlers_sorted:
  assumes "validate_sorted_data_handlers observed hs = Inr ()"
  shows "\<forall>xs \<in> set (map handler_events (dict_values hs)). sorted (map event_key xs)"
    "observed \<Longrightarrow> list_all available (concat (map handler_events (dict_values hs)))"
proof -
  have c: "list_all (\<lambda>(s, h). dh_exact h \<and> dh_symbol h = s \<and>
      (observed \<longrightarrow> list_all available (handler_events h)) \<and> sorted (map me_timestamp (handler_events h))) hs"
    using assms by (simp add: validate_sorted_data_handlers_def check_handlers_iff)
  have "sorted (map event_key (handler_events h))" if "h \<in> set (dict_values hs)" for h
  proof (rule sorted_by_event_key)
    show "sorted (map me_timestamp (handler_events h))" using that c by (auto simp: list_all_iff)
    show "\<forall>e \<in> set (handler_events h). me_symbol e = dh_symbol h"
      by (auto simp: handler_events_rows values_to_event_def)
  qed
  then show "\<forall>xs \<in> set (map handler_events (dict_values hs)). sorted (map event_key xs)" by auto
  show "list_all available (concat (map handler_events (dict_values hs)))" if "observed"
    using that c by (fastforce simp: list_all_iff)
qed

lemma available_events_pass:
  "list_all available es \<Longrightarrow> fold_res (\<lambda>e _. require_available_observation e) es () = Inr ()"
  by (induction es) (simp_all add: iffD2 [OF require_available_iff])

lemma replay_stream_modes:
  assumes "validate_sorted_data_handlers observed hs = Inr ()"
  shows "replay_stream True observed hs = replay_stream False observed hs"
proof -
  let ?xss = "map handler_events (dict_values hs)"
  have v: "dict_values (map (\<lambda>(s, h). (s, handler_events h)) hs) = ?xss" by (induction hs) auto
  have "heap_merge event_key ?xss = sort_key event_key (concat ?xss)"
    by (rule heap_merge_sorts [OF validated_handlers_sorted(1) [OF assms]])
  moreover have "merge_sorted_data_handlers hs = heap_merge event_key ?xss"
    unfolding merge_sorted_data_handlers_def by (simp only: iter_replay_events_rows)
  moreover have "merge_streams observed (map (\<lambda>(s, h). (s, handler_events h)) hs) =
      Inr (sort_key event_key (concat ?xss))"
    unfolding merge_streams_def v Let_def
    using available_events_pass [OF validated_handlers_sorted(2) [OF assms]] by (cases observed) simp_all
  ultimately show ?thesis by (simp add: replay_stream_def assms)
qed

text \<open>C28: streaming changes nothing but the memory a run needs. When every data handler passes the
  check of the streaming mode, a run that merges the handlers lazily equals the run that collects and
  sorts all bars first: the same world, or the same exception, for every strategy and configuration.\<close>

theorem streaming_run_equals_eager_run:
  assumes "validate_sorted_data_handlers (cf_observed cfg) hs = Inr ()"
  shows "run_replay fuel cfg True instruments hs strategy = run_replay fuel cfg False instruments hs strategy \<and>
    replay_stream True (cf_observed cfg) hs =
      Inr (sort_key event_key (concat (map (\<lambda>h. map (values_to_event h) (dh_rows h)) (dict_values hs))))"
proof (intro conjI)
  show "run_replay fuel cfg True instruments hs strategy = run_replay fuel cfg False instruments hs strategy"
    unfolding run_replay_def replay_stream_modes [OF assms] ..
  have rows: "(\<lambda>h. map (values_to_event h) (dh_rows h)) = handler_events"
    by (rule ext) (simp add: handler_events_rows)
  show "replay_stream True (cf_observed cfg) hs =
      Inr (sort_key event_key (concat (map (\<lambda>h. map (values_to_event h) (dh_rows h)) (dict_values hs))))"
    unfolding rows using heap_merge_sorts [OF validated_handlers_sorted(1) [OF assms]]
    by (simp only: replay_stream_def assms bind_res_simps if_True merge_sorted_data_handlers_def iter_replay_events_rows)
qed

definition sample_row :: "timestamp \<Rightarrow> bar_row" where
  "sample_row t = \<lparr>br_timestamp = t, br_open = DONE, br_high = DONE, br_low = DONE, br_close = DONE,
     br_volume = DONE, br_available_at = None\<rparr>"

definition sample_handler :: "nat \<Rightarrow> symbol \<Rightarrow> timestamp list \<Rightarrow> data_handler" where
  "sample_handler i s ts = \<lparr>dh_id = i, dh_exact = True, dh_canonical = False, dh_rows = map sample_row ts,
     dh_symbol = s, dh_frequency = DAILY, dh_asset_class = None, dh_instrument_type = None, dh_index = 7\<rparr>"

definition sample_handlers :: "(symbol, data_handler) dict" where
  "sample_handlers = [(''B'', sample_handler 1 ''B'' [1, 3]), (''A'', sample_handler 2 ''A'' [1, 2])]"

definition stream_keys :: "market_event list res \<Rightarrow> (timestamp \<times> string) list res" where
  "stream_keys r = bind_res r (\<lambda>es. Inr (map event_key es))"

lemma streaming_run_equals_eager_run_witness:
  "stream_keys (replay_stream True False sample_handlers) =
      Inr [(1, ''A''), (1, ''B''), (2, ''A''), (3, ''B'')] \<and>
    run_replay 2 sample_config True [] sample_handlers 0 = run_replay 2 sample_config False [] sample_handlers 0"
proof -
  have c: "cf_observed sample_config = False" by (simp add: sample_config_def)
  have v: "validate_sorted_data_handlers False sample_handlers = Inr ()" by code_simp
  have k: "stream_keys (replay_stream True False sample_handlers) =
      Inr [(1, ''A''), (1, ''B''), (2, ''A''), (3, ''B'')]" by code_simp
  show ?thesis
    using k streaming_run_equals_eager_run [of sample_config sample_handlers 2 "[]" 0] v unfolding c by blast
qed

end
