(* ===== verification/Paper_Orders.thy ===== *)
theory Paper_Orders
  imports Fees
begin

text \<open>
  \<open>execution/paper_broker.py\<close>: the order state machine of the paper broker with its recorded
  history, and the three simulations (fill, cancel, reject) that drive it and write evidence rows.
  The rows of the optional database are returned in the order in which they are written; their
  float columns and JSON payloads render the same evidence and are not modelled. The lemmas show
  that every reachable history is a numbered path through the allowed transitions with a filled
  quantity that never decreases.
\<close>

section \<open>The state machine\<close>

datatype paper_status =
  PS_STAGED | PS_SUBMITTED | PS_ACCEPTED | PS_PARTIALLY_FILLED | PS_FILLED | PS_REJECTED
  | PS_CANCELLED | PS_EXPIRED | PS_RECONCILED

fun allowed_transitions :: "paper_status \<Rightarrow> paper_status list" where
  "allowed_transitions PS_STAGED = [PS_SUBMITTED, PS_CANCELLED, PS_EXPIRED]"
| "allowed_transitions PS_SUBMITTED = [PS_ACCEPTED, PS_REJECTED, PS_CANCELLED, PS_EXPIRED]"
| "allowed_transitions PS_ACCEPTED =
     [PS_PARTIALLY_FILLED, PS_FILLED, PS_REJECTED, PS_CANCELLED, PS_EXPIRED]"
| "allowed_transitions PS_PARTIALLY_FILLED = [PS_PARTIALLY_FILLED, PS_FILLED, PS_CANCELLED, PS_EXPIRED]"
| "allowed_transitions PS_FILLED = [PS_RECONCILED]"
| "allowed_transitions PS_REJECTED = [PS_RECONCILED]"
| "allowed_transitions PS_CANCELLED = [PS_RECONCILED]"
| "allowed_transitions PS_EXPIRED = [PS_RECONCILED]"
| "allowed_transitions PS_RECONCILED = []"

record paper_transition =
  pt_order_id :: string
  pt_sequence :: nat
  pt_from_status :: "paper_status option"
  pt_to_status :: paper_status
  pt_timestamp :: timestamp
  pt_source :: string
  pt_filled_quantity :: decimal
  pt_reason :: string

record paper_oms =
  om_order_id :: string
  om_timestamp :: timestamp
  om_source :: string
  om_filled_quantity :: decimal
  om_transitions :: "paper_transition list"

definition PAPER_OMS_DEFAULT_SOURCE :: string where "PAPER_OMS_DEFAULT_SOURCE = ''paper_oms''"
definition PAPER_OMS_DEFAULT_TIMESTAMP :: timestamp where "PAPER_OMS_DEFAULT_TIMESTAMP = 0"

definition new_oms :: "string \<Rightarrow> timestamp option \<Rightarrow> string \<Rightarrow> paper_oms" where
  "new_oms order_id ts source =
     (let t = (case ts of None \<Rightarrow> PAPER_OMS_DEFAULT_TIMESTAMP | Some t \<Rightarrow> t) in
      \<lparr>om_order_id = order_id, om_timestamp = t, om_source = source, om_filled_quantity = DZERO,
       om_transitions =
         [\<lparr>pt_order_id = order_id, pt_sequence = 1, pt_from_status = None, pt_to_status = PS_STAGED,
           pt_timestamp = t, pt_source = source, pt_filled_quantity = DZERO, pt_reason = []\<rparr>]\<rparr>)"

definition oms_current_status :: "paper_oms \<Rightarrow> paper_status" where
  "oms_current_status m = pt_to_status (last (om_transitions m))"

definition oms_status_history :: "paper_oms \<Rightarrow> paper_status list" where
  "oms_status_history m = map pt_to_status (om_transitions m)"

definition oms_transition ::
  "paper_status \<Rightarrow> decimal option \<Rightarrow> string \<Rightarrow> paper_oms \<Rightarrow> (paper_transition \<times> paper_oms) res" where
  "oms_transition to_status filled_quantity reason m =
     (if oms_current_status m = to_status then Inr (last (om_transitions m), m)
      else if to_status \<notin> set (allowed_transitions (oms_current_status m))
      then Inl (ValueError ''Invalid paper OMS transition'')
      else bind_res
        (case filled_quantity of
           None \<Rightarrow> Inr (om_filled_quantity m)
         | Some q \<Rightarrow> if dlt q (om_filled_quantity m)
             then Inl (ValueError ''Paper filled quantity cannot decrease.'') else Inr q)
        (\<lambda>filled.
          let t = \<lparr>pt_order_id = om_order_id m, pt_sequence = length (om_transitions m) + 1,
                pt_from_status = Some (oms_current_status m), pt_to_status = to_status,
                pt_timestamp = om_timestamp m, pt_source = om_source m,
                pt_filled_quantity = filled, pt_reason = reason\<rparr>
          in Inr (t, m\<lparr>om_filled_quantity := filled, om_transitions := om_transitions m @ [t]\<rparr>)))"

definition mark_submitted :: "string \<Rightarrow> paper_oms \<Rightarrow> (paper_transition \<times> paper_oms) res" where
  "mark_submitted reason = oms_transition PS_SUBMITTED None reason"
definition mark_accepted :: "string \<Rightarrow> paper_oms \<Rightarrow> (paper_transition \<times> paper_oms) res" where
  "mark_accepted reason = oms_transition PS_ACCEPTED None reason"
definition mark_partially_filled :: "decimal \<Rightarrow> string \<Rightarrow> paper_oms \<Rightarrow> (paper_transition \<times> paper_oms) res" where
  "mark_partially_filled q reason = oms_transition PS_PARTIALLY_FILLED (Some q) reason"
definition mark_filled :: "decimal \<Rightarrow> string \<Rightarrow> paper_oms \<Rightarrow> (paper_transition \<times> paper_oms) res" where
  "mark_filled q reason = oms_transition PS_FILLED (Some q) reason"
definition mark_rejected :: "string \<Rightarrow> paper_oms \<Rightarrow> (paper_transition \<times> paper_oms) res" where
  "mark_rejected reason = oms_transition PS_REJECTED None reason"
definition mark_cancelled :: "string \<Rightarrow> paper_oms \<Rightarrow> (paper_transition \<times> paper_oms) res" where
  "mark_cancelled reason = oms_transition PS_CANCELLED None reason"
definition mark_expired :: "string \<Rightarrow> paper_oms \<Rightarrow> (paper_transition \<times> paper_oms) res" where
  "mark_expired reason = oms_transition PS_EXPIRED None reason"
definition mark_reconciled :: "string \<Rightarrow> paper_oms \<Rightarrow> (paper_transition \<times> paper_oms) res" where
  "mark_reconciled reason = oms_transition PS_RECONCILED None reason"

section \<open>The broker\<close>

record paper_context =
  cx_strategy_id :: "string option"
  cx_signal_id :: "string option"
  cx_risk_decision_id :: "string option"
  cx_dataset_id :: "string option"
  cx_cost_model_id :: "string option"
  cx_account_truth_version :: "string option"

definition context_payload :: "paper_context \<Rightarrow> (string, string) dict" where
  "context_payload c =
     concat (map (\<lambda>(k, v). case v of None \<Rightarrow> [] | Some x \<Rightarrow> [(k, x)])
       [(''strategy_id'', cx_strategy_id c), (''signal_id'', cx_signal_id c),
        (''risk_decision_id'', cx_risk_decision_id c), (''dataset_id'', cx_dataset_id c),
        (''cost_model_id'', cx_cost_model_id c),
        (''account_truth_version'', cx_account_truth_version c)])"

record paper_request =
  pr_timestamp :: timestamp
  pr_order_id :: string
  pr_symbol :: symbol
  pr_side :: order_side
  pr_order_type :: order_type
  pr_quantity :: decimal
  pr_price :: "decimal option"
  pr_asset_class :: asset_class
  pr_context :: paper_context

record paper_order =
  pe_order_id :: string
  pe_timestamp :: timestamp
  pe_symbol :: symbol
  pe_side :: order_side
  pe_order_type :: order_type
  pe_quantity :: decimal
  pe_price :: "decimal option"
  pe_asset_class :: asset_class
  pe_status :: paper_status
  pe_filled_quantity :: decimal
  pe_remaining_quantity :: decimal
  pe_status_history :: "paper_status list"
  pe_oms_transitions :: "paper_transition list"
  pe_context :: paper_context
  pe_schema_version :: string
  pe_execution_mode :: string
  pe_source :: string
  pe_does_not_mutate_production_ledger :: bool

record paper_fill =
  pl_fill_id :: string
  pl_order_id :: string
  pl_timestamp :: timestamp
  pl_symbol :: symbol
  pl_side :: order_side
  pl_fill_price :: decimal
  pl_fill_quantity :: decimal
  pl_commission :: decimal
  pl_slippage :: decimal
  pl_asset_class :: asset_class
  pl_context :: paper_context
  pl_reference_price :: "decimal option"
  pl_fee_breakdown :: "fee_breakdown option"
  pl_schema_version :: string
  pl_execution_mode :: string
  pl_provider_name :: string
  pl_source :: string
  pl_does_not_mutate_production_ledger :: bool

datatype paper_row = OrderRow paper_order | FillRow paper_fill

record paper_broker =
  pb_has_db :: bool
  pb_provider_name :: string
  pb_source :: string
  pb_commission_calc :: commission_calculator

definition new_paper_broker ::
  "bool \<Rightarrow> string \<Rightarrow> commission_calculator option \<Rightarrow> string option \<Rightarrow> paper_broker" where
  "new_paper_broker has_db provider calc source =
     \<lparr>pb_has_db = has_db, pb_provider_name = provider,
      pb_source = (case source of None \<Rightarrow> ''paper_broker''
        | Some s \<Rightarrow> if s = [] then ''paper_broker'' else s),
      pb_commission_calc = (case calc of None \<Rightarrow> StockACommission default_stock_schedule | Some c \<Rightarrow> c)\<rparr>"

definition build_order :: "paper_request \<Rightarrow> decimal \<Rightarrow> paper_oms \<Rightarrow> paper_broker \<Rightarrow> paper_order" where
  "build_order request remaining m b =
     \<lparr>pe_order_id = pr_order_id request, pe_timestamp = pr_timestamp request,
      pe_symbol = pr_symbol request, pe_side = pr_side request,
      pe_order_type = pr_order_type request, pe_quantity = pr_quantity request,
      pe_price = pr_price request, pe_asset_class = pr_asset_class request,
      pe_status = oms_current_status m, pe_filled_quantity = om_filled_quantity m,
      pe_remaining_quantity = remaining, pe_status_history = oms_status_history m,
      pe_oms_transitions = om_transitions m, pe_context = pr_context request,
      pe_schema_version = ''karkinos.paper_broker.v1'', pe_execution_mode = ''paper'',
      pe_source = pb_source b, pe_does_not_mutate_production_ledger = True\<rparr>"

definition build_terminal_order :: "paper_request \<Rightarrow> paper_oms \<Rightarrow> paper_broker \<Rightarrow> paper_order" where
  "build_terminal_order request m b =
     build_order request (dsub (pr_quantity request) (om_filled_quantity m)) m b"

definition calculate_slippage :: "decimal option \<Rightarrow> decimal \<Rightarrow> decimal \<Rightarrow> decimal" where
  "calculate_slippage reference_price fill_price quantity =
     (case reference_price of None \<Rightarrow> DZERO | Some r \<Rightarrow> dmul (dabs (dsub fill_price r)) quantity)"

definition record_order :: "paper_broker \<Rightarrow> paper_order \<Rightarrow> paper_row list" where
  "record_order b ord = (if pb_has_db b then [OrderRow ord] else [])"

definition record_fill :: "paper_broker \<Rightarrow> paper_fill \<Rightarrow> paper_row list" where
  "record_fill b fl = (if pb_has_db b then [FillRow fl] else [])"

text \<open>The result of a simulation: the order, the fill if any, and the rows written.\<close>

type_synonym paper_result = "paper_order \<times> paper_fill option \<times> paper_row list"

definition submit_order ::
  "paper_request \<Rightarrow> string option \<Rightarrow> decimal option \<Rightarrow> decimal option \<Rightarrow> paper_broker \<Rightarrow> paper_result res" where
  "submit_order request fill_id fill_quantity fill_price b =
     (let quantity = (case fill_quantity of Some q \<Rightarrow> q | None \<Rightarrow> pr_quantity request) in
      if dle quantity DZERO then Inl (ValueError ''Paper fill quantity must be positive.'')
      else if dlt (pr_quantity request) quantity
      then Inl (ValueError ''Paper fill quantity cannot exceed order quantity.'')
      else case (case fill_price of Some p \<Rightarrow> Some p | None \<Rightarrow> pr_price request) of
        None \<Rightarrow> Inl (ValueError ''Paper fill price is required when order price is absent.'')
      | Some effective_price \<Rightarrow>
          bind_res (mark_submitted [] (new_oms (pr_order_id request) (Some (pr_timestamp request)) (pb_source b)))
          (\<lambda>(_, m1). bind_res (mark_accepted [] m1)
          (\<lambda>(_, m2). bind_res (if deq quantity (pr_quantity request) then mark_filled quantity [] m2
                               else mark_partially_filled quantity [] m2)
          (\<lambda>(_, m3).
            let ord = build_order request (dsub (pr_quantity request) quantity) m3 b;
                fb = breakdown (pb_commission_calc b) (pr_side request) effective_price quantity;
                fl = \<lparr>pl_fill_id = (case fill_id of Some i \<Rightarrow> if i = [] then pr_order_id request @ ''-FILL-1'' else i
                        | None \<Rightarrow> pr_order_id request @ ''-FILL-1''),
                     pl_order_id = pr_order_id request, pl_timestamp = pr_timestamp request,
                     pl_symbol = pr_symbol request, pl_side = pr_side request,
                     pl_fill_price = effective_price, pl_fill_quantity = quantity,
                     pl_commission = fb_total_fee fb,
                     pl_slippage = calculate_slippage (pr_price request) effective_price quantity,
                     pl_asset_class = pr_asset_class request, pl_context = pr_context request,
                     pl_reference_price = pr_price request, pl_fee_breakdown = Some fb,
                     pl_schema_version = ''karkinos.paper_broker.v1'', pl_execution_mode = ''paper'',
                     pl_provider_name = pb_provider_name b, pl_source = pb_source b,
                     pl_does_not_mutate_production_ledger = True\<rparr>
            in Inr (ord, Some fl, record_order b ord @ record_fill b fl)))))"

definition cancel_order :: "paper_request \<Rightarrow> string \<Rightarrow> paper_broker \<Rightarrow> paper_result res" where
  "cancel_order request reason b =
     bind_res (mark_submitted [] (new_oms (pr_order_id request) (Some (pr_timestamp request)) (pb_source b)))
     (\<lambda>(_, m1). bind_res (mark_cancelled reason m1)
     (\<lambda>(_, m2). let ord = build_terminal_order request m2 b in Inr (ord, None, record_order b ord)))"

definition reject_order :: "paper_request \<Rightarrow> string \<Rightarrow> paper_broker \<Rightarrow> paper_result res" where
  "reject_order request reason b =
     bind_res (mark_submitted [] (new_oms (pr_order_id request) (Some (pr_timestamp request)) (pb_source b)))
     (\<lambda>(_, m1). bind_res (mark_accepted [] m1)
     (\<lambda>(_, m2). bind_res (mark_rejected reason m2)
     (\<lambda>(_, m3). let ord = build_terminal_order request m3 b in Inr (ord, None, record_order b ord))))"

section \<open>Reachable histories\<close>

inductive oms_reachable :: "paper_oms \<Rightarrow> bool" where
  init: "oms_reachable (new_oms order_id ts source)"
| step: "oms_reachable m \<Longrightarrow> oms_transition st q reason m = Inr (t, m') \<Longrightarrow> oms_reachable m'"

definition linked :: "paper_transition \<Rightarrow> paper_transition \<Rightarrow> bool" where
  "linked a b = (pt_sequence b = pt_sequence a + 1 \<and> pt_from_status b = Some (pt_to_status a) \<and>
     pt_to_status b \<in> set (allowed_transitions (pt_to_status a)) \<and> pt_to_status b \<noteq> pt_to_status a \<and>
     dle (pt_filled_quantity a) (pt_filled_quantity b) \<and> pt_order_id b = pt_order_id a)"

definition history_ok :: "paper_oms \<Rightarrow> bool" where
  "history_ok m = (om_transitions m \<noteq> [] \<and> pt_sequence (hd (om_transitions m)) = 1 \<and>
     pt_from_status (hd (om_transitions m)) = None \<and> pt_to_status (hd (om_transitions m)) = PS_STAGED \<and>
     successively linked (om_transitions m) \<and>
     pt_sequence (last (om_transitions m)) = length (om_transitions m) \<and>
     pt_filled_quantity (last (om_transitions m)) = om_filled_quantity m \<and>
     pt_order_id (last (om_transitions m)) = om_order_id m)"

lemma oms_transition_Inr:
  assumes "oms_transition st q reason m = Inr (t, m')"
  shows "m' = m \<and> oms_current_status m = st \<and> t = last (om_transitions m) \<or>
    oms_current_status m \<noteq> st \<and> st \<in> set (allowed_transitions (oms_current_status m)) \<and>
    (\<exists>filled. dle (om_filled_quantity m) filled \<and> (q = None \<longrightarrow> filled = om_filled_quantity m) \<and>
      (\<forall>x. q = Some x \<longrightarrow> filled = x) \<and>
      t = \<lparr>pt_order_id = om_order_id m, pt_sequence = length (om_transitions m) + 1,
        pt_from_status = Some (oms_current_status m), pt_to_status = st,
        pt_timestamp = om_timestamp m, pt_source = om_source m,
        pt_filled_quantity = filled, pt_reason = reason\<rparr> \<and>
      m' = m\<lparr>om_filled_quantity := filled, om_transitions := om_transitions m @ [t]\<rparr>)"
  using assms unfolding oms_transition_def Let_def
  by (auto simp: bind_res_eq_Inr val_simps not_less split: if_splits option.splits)

lemma history_ok_step:
  assumes "history_ok m" "oms_transition st q reason m = Inr (t, m')"
  shows "history_ok m'"
  using oms_transition_Inr[OF assms(2)]
proof (elim disjE conjE exE)
  fix filled
  let ?t = "\<lparr>pt_order_id = om_order_id m, pt_sequence = length (om_transitions m) + 1,
        pt_from_status = Some (oms_current_status m), pt_to_status = st,
        pt_timestamp = om_timestamp m, pt_source = om_source m,
        pt_filled_quantity = filled, pt_reason = reason\<rparr>"
  assume a: "oms_current_status m \<noteq> st" "st \<in> set (allowed_transitions (oms_current_status m))"
    "dle (om_filled_quantity m) filled" "t = ?t"
    "m' = m\<lparr>om_filled_quantity := filled, om_transitions := om_transitions m @ [t]\<rparr>"
  have "linked (last (om_transitions m)) ?t"
    using a(1-3) assms(1) by (auto simp: linked_def history_ok_def oms_current_status_def)
  then show ?thesis using assms(1) a(4,5) by (auto simp: history_ok_def successively_append_iff)
qed (use assms(1) in simp)

lemma reachable_history: "oms_reachable m \<Longrightarrow> history_ok m"
proof (induction rule: oms_reachable.induct)
  case (init order_id ts source)
  then show ?case by (simp add: history_ok_def new_oms_def Let_def)
next
  case (step m st q reason t m')
  then show ?case by (blast intro: history_ok_step)
qed

lemma linked_filled_mono:
  assumes "successively linked ts" "i \<le> j" "j < length ts"
  shows "val (pt_filled_quantity (ts ! i)) \<le> val (pt_filled_quantity (ts ! j))"
  using assms(2,3)
proof (induction j)
  case (Suc j)
  show ?case
  proof (cases "i = Suc j")
    case False
    with Suc have "val (pt_filled_quantity (ts ! i)) \<le> val (pt_filled_quantity (ts ! j))" by simp
    moreover have "linked (ts ! j) (ts ! Suc j)"
      using assms(1) Suc.prems by (simp add: successively_conv_nth)
    ultimately show ?thesis by (simp add: linked_def val_simps)
  qed simp
qed simp

section \<open>Properties\<close>

text \<open>C13: every history the paper order machine can reach starts in the staged state, is numbered
  1, 2, 3, ... without gaps, takes only allowed transitions (each from the state the one before
  it reached), and its filled quantity never decreases.\<close>

theorem paper_history_is_an_allowed_path:
  assumes "oms_reachable m"
  shows "history_ok m \<and> (\<forall>i j. i \<le> j \<and> j < length (om_transitions m) \<longrightarrow>
    dle (pt_filled_quantity (om_transitions m ! i)) (pt_filled_quantity (om_transitions m ! j)))"
  using reachable_history[OF assms] linked_filled_mono[of "om_transitions m"]
  by (auto simp: history_ok_def dle_val)

lemma paper_history_is_an_allowed_path_witness:
  "history_ok (snd (projr (bind_res (mark_submitted [] (new_oms ''o'' None ''s'')) (\<lambda>(_, m). mark_accepted [] m))))"
proof -
  let ?m0 = "new_oms ''o'' None ''s''"
  obtain t1 m1 where m1: "mark_submitted [] ?m0 = Inr (t1, m1)"
    and s1: "oms_current_status m1 = PS_SUBMITTED" "om_filled_quantity m1 = DZERO"
    by (simp add: mark_submitted_def oms_transition_def new_oms_def oms_current_status_def Let_def)
  obtain t2 m2 where m2: "mark_accepted [] m1 = Inr (t2, m2)"
    using s1 by (simp add: mark_accepted_def oms_transition_def Let_def)
  have "oms_reachable m2"
    using oms_reachable.step[OF oms_reachable.step[OF oms_reachable.init m1[unfolded mark_submitted_def]]
        m2[unfolded mark_accepted_def]] .
  from paper_history_is_an_allowed_path[OF this] show ?thesis by (simp add: m1 m2)
qed



text \<open>A second report of the state the order is already in changes nothing, whatever quantity it
  reports: although the transition table lists a partial fill after a partial fill, the filled
  quantity of a second partial fill is dropped.\<close>

theorem repeated_partial_fill_is_dropped:
  assumes "oms_current_status m = PS_PARTIALLY_FILLED"
  shows "mark_partially_filled q reason m = Inr (last (om_transitions m), m) \<and>
    PS_PARTIALLY_FILLED \<in> set (allowed_transitions (oms_current_status m))"
  using assms by (simp add: mark_partially_filled_def oms_transition_def)

lemma repeated_partial_fill_is_dropped_example:
  "let m = (new_oms ''o'' None ''s'')\<lparr>om_filled_quantity := Decimal 100 0, om_transitions :=
     [\<lparr>pt_order_id = ''o'', pt_sequence = 1, pt_from_status = None, pt_to_status = PS_PARTIALLY_FILLED,
       pt_timestamp = 0, pt_source = ''s'', pt_filled_quantity = Decimal 100 0, pt_reason = []\<rparr>]\<rparr> in
   map_sum id (om_filled_quantity \<circ> snd) (mark_partially_filled (Decimal 200 0) [] m) = Inr (Decimal 100 0)"
  unfolding Let_def by (subst repeated_partial_fill_is_dropped[THEN conjunct1]) (simp_all add: oms_current_status_def)

end
