(* ===== verification/Targets.thy ===== *)
theory Targets
  imports Core_Types "HOL-Library.Multiset"
begin

text \<open>
  \<open>domain/research_targets.py\<close> and \<open>risk/target_limits.py\<close>: capped target weights, the independent
  check of target weights, and the allocation of a session's entries from cash and slots. A
  \<open>Fraction\<close> is a rational number. A weight that comes from outside is a \<open>pynum\<close>: the code checks
  that it is a finite decimal before it computes with it. The text of a number (\<open>str\<close>, \<open>format\<close>) is
  represented by the number. The cost of a purchase is a parameter, as it is in the code.
\<close>

section \<open>Capped weights\<close>

fun valid_weight :: "pynum \<Rightarrow> bool" where
  "valid_weight (Num d) = dle DZERO d"
| "valid_weight _ = False"

text \<open>The number of a valid weight; the code narrows the type by \<open>TypeGuard\<close>.\<close>

fun num_of :: "pynum \<Rightarrow> decimal" where
  "num_of (Num d) = d"
| "num_of _ = DZERO"

fun valid_limit :: "pynum \<Rightarrow> bool" where
  "valid_limit (Num d) = (dle DZERO d \<and> dle d DONE)"
| "valid_limit _ = False"

definition trimmed :: "string \<Rightarrow> bool" where
  "trimmed s = (s \<noteq> [] \<and> str_strip s = s)"

definition WEIGHT_UNITS :: int where "WEIGHT_UNITS = 100000000"

definition cap_weight :: "decimal \<Rightarrow> string \<times> pynum \<Rightarrow> (string, rat) dict \<Rightarrow> (string, rat) dict res" where
  "cap_weight max_symbol_weight item capped = (case item of (s, w) \<Rightarrow>
     if \<not> trimmed s then Inl (ValueError ''research_target_symbol_invalid'')
     else if \<not> valid_weight w then Inl (ValueError ''research_target_weight_invalid'')
     else Inr (dict_put s (min (val (num_of w)) (val max_symbol_weight)) capped))"

definition scaled_weight :: "rat \<Rightarrow> rat \<Rightarrow> decimal" where
  "scaled_weight scale w = Decimal \<lfloor>w * scale * of_int WEIGHT_UNITS\<rfloor> (- 8)"

definition weight_scale :: "rat \<Rightarrow> rat \<Rightarrow> rat" where
  "weight_scale max_gross gross = (if gross = 0 then 1 else min 1 (max_gross / gross))"

definition build_research_target_weights ::
  "(string, pynum) dict \<Rightarrow> pynum \<Rightarrow> pynum \<Rightarrow> (string, decimal) dict res" where
  "build_research_target_weights desired max_symbol_weight max_gross_weight =
     (if \<not> valid_limit max_symbol_weight then Inl (ValueError ''research_target_max_symbol_weight_invalid'')
      else if \<not> valid_limit max_gross_weight then Inl (ValueError ''research_target_max_gross_weight_invalid'')
      else if desired = [] then Inl (ValueError ''research_target_universe_empty'')
      else bind_res (fold_res (cap_weight (num_of max_symbol_weight)) desired []) (\<lambda>capped.
        let scale = weight_scale (val (num_of max_gross_weight)) (sum_list (dict_values capped)) in
        Inr (map (\<lambda>(s, w). (s, scaled_weight scale w)) (sort_key fst capped))))"

section \<open>The independent check\<close>

record limits_report =
  lr_status :: string
  lr_reasons :: "string list"
  lr_gross_weight :: "decimal option"
  lr_max_symbol_weight :: pynum
  lr_max_gross_weight :: pynum
  lr_authorizes_execution :: bool

definition exact_decimal_sum :: "decimal list \<Rightarrow> decimal" where
  "exact_decimal_sum ds =
     (let exponent = (if ds = [] then 0 else Min (set (map expo ds)));
          units = sum_list (map (\<lambda>d. \<bar>coeff d\<bar> * 10 ^ nat (expo d - exponent)) ds)
      in Decimal units exponent)"

definition evaluate_target_limits ::
  "(string, pynum) dict \<Rightarrow> string list \<Rightarrow> pynum \<Rightarrow> pynum \<Rightarrow> limits_report" where
  "evaluate_target_limits target_weights frozen_universe max_symbol_weight max_gross_weight =
     (let universe_valid = frozen_universe \<noteq> [] \<and> list_all trimmed frozen_universe \<and> distinct frozen_universe;
          r1 = (if \<not> universe_valid then [''target_frozen_universe_invalid'']
            else if set (dict_keys target_weights) \<noteq> set frozen_universe then [''target_universe_mismatch''] else []);
          r2 = (if valid_limit max_symbol_weight then [] else [''target_max_symbol_weight_invalid'']);
          r3 = (if valid_limit max_gross_weight then [] else [''target_max_gross_weight_invalid'']);
          limits_valid = valid_limit max_symbol_weight \<and> valid_limit max_gross_weight;
          weights_valid = list_all valid_weight (dict_values target_weights);
          weights = map num_of (dict_values target_weights);
          r4 = (if weights_valid then [] else [''target_weight_invalid'']);
          gross = sum_list (map val weights);
          r5 = (if weights_valid \<and> limits_valid \<and> list_ex (\<lambda>w. dlt (num_of max_symbol_weight) w) weights
            then [''target_symbol_limit_exceeded''] else []);
          r6 = (if weights_valid \<and> limits_valid \<and> val (num_of max_gross_weight) < gross
            then [''target_gross_limit_exceeded''] else []);
          reasons = r1 @ r2 @ r3 @ r4 @ r5 @ r6
      in \<lparr>lr_status = (if reasons \<noteq> [] then ''blocked'' else ''allowed''), lr_reasons = reasons,
          lr_gross_weight = (if weights_valid then Some (exact_decimal_sum weights) else None),
          lr_max_symbol_weight = max_symbol_weight, lr_max_gross_weight = max_gross_weight,
          lr_authorizes_execution = False\<rparr>)"

section \<open>Allocation of a session's entries\<close>

record allocation =
  al_targets :: "(string, decimal) dict"
  al_selected :: "string list"
  al_quantities :: "(string, decimal) dict"
  al_costs :: "(string, decimal) dict"
  al_exit_symbols :: "string list"
  al_rejected :: "(string, string) dict"

record allocation_state =
  as_slots :: int
  as_available :: decimal
  as_gross_room :: decimal
  as_allocation :: allocation

text \<open>
  The binary search for the number of lots. \<open>buy_cost\<close> quotes the complete cost of a purchase or
  gives no quote.
\<close>

definition lot_feasible ::
  "(decimal \<Rightarrow> pynum option) \<Rightarrow> decimal \<Rightarrow> decimal \<Rightarrow> decimal \<Rightarrow> decimal \<Rightarrow> int \<Rightarrow> bool res" where
  "lot_feasible buy_cost price lot available budget middle =
     (let amount = dmul (dmul price lot) (dec_of_int middle) in
      case buy_cost (dmul lot (dec_of_int middle)) of
        None \<Rightarrow> Inr False
      | Some cost \<Rightarrow>
          if \<not> valid_weight cost \<or> dlt (num_of cost) amount
          then Inl (ValueError ''formula_portfolio_buy_cost_invalid'')
          else Inr (dle (num_of cost) available \<and> dle amount budget))"

function search_lots :: "(int \<Rightarrow> bool res) \<Rightarrow> int \<Rightarrow> int \<Rightarrow> int res" where
  "search_lots feasible low high =
     (if low < high then
        let middle = (low + high + 1) div 2 in
        bind_res (feasible middle) (\<lambda>ok.
          if ok then search_lots feasible middle high else search_lots feasible low (middle - 1))
      else Inr low)"
  by pat_completeness auto
termination
  by (relation "measure (\<lambda>(_, low, high). nat (high - low))") auto

declare search_lots.simps [simp del]

definition reject_entry :: "string \<Rightarrow> string \<Rightarrow> allocation_state \<Rightarrow> allocation_state" where
  "reject_entry s reason st = st\<lparr>as_allocation := (as_allocation st)
     \<lparr>al_rejected := dict_put s reason (al_rejected (as_allocation st))\<rparr>\<rparr>"

definition select_entry ::
  "string \<Rightarrow> decimal \<Rightarrow> decimal \<Rightarrow> decimal \<Rightarrow> decimal \<Rightarrow> allocation_state \<Rightarrow> allocation_state" where
  "select_entry s quantity amount cost weight st =
     (let a = as_allocation st in
      \<lparr>as_slots = as_slots st - 1, as_available = dsub (as_available st) cost,
       as_gross_room = dsub (as_gross_room st) amount,
       as_allocation = a\<lparr>al_targets := dict_put s weight (al_targets a), al_selected := al_selected a @ [s],
         al_quantities := dict_put s quantity (al_quantities a),
         al_costs := dict_put s cost (al_costs a)\<rparr>\<rparr>)"

definition positive_num :: "pynum option \<Rightarrow> bool" where
  "positive_num p = (case p of Some (Num d) \<Rightarrow> dlt DZERO d | _ \<Rightarrow> False)"

definition allocate_entry ::
  "(string, pynum) dict \<Rightarrow> (string, pynum) dict \<Rightarrow> (string \<Rightarrow> decimal \<Rightarrow> decimal \<Rightarrow> pynum option)
    \<Rightarrow> decimal \<Rightarrow> decimal \<Rightarrow> string \<Rightarrow> allocation_state \<Rightarrow> allocation_state res" where
  "allocate_entry prices lot_sizes buy_cost equity max_symbol_weight s st =
     (if as_slots st \<le> 0 then Inr (reject_entry s ''position_limit'' st)
      else if \<not> positive_num (dict_get prices s) \<or> \<not> positive_num (dict_get lot_sizes s)
      then Inr (reject_entry s ''instrument_or_price_unavailable'' st)
      else
        let price = num_of (the (dict_get prices s)); lot = num_of (the (dict_get lot_sizes s));
            budget = dmin (dmin (dmul equity max_symbol_weight) (as_available st)) (as_gross_room st)
        in bind_res (ddiv budget (dmul price lot)) (\<lambda>ratio.
           bind_res (search_lots (lot_feasible (buy_cost s price) price lot (as_available st) budget) 0 (dtrunc ratio))
             (\<lambda>low.
              let quantity = dmul lot (dec_of_int low); amount = dmul price quantity in
              if dle quantity DZERO then Inr (reject_entry s ''cash_or_lot_constraint'' st)
              else case buy_cost s price quantity of
                None \<Rightarrow> Inr (reject_entry s ''cost_quote_unavailable'' st)
              | Some cost \<Rightarrow> bind_res (ddiv amount equity) (\<lambda>weight.
                  Inr (select_entry s quantity amount (num_of cost) weight st)))))"

text \<open>The order of the candidates: the most liquid first, then by name.\<close>

definition liquidity_key :: "(string, decimal) dict \<Rightarrow> string \<Rightarrow> rat \<times> string" where
  "liquidity_key liquidity s = (val (dneg (dict_get_default liquidity s DZERO)), s)"

definition allocate_formula_targets ::
  "string list \<Rightarrow> string list \<Rightarrow> (string, pynum) dict \<Rightarrow> (string, pynum) dict \<Rightarrow> (string, decimal) dict
    \<Rightarrow> (string, pynum) dict \<Rightarrow> pynum \<Rightarrow> pynum \<Rightarrow> (string \<Rightarrow> decimal \<Rightarrow> decimal \<Rightarrow> pynum option)
    \<Rightarrow> int \<Rightarrow> pynum \<Rightarrow> pynum \<Rightarrow> pynum \<Rightarrow> allocation res" where
  "allocate_formula_targets entries exits position_values prices liquidity lot_sizes cash equity buy_cost
      max_positions max_symbol_weight max_gross_weight cash_buffer_ratio =
     (if max_positions < 1 \<or> \<not> valid_weight cash \<or> \<not> valid_weight equity \<or> dle (num_of equity) DZERO \<or>
         \<not> list_all valid_weight (dict_values position_values) \<or>
         \<not> (valid_limit max_symbol_weight \<and> valid_limit max_gross_weight \<and> valid_limit cash_buffer_ratio) \<or>
         dle (num_of max_symbol_weight) DZERO \<or> dle (num_of max_gross_weight) DZERO
      then Inl (ValueError ''formula_portfolio_inputs_invalid'')
      else
        let e = num_of equity;
            held = filter (\<lambda>(_, v). dlt DZERO v) (map (\<lambda>(s, v). (s, num_of v)) position_values);
            exit_symbols = filter (\<lambda>s. s \<in> set exits) (dict_keys held);
            ranked = sort_key (liquidity_key liquidity)
              (filter (\<lambda>s. s \<notin> set (dict_keys held) \<and> s \<notin> set exits) (remdups entries))
        in bind_res (map_res (\<lambda>(s, v). if s \<in> set exit_symbols then Inr (s, DZERO)
              else bind_res (ddiv v e) (\<lambda>w. Inr (s, w))) held) (\<lambda>targets.
           bind_res (fold_res (allocate_entry prices lot_sizes buy_cost e (num_of max_symbol_weight)) ranked
             \<lparr>as_slots = max 0 (max_positions - int (length held)),
              as_available = dmax DZERO (dsub (num_of cash) (dmul e (num_of cash_buffer_ratio))),
              as_gross_room = dmax DZERO (dsub (dmul e (num_of max_gross_weight)) (dsum (map snd held))),
              as_allocation = \<lparr>al_targets = targets, al_selected = [], al_quantities = [], al_costs = [],
                al_exit_symbols = sort exit_symbols, al_rejected = []\<rparr>\<rparr>)
           (\<lambda>st. let a = as_allocation st in
             Inr (a\<lparr>al_targets := sort_key fst (al_targets a), al_rejected := sort_key fst (al_rejected a)\<rparr>))))"

section \<open>Capping and scaling\<close>

lemma cap_weight_cases:
  assumes "cap_weight m (s, w) capped = Inr capped'"
  shows "trimmed s" "valid_weight w" "capped' = dict_put s (min (val (num_of w)) (val m)) capped"
  using assms by (auto simp: cap_weight_def split: if_splits)

lemma valid_weight_nonneg: "valid_weight w \<Longrightarrow> 0 \<le> val (num_of w)"
  by (cases w) (simp_all add: dle_val)

lemma cap_fold:
  assumes "fold_res (cap_weight m) desired capped = Inr capped'" "distinct (dict_keys capped @ dict_keys desired)"
    and "0 \<le> val m" "list_all trimmed (dict_keys capped)"
  shows "dict_keys capped' = dict_keys capped @ dict_keys desired \<and> list_all trimmed (dict_keys capped') \<and>
    (\<forall>(s, w) \<in> set desired. (s, min (val (num_of w)) (val m)) \<in> set capped' \<and> valid_weight w) \<and>
    set capped \<subseteq> set capped' \<and>
    (\<forall>(s, x) \<in> set capped'. (s, x) \<in> set capped \<or> (0 \<le> x \<and> x \<le> val m))"
  using assms
proof (induction desired arbitrary: capped)
  case (Cons item desired)
  obtain s w where item: "item = (s, w)" by (cases item)
  from Cons.prems(1) obtain c1 where c1: "cap_weight m (s, w) capped = Inr c1"
    and r: "fold_res (cap_weight m) desired c1 = Inr capped'" by (auto simp: item bind_res_eq_Inr)
  note w = cap_weight_cases[OF c1]
  have "dict_get capped s = None" using Cons.prems(2) by (auto simp: item map_of_eq_None_iff)
  then have c1': "c1 = capped @ [(s, min (val (num_of w)) (val m))]" using w(3) by (simp add: dict_put_absent)
  have "0 \<le> val (num_of w)" using w(2) by (rule valid_weight_nonneg)
  then have new: "0 \<le> min (val (num_of w)) (val m) \<and> min (val (num_of w)) (val m) \<le> val m" using Cons.prems(3) by simp
  have "distinct (dict_keys c1 @ dict_keys desired)" "list_all trimmed (dict_keys c1)"
    using Cons.prems(2,4) w(1) unfolding c1' by (auto simp: item)
  note IH = Cons.IH[OF r this(1) Cons.prems(3) this(2)]
  have keys: "dict_keys c1 = dict_keys capped @ [s]" and set_c1: "set c1 = insert (s, min (val (num_of w)) (val m)) (set capped)"
    unfolding c1' by auto
  show ?case
  proof (intro conjI)
    show "dict_keys capped' = dict_keys capped @ dict_keys (item # desired)" using IH keys by (simp add: item)
    show "list_all trimmed (dict_keys capped')" using IH by blast
    show "\<forall>(s, w) \<in> set (item # desired). (s, min (val (num_of w)) (val m)) \<in> set capped' \<and> valid_weight w"
      using IH set_c1 w(2) by (auto simp: item)
    show "set capped \<subseteq> set capped'" using IH set_c1 by blast
    show "\<forall>(s, x) \<in> set capped'. (s, x) \<in> set capped \<or> (0 \<le> x \<and> x \<le> val m)"
    proof (intro ballI, clarify)
      fix s' x assume x: "(s', x) \<in> set capped'" and c: "\<not> (0 \<le> x \<and> x \<le> val m)"
      have "(s', x) \<in> set c1 \<or> (0 \<le> x \<and> x \<le> val m)" using IH x by blast
      with c new show "(s', x) \<in> set capped" unfolding set_c1 by auto
    qed
  qed
qed auto

lemma sum_list_sort_key: "sum_list (map f (sort_key g xs)) = sum_list (map f xs)" for f :: "'a \<Rightarrow> rat"
proof -
  have "mset (map f (sort_key g xs)) = mset (map f xs)" by simp
  then have "sum_mset (mset (map f (sort_key g xs))) = sum_mset (mset (map f xs))" by (rule arg_cong)
  then show ?thesis by (simp only: sum_mset_sum_list)
qed

lemma scaled_weight_bounds:
  assumes "0 \<le> w" "0 \<le> scale" "scale \<le> 1"
  shows "0 \<le> val (scaled_weight scale w)" "val (scaled_weight scale w) \<le> w * scale"
    "w * scale - 1 / 10 ^ 8 < val (scaled_weight scale w)" "val (scaled_weight scale w) \<le> w"
proof -
  let ?n = "\<lfloor>w * scale * of_int WEIGHT_UNITS\<rfloor>"
  have v: "val (scaled_weight scale w) = of_int ?n / 10 ^ 8"
    by (simp add: scaled_weight_def val_def powi10_neg)
  have u: "w * scale * of_int WEIGHT_UNITS = w * scale * 10 ^ 8" by (simp add: WEIGHT_UNITS_def)
  have n: "of_int ?n \<le> w * scale * 10 ^ 8" "w * scale * 10 ^ 8 < of_int ?n + 1"
    unfolding u[symmetric] by linarith+
  have "0 \<le> ?n" using assms by (simp add: WEIGHT_UNITS_def)
  then show "0 \<le> val (scaled_weight scale w)" by (simp add: v)
  show le: "val (scaled_weight scale w) \<le> w * scale" using n(1) by (simp add: v)
  show "w * scale - 1 / 10 ^ 8 < val (scaled_weight scale w)" using n(2) by (simp add: v)
  have "w * scale \<le> w" using assms by (simp add: mult_left_le)
  with le show "val (scaled_weight scale w) \<le> w" by simp
qed

lemma weight_scale_bounds:
  assumes "0 \<le> m" "0 \<le> g"
  shows "0 \<le> weight_scale m g" "weight_scale m g \<le> 1" "g * weight_scale m g \<le> m" "g \<le> m \<Longrightarrow> weight_scale m g = 1"
  using assms by (auto simp: weight_scale_def min_def field_simps)

lemma build_shape:
  assumes "build_research_target_weights desired ms mg = Inr ws" "distinct (dict_keys desired)"
  obtains capped scale where "valid_limit ms" "valid_limit mg" "desired \<noteq> []"
    "ws = map (\<lambda>(s, w). (s, scaled_weight scale w)) (sort_key fst capped)"
    "dict_keys capped = dict_keys desired" "list_all trimmed (dict_keys desired)"
    "\<forall>(s, w) \<in> set desired. (s, min (val (num_of w)) (val (num_of ms))) \<in> set capped \<and> valid_weight w"
    "\<forall>(s, x) \<in> set capped. 0 \<le> x \<and> x \<le> val (num_of ms)"
    "scale = weight_scale (val (num_of mg)) (sum_list (dict_values capped))"
proof -
  obtain capped where v: "valid_limit ms" "valid_limit mg" "desired \<noteq> []"
    and f: "fold_res (cap_weight (num_of ms)) desired [] = Inr capped"
    and ws: "ws = map (\<lambda>(s, w). (s, scaled_weight (weight_scale (val (num_of mg)) (sum_list (dict_values capped))) w))
      (sort_key fst capped)"
    using assms(1) by (auto simp: build_research_target_weights_def bind_res_eq_Inr Let_def split: if_splits)
  have "0 \<le> val (num_of ms)" using v(1) by (cases ms) (simp_all add: dle_val)
  from cap_fold[OF f _ this] assms(2) have "dict_keys capped = dict_keys desired" "list_all trimmed (dict_keys desired)"
    "\<forall>(s, w) \<in> set desired. (s, min (val (num_of w)) (val (num_of ms))) \<in> set capped \<and> valid_weight w"
    "\<forall>(s, x) \<in> set capped. 0 \<le> x \<and> x \<le> val (num_of ms)" by auto
  with v ws that show thesis by blast
qed

lemma capped_sum_nonneg: "\<forall>(s, x) \<in> set capped. 0 \<le> (x::rat) \<and> x \<le> m \<Longrightarrow> 0 \<le> sum_list (dict_values capped)"
  by (induction capped) auto

lemma scaled_sum:
  assumes "\<forall>(s, x) \<in> set capped. 0 \<le> x \<and> x \<le> m" "0 \<le> scale" "scale \<le> 1"
  shows "sum_list (map (\<lambda>(s, w). val (scaled_weight scale w)) capped) \<le> sum_list (dict_values capped) * scale"
  using assms(1)
proof (induction capped)
  case (Cons p capped)
  obtain s x where p: "p = (s, x)" by (cases p)
  with Cons.prems have "0 \<le> x" by auto
  from scaled_weight_bounds(2)[OF this assms(2,3)] Cons p show ?case by (simp add: algebra_simps)
qed simp

section \<open>The search for the number of lots\<close>

lemma search_lots_range:
  "low \<le> high \<Longrightarrow> search_lots f low high = Inr m \<Longrightarrow> low \<le> m \<and> m \<le> high \<and> (m = low \<or> f m = Inr True)"
proof (induction f low high rule: search_lots.induct)
  case (1 f low high)
  show ?case
  proof (cases "low < high")
    case True
    let ?mid = "(low + high + 1) div 2"
    have mid: "low < ?mid" "?mid \<le> high" using True by auto
    obtain ok where ok: "f ?mid = Inr ok"
      using "1.prems"(2) True by (subst (asm) search_lots.simps) (auto simp: Let_def bind_res_eq_Inr)
    show ?thesis
    proof (cases ok)
      case True
      then have "search_lots f ?mid high = Inr m"
        using "1.prems"(2) \<open>low < high\<close> ok by (subst (asm) search_lots.simps) (simp add: Let_def)
      from "1.IH"(1)[OF \<open>low < high\<close> refl True _ this] mid ok True show ?thesis by auto
    next
      case False
      then have "search_lots f low (?mid - 1) = Inr m"
        using "1.prems"(2) \<open>low < high\<close> ok by (subst (asm) search_lots.simps) (simp add: Let_def)
      from "1.IH"(2)[OF \<open>low < high\<close> refl False _ this] mid show ?thesis by auto
    qed
  next
    case False
    then show ?thesis using "1.prems" by (subst (asm) search_lots.simps) auto
  qed
qed

lemma search_lots_greatest:
  assumes "low \<le> high" "\<forall>k. low < k \<longrightarrow> k \<le> high \<longrightarrow> f k = Inr (good k)"
    and "\<forall>j k. low < j \<longrightarrow> j \<le> k \<longrightarrow> k \<le> high \<longrightarrow> good k \<longrightarrow> good j"
  shows "\<exists>m. search_lots f low high = Inr m \<and> (\<forall>k. m < k \<longrightarrow> k \<le> high \<longrightarrow> \<not> good k)"
  using assms
proof (induction f low high rule: search_lots.induct)
  case (1 f low high)
  show ?case
  proof (cases "low < high")
    case True
    let ?mid = "(low + high + 1) div 2"
    have mid: "low < ?mid" "?mid \<le> high" using True by auto
    then have f: "f ?mid = Inr (good ?mid)" using "1.prems"(2) by blast
    show ?thesis
    proof (cases "good ?mid")
      case g: True
      have "\<exists>m. search_lots f ?mid high = Inr m \<and> (\<forall>k. m < k \<longrightarrow> k \<le> high \<longrightarrow> \<not> good k)"
        using "1.IH"(1)[OF True refl g] "1.prems" mid by (meson less_trans)
      then show ?thesis using True f g by (subst search_lots.simps) (simp add: Let_def)
    next
      case g: False
      have "\<exists>m. search_lots f low (?mid - 1) = Inr m \<and> (\<forall>k. m < k \<longrightarrow> k \<le> ?mid - 1 \<longrightarrow> \<not> good k)"
        using "1.IH"(2)[OF True refl g] "1.prems" mid
        by (smt (verit))
      then obtain m where m: "search_lots f low (?mid - 1) = Inr m" "\<forall>k. m < k \<longrightarrow> k \<le> ?mid - 1 \<longrightarrow> \<not> good k" by blast
      have "\<forall>k. m < k \<longrightarrow> k \<le> high \<longrightarrow> \<not> good k"
      proof (intro allI impI)
        fix k assume k: "m < k" "k \<le> high"
        show "\<not> good k"
        proof (cases "k \<le> ?mid - 1")
          case False
          then show ?thesis using g "1.prems"(3) mid k(2) by (metis add_le_cancel_right less_add_one
              linorder_not_le nle_le zle_diff1_eq)
        qed (use m k in blast)
      qed
      with m True f g show ?thesis by (subst search_lots.simps) (simp add: Let_def)
    qed
  next
    case False
    then show ?thesis using "1.prems"(1) by (subst search_lots.simps) auto
  qed
qed

lemma search_lots_feasible: "search_lots f low high = Inr m \<Longrightarrow> m = low \<or> f m = Inr True"
proof (cases "low \<le> high")
  case False
  moreover assume "search_lots f low high = Inr m"
  ultimately show ?thesis by (subst (asm) search_lots.simps) simp
qed (use search_lots_range in blast)

section \<open>Invariants of the allocation\<close>

lemma allocate_entry_cases:
  assumes "allocate_entry prices lot_sizes buy_cost equity msw s st = Inr st'"
  obtains (rejected) reason where "st' = reject_entry s reason st"
  | (selected) price lot quantity amount cost weight where
      "0 < as_slots st" "dict_get prices s = Some (Num price)" "dict_get lot_sizes s = Some (Num lot)"
      "dlt DZERO price" "dlt DZERO lot" "dlt DZERO quantity"
      "buy_cost s price quantity = Some (Num cost)" "dle DZERO cost" "dle cost (as_available st)"
      "st' = select_entry s quantity amount cost weight st"
proof (cases "as_slots st \<le> 0 \<or> \<not> positive_num (dict_get prices s) \<or> \<not> positive_num (dict_get lot_sizes s)")
  case True
  with assms show thesis by (auto simp: allocate_entry_def intro: rejected split: if_splits)
next
  case False
  then have slots: "\<not> as_slots st \<le> 0" and nums: "\<not> (\<not> positive_num (dict_get prices s) \<or> \<not> positive_num (dict_get lot_sizes s))"
    by auto
  from False obtain price lot where pl: "dict_get prices s = Some (Num price)" "dict_get lot_sizes s = Some (Num lot)"
    "dlt DZERO price" "dlt DZERO lot"
    by (auto simp: positive_num_def split: option.splits pynum.splits)
  let ?budget = "dmin (dmin (dmul equity msw) (as_available st)) (as_gross_room st)"
  let ?f = "lot_feasible (buy_cost s price) price lot (as_available st) ?budget"
  let ?g = "\<lambda>low. let quantity = dmul lot (dec_of_int low); amount = dmul price quantity in
      if dle quantity DZERO then Inr (reject_entry s ''cash_or_lot_constraint'' st)
      else case buy_cost s price quantity of
        None \<Rightarrow> Inr (reject_entry s ''cost_quote_unavailable'' st)
      | Some cost \<Rightarrow> bind_res (ddiv amount equity) (\<lambda>weight.
          Inr (select_entry s quantity amount (num_of cost) weight st))"
  have "bind_res (ddiv ?budget (dmul price lot)) (\<lambda>ratio. bind_res (search_lots ?f 0 (dtrunc ratio)) ?g) = Inr st'"
    using assms unfolding allocate_entry_def if_not_P[OF slots] if_not_P[OF nums]
    unfolding pl(1,2) option.sel num_of.simps Let_def .
  then obtain ratio where "bind_res (search_lots ?f 0 (dtrunc ratio)) ?g = Inr st'" by (rule bind_res_InrE)
  then obtain low where low: "search_lots ?f 0 (dtrunc ratio) = Inr low" and r: "?g low = Inr st'"
    by (rule bind_res_InrE)
  let ?q = "dmul lot (dec_of_int low)"
  show thesis
  proof (cases "dle ?q DZERO \<or> buy_cost s price ?q = None")
    case True
    with r show thesis by (auto simp: Let_def intro: rejected split: if_splits)
  next
    case ok: False
    then obtain cost where cost: "buy_cost s price ?q = Some cost" by auto
    have "low \<noteq> 0"
    proof
      assume "low = 0"
      then have "val ?q = 0" by (simp add: val_simps)
      with ok show False by (simp add: dle_val)
    qed
    then have "?f low = Inr True" using search_lots_feasible[OF low] by simp
    then have "valid_weight cost" "dle (num_of cost) (as_available st)"
      using cost by (auto simp: lot_feasible_def Let_def split: if_splits)
    moreover obtain weight where "st' = select_entry s ?q (dmul price ?q) (num_of cost) weight st"
      using r ok cost by (auto simp: Let_def bind_res_eq_Inr)
    moreover have "dlt DZERO ?q" using ok by (simp add: dlt_val dle_val)
    ultimately show thesis
      using False pl cost by (cases cost) (auto intro: selected)
  qed
qed

text \<open>What holds between two entries: selections are new names, slots and cash are accounted for.\<close>

definition allocation_ok :: "int \<Rightarrow> int \<Rightarrow> decimal \<Rightarrow> string set \<Rightarrow> allocation_state \<Rightarrow> bool" where
  "allocation_ok k slots available seen st =
     (let a = as_allocation st in
      distinct (al_selected a) \<and> set (al_selected a) \<subseteq> seen \<and> dict_keys (al_costs a) = al_selected a \<and>
      as_slots st + int (length (al_selected a)) = slots \<and> 0 \<le> as_slots st \<and>
      grid k (as_available st) \<and> 0 \<le> val (as_available st) \<and>
      sum_list (map val (dict_values (al_costs a))) = val available - val (as_available st))"

lemma allocate_entry_ok:
  assumes st: "allocation_ok k slots available seen st" and s: "s \<notin> seen"
    and a: "allocate_entry prices lot_sizes buy_cost equity msw s st = Inr st'"
    and g: "\<forall>s p q c. buy_cost s p q = Some (Num c) \<longrightarrow> grid k c"
  shows "allocation_ok k slots available (insert s seen) st'"
  using a
proof (cases rule: allocate_entry_cases)
  case (rejected reason)
  with st show ?thesis by (auto simp: allocation_ok_def reject_entry_def Let_def)
next
  case (selected price lot quantity amount cost weight)
  have gc: "grid k cost" using g selected(7) by blast
  have c: "0 \<le> val cost" "val cost \<le> val (as_available st)" using selected(8,9) by (simp_all add: dle_val)
  have sub: "gridv k (val (as_available st) - val cost)"
    using st gc c by (intro gridv_diff) (simp_all add: allocation_ok_def Let_def)
  have new: "dict_get (al_costs (as_allocation st)) s = None"
  proof -
    have "s \<notin> set (dict_keys (al_costs (as_allocation st)))"
      using st s unfolding allocation_ok_def Let_def by (metis subsetD)
    then show ?thesis by (simp add: map_of_eq_None_iff)
  qed
  from st s selected(1,10) sub c new show ?thesis
    by (auto simp: allocation_ok_def select_entry_def Let_def val_dsub dict_put_absent)
qed

lemma allocate_fold_ok:
  assumes "allocation_ok k slots available seen st" "distinct ss" "set ss \<inter> seen = {}"
    and "fold_res (allocate_entry prices lot_sizes buy_cost equity msw) ss st = Inr st'"
    and "\<forall>s p q c. buy_cost s p q = Some (Num c) \<longrightarrow> grid k c"
  shows "allocation_ok k slots available (seen \<union> set ss) st'"
  using assms
proof (induction ss arbitrary: st seen)
  case (Cons s ss)
  from Cons.prems(4) obtain st1 where 1: "allocate_entry prices lot_sizes buy_cost equity msw s st = Inr st1"
    and r: "fold_res (allocate_entry prices lot_sizes buy_cost equity msw) ss st1 = Inr st'"
    by (auto simp: bind_res_eq_Inr)
  have "allocation_ok k slots available (insert s seen) st1"
    using Cons.prems by (intro allocate_entry_ok[OF _ _ 1]) auto
  from Cons.IH[OF this _ _ r Cons.prems(5)] Cons.prems(2,3) show ?case by auto
qed simp

section \<open>Properties\<close>

text \<open>C17: the two policies agree. Weights built from valid limits pass the independent check with the same
  limits over the same universe: it allows them, gives no reason, and never authorises execution.\<close>

theorem built_targets_pass_limits:
  assumes "build_research_target_weights desired ms mg = Inr ws" "distinct (dict_keys desired)"
    and "distinct universe" "set universe = set (dict_keys desired)"
  shows "lr_status (evaluate_target_limits (map (\<lambda>(s, w). (s, Num w)) ws) universe ms mg) = ''allowed'' \<and>
    lr_reasons (evaluate_target_limits (map (\<lambda>(s, w). (s, Num w)) ws) universe ms mg) = [] \<and>
    \<not> lr_authorizes_execution (evaluate_target_limits (map (\<lambda>(s, w). (s, Num w)) ws) universe ms mg)"
proof -
  obtain capped scale where b: "valid_limit ms" "valid_limit mg" "desired \<noteq> []"
    "ws = map (\<lambda>(s, w). (s, scaled_weight scale w)) (sort_key fst capped)"
    "dict_keys capped = dict_keys desired" "list_all trimmed (dict_keys desired)"
    "\<forall>(s, w) \<in> set desired. (s, min (val (num_of w)) (val (num_of ms))) \<in> set capped \<and> valid_weight w"
    "\<forall>(s, x) \<in> set capped. 0 \<le> x \<and> x \<le> val (num_of ms)"
    and scale: "scale = weight_scale (val (num_of mg)) (sum_list (dict_values capped))"
    by (rule build_shape[OF assms(1,2)])
  have mg: "0 \<le> val (num_of mg)" using b(2) by (cases mg) (simp_all add: dle_val)
  note sc = weight_scale_bounds[OF mg capped_sum_nonneg[OF b(8)], folded scale]
  have vals: "dict_values ws = map (\<lambda>p. scaled_weight scale (snd p)) (sort_key fst capped)"
    and keys: "set (dict_keys ws) = set universe"
    using b(4) arg_cong[OF b(5), of set] assms(4) by (auto simp: case_prod_beta image_image)
  have each: "0 \<le> val w \<and> val w \<le> val (num_of ms)" if w: "w \<in> set (dict_values ws)" for w
  proof -
    obtain s x where x: "(s, x) \<in> set capped" "w = scaled_weight scale x" using w unfolding vals by auto
    then have "0 \<le> x" "x \<le> val (num_of ms)" using b(8) by auto
    with scaled_weight_bounds[OF this(1) sc(1,2)] x(2) show ?thesis by auto
  qed
  have "sum_list (map val (dict_values ws)) = sum_list (map (\<lambda>(s, w). val (scaled_weight scale w)) capped)"
    using sum_list_sort_key[of "\<lambda>p. val (scaled_weight scale (snd p))" fst capped]
    by (simp add: vals comp_def case_prod_beta')
  also have "\<dots> \<le> val (num_of mg)" using scaled_sum[OF b(8) sc(1,2)] sc(3) by simp
  finally have gross: "sum_list (map val (dict_values ws)) \<le> val (num_of mg)" .
  have u: "universe \<noteq> []" "list_all trimmed universe"
    using b(3,6) assms(4) by (auto simp: list_all_iff)
  let ?tw = "map (\<lambda>(s, w). (s, Num w)) ws"
  have k: "dict_keys ?tw = dict_keys ws" and v: "dict_values ?tw = map Num (dict_values ws)"
    by (auto simp: case_prod_beta)
  have n: "map num_of (dict_values ?tw) = dict_values ws" unfolding v by simp
  have ok: "list_all valid_weight (dict_values ?tw)" unfolding v using each by (simp add: list_all_iff dle_val)
  have "\<not> list_ex (\<lambda>w. dlt (num_of ms) w) (dict_values ws)"
    using each by (auto simp: list_ex_iff dlt_val not_less)
  then show ?thesis using u assms(3) keys b(1,2) ok gross
    unfolding evaluate_target_limits_def Let_def n k by (simp add: not_less)
qed

lemma built_targets_pass_limits_witness:
  "\<exists>ws. build_research_target_weights [(''B'', Num (Decimal 8 (- 1))), (''A'', Num (Decimal 4 (- 1)))]
      (Num (Decimal 5 (- 1))) (Num (Decimal 6 (- 1))) = Inr ws \<and>
    dict_keys ws = [''A'', ''B''] \<and>
    lr_status (evaluate_target_limits (map (\<lambda>(s, w). (s, Num w)) ws) [''A'', ''B'']
      (Num (Decimal 5 (- 1))) (Num (Decimal 6 (- 1)))) = ''allowed''"
proof -
  let ?d = "[(''B'', Num (Decimal 8 (- 1))), (''A'', Num (Decimal 4 (- 1)))]"
  have "trimmed ''A''" "trimmed ''B''" by code_simp+
  then obtain ws where ws: "build_research_target_weights ?d (Num (Decimal 5 (- 1))) (Num (Decimal 6 (- 1))) = Inr ws"
    "dict_keys ws = [''A'', ''B'']"
    by (simp add: build_research_target_weights_def cap_weight_def val_simps val_def powi10_neg Let_def)
  with built_targets_pass_limits[OF ws(1), of "[''A'', ''B'']"] show ?thesis by auto
qed

text \<open>Capping loses almost nothing. Every target is at most the desired weight and the cap for a symbol; when
  the capped weights together stay within the gross limit, each is less than one unit of the eighth
  decimal below the smaller of the two.\<close>

theorem capping_loses_less_than_a_unit:
  assumes "build_research_target_weights desired ms mg = Inr ws" "distinct (dict_keys desired)"
    and "(s, w) \<in> set desired"
  shows "\<exists>t. (s, t) \<in> set ws \<and> dle DZERO t \<and> dle t (num_of w) \<and> dle t (num_of ms) \<and>
    (sum_list (map (\<lambda>(s, w). min (val (num_of w)) (val (num_of ms))) desired) \<le> val (num_of mg) \<longrightarrow>
      min (val (num_of w)) (val (num_of ms)) - 1 / 10 ^ 8 < val t)"
proof -
  obtain capped scale where b: "valid_limit ms" "valid_limit mg" "desired \<noteq> []"
    "ws = map (\<lambda>(s, w). (s, scaled_weight scale w)) (sort_key fst capped)"
    "dict_keys capped = dict_keys desired" "list_all trimmed (dict_keys desired)"
    "\<forall>(s, w) \<in> set desired. (s, min (val (num_of w)) (val (num_of ms))) \<in> set capped \<and> valid_weight w"
    "\<forall>(s, x) \<in> set capped. 0 \<le> x \<and> x \<le> val (num_of ms)"
    and scale: "scale = weight_scale (val (num_of mg)) (sum_list (dict_values capped))"
    by (rule build_shape[OF assms(1,2)])
  have mg: "0 \<le> val (num_of mg)" using b(2) by (cases mg) (simp_all add: dle_val)
  note sc = weight_scale_bounds[OF mg capped_sum_nonneg[OF b(8)], folded scale]
  let ?m = "min (val (num_of w)) (val (num_of ms))"
  have c: "(s, ?m) \<in> set capped" using b(7) assms(3) by auto
  then have m: "0 \<le> ?m" using b(8) by auto
  have "capped = map (\<lambda>(s, w). (s, min (val (num_of w)) (val (num_of ms)))) desired"
  proof (rule nth_equalityI)
    show len: "length capped = length (map (\<lambda>(s, w). (s, min (val (num_of w)) (val (num_of ms)))) desired)"
      using arg_cong[OF b(5), of length] by simp
    fix i assume i: "i < length capped"
    obtain s' w' where d: "desired ! i = (s', w')" by (cases "desired ! i")
    have li: "i < length desired" using i len by simp
    have "(s', min (val (num_of w')) (val (num_of ms))) \<in> set capped"
      using b(7) nth_mem[OF li] unfolding d by blast
    moreover have "fst (capped ! i) = s'" using arg_cong[OF b(5), of "\<lambda>l. l ! i"] i li d by simp
    moreover have "capped ! i \<in> set capped" using i by simp
    moreover have "distinct (map fst capped)" using b(5) assms(2) by simp
    ultimately have "capped ! i = (s', min (val (num_of w')) (val (num_of ms)))"
      by (metis eq_key_imp_eq_value prod.collapse)
    then show "capped ! i = map (\<lambda>(s, w). (s, min (val (num_of w)) (val (num_of ms)))) desired ! i"
      using li d by simp
  qed
  then have sums: "sum_list (dict_values capped) =
      sum_list (map (\<lambda>(s, w). min (val (num_of w)) (val (num_of ms))) desired)"
    by (simp add: comp_def case_prod_beta')
  note sb = scaled_weight_bounds[OF m sc(1,2)]
  have "(s, scaled_weight scale ?m) \<in> set ws" using c unfolding b(4) by force
  moreover have "?m - 1 / 10 ^ 8 < val (scaled_weight scale ?m)"
    if "sum_list (dict_values capped) \<le> val (num_of mg)"
    using sb(3) sc(4)[OF that] by simp
  ultimately show ?thesis using sb(1,4) unfolding sums by (intro exI[of _ "scaled_weight scale ?m"]) (auto simp: dle_val)
qed

lemma capping_loses_less_than_a_unit_example:
  "\<exists>ws t. build_research_target_weights [(''A'', Num (Decimal 123456789 (- 9)))]
      (Num (Decimal 5 (- 1))) (Num DONE) = Inr ws \<and> (''A'', t) \<in> set ws \<and> dle t (Decimal 123456789 (- 9)) \<and>
    123456789 / 10 ^ 9 - 1 / 10 ^ 8 < val t"
proof -
  let ?d = "[(''A'', Num (Decimal 123456789 (- 9)))]"
  have "trimmed ''A''" by code_simp
  then obtain ws where ws: "build_research_target_weights ?d (Num (Decimal 5 (- 1))) (Num DONE) = Inr ws"
    by (simp add: build_research_target_weights_def cap_weight_def val_simps val_def powi10_neg Let_def)
  from capping_loses_less_than_a_unit[OF ws, of "''A''" "Num (Decimal 123456789 (- 9))"] ws
  show ?thesis by (auto simp: val_def powi10_neg)
qed

text \<open>C18: the binary search finds what a linear search would. When the quote is well formed for every number of
  lots and being affordable is inherited by smaller numbers, the search returns the greatest affordable
  number of lots up to the bound, or none.\<close>

theorem lot_search_is_optimal:
  assumes "0 \<le> n" "\<forall>m. 0 < m \<longrightarrow> m \<le> n \<longrightarrow> lot_feasible quote price lot available budget m = Inr (affordable m)"
    and "\<forall>j m. 0 < j \<longrightarrow> j \<le> m \<longrightarrow> m \<le> n \<longrightarrow> affordable m \<longrightarrow> affordable j"
  shows "search_lots (lot_feasible quote price lot available budget) 0 n =
    Inr (Max (insert 0 {m. 0 < m \<and> m \<le> n \<and> affordable m}))"
proof -
  let ?f = "lot_feasible quote price lot available budget" and ?S = "insert 0 {m. 0 < m \<and> m \<le> n \<and> affordable m}"
  obtain m where m: "search_lots ?f 0 n = Inr m" "\<forall>k. m < k \<longrightarrow> k \<le> n \<longrightarrow> \<not> affordable k"
    using search_lots_greatest[OF assms] by blast
  note r = search_lots_range[OF assms(1) m(1)]
  have "m \<in> ?S" using r assms(2) by (cases "m = 0") auto
  moreover have "k \<le> m" if "k \<in> ?S" for k using that m(2) r by (auto simp: not_less[symmetric])
  moreover have "finite ?S" by (rule finite_subset[of _ "{0..n}"]) (use assms(1) in auto)
  ultimately have "Max ?S = m" by (intro Max_eqI) auto
  with m(1) show ?thesis by simp
qed

definition flat_quote :: "decimal \<Rightarrow> pynum option" where
  "flat_quote quantity = Some (Num (dadd (dmul (Decimal 10 0) quantity) (Decimal 5 0)))"

lemma lot_search_is_optimal_witness:
  "search_lots (lot_feasible flat_quote (Decimal 10 0) (Decimal 100 0) (Decimal 2500 0) (Decimal 2500 0)) 0 3 = Inr 2"
proof -
  let ?f = "lot_feasible flat_quote (Decimal 10 0) (Decimal 100 0) (Decimal 2500 0) (Decimal 2500 0)"
  let ?good = "\<lambda>m::int. m \<le> 2"
  have "?f 1 = Inr True" "?f 2 = Inr True" "?f 3 = Inr False" by code_simp+
  then have "\<forall>m. 0 < m \<longrightarrow> m \<le> 3 \<longrightarrow> ?f m = Inr (?good m)"
  proof (intro allI impI)
    fix m :: int assume "?f 1 = Inr True" "?f 2 = Inr True" "?f 3 = Inr False" "0 < m" "m \<le> 3"
    then consider "m = 1" | "m = 2" | "m = 3" by linarith
    then show "?f m = Inr (?good m)" by cases (simp_all add: \<open>?f 1 = _\<close> \<open>?f 2 = _\<close> \<open>?f 3 = _\<close>)
  qed
  then have "search_lots ?f 0 3 = Inr (Max (insert 0 {m. 0 < m \<and> m \<le> 3 \<and> m \<le> 2}))"
    by (intro lot_search_is_optimal) auto
  moreover have "{m::int. 0 < m \<and> m \<le> 3 \<and> m \<le> 2} = {1, 2}" by auto
  ultimately show ?thesis by simp
qed

text \<open>C19: an allocation stays within its slots and its cash. Every selected entry is new (neither held nor an exit),
  the selected entries are as many as there are free slots at most, and their quoted costs together
  do not exceed the cash left by the buffer, for quotes and cash on a common grid.\<close>

theorem allocation_within_slots_and_cash:
  assumes "allocate_formula_targets entries exits position_values prices liquidity lot_sizes (Num cash) (Num equity)
      buy_cost max_positions ms mg (Num buffer) = Inr a"
    and "\<forall>s p q c. buy_cost s p q = Some (Num c) \<longrightarrow> grid k c" "grid k cash" "grid k (dmul equity buffer)"
    and "dle DZERO (dmul equity buffer)"
  shows "distinct (al_selected a) \<and> set (al_selected a) \<subseteq> set entries - set exits \<and>
    (\<forall>s \<in> set (al_selected a). \<forall>v. (s, Num v) \<in> set position_values \<longrightarrow> dle v DZERO) \<and>
    dict_keys (al_costs a) = al_selected a \<and>
    int (length (al_selected a)) \<le> max 0 (max_positions - int (length (filter (\<lambda>(_, v). dlt DZERO (num_of v)) position_values))) \<and>
    sum_list (map val (dict_values (al_costs a))) \<le> max 0 (val cash - val (dmul equity buffer))"
proof -
  let ?held = "filter (\<lambda>(_, v). dlt DZERO v) (map (\<lambda>(s, v). (s, num_of v)) position_values)"
  let ?ranked = "sort_key (liquidity_key liquidity)
      (filter (\<lambda>s. s \<notin> set (dict_keys ?held) \<and> s \<notin> set exits) (remdups entries))"
  let ?available = "dmax DZERO (dsub cash (dmul equity buffer))"
  let ?slots = "max 0 (max_positions - int (length ?held))"
  obtain targets room exits' st where f: "fold_res (allocate_entry prices lot_sizes buy_cost equity (num_of ms)) ?ranked
      \<lparr>as_slots = ?slots, as_available = ?available, as_gross_room = room,
       as_allocation = \<lparr>al_targets = targets, al_selected = [], al_quantities = [], al_costs = [],
         al_exit_symbols = exits', al_rejected = []\<rparr>\<rparr> = Inr st"
    and a: "al_selected a = al_selected (as_allocation st)" "al_costs a = al_costs (as_allocation st)"
    and cash: "0 \<le> val cash"
    using assms(1) unfolding allocate_formula_targets_def Let_def num_of.simps
    by (elim if_Inl_InrE bind_res_InrE) (auto simp: dle_val)
  have sub: "gridv k (val cash - val (dmul equity buffer))"
    using assms(3-5) cash by (intro gridv_sub_nonneg) (simp_all add: dle_val)
  have "allocation_ok k ?slots ?available {}
      \<lparr>as_slots = ?slots, as_available = ?available, as_gross_room = room,
       as_allocation = \<lparr>al_targets = targets, al_selected = [], al_quantities = [], al_costs = [],
         al_exit_symbols = exits', al_rejected = []\<rparr>\<rparr>"
    using sub by (simp add: allocation_ok_def val_dmax val_dsub max_def)
  from allocate_fold_ok[OF this _ _ f assms(2)]
  have ok: "allocation_ok k ?slots ?available (set ?ranked) st" by simp
  have len: "length ?held = length (filter (\<lambda>(_, v). dlt DZERO (num_of v)) position_values)"
    by (induction position_values) auto
  have held: "s \<in> set (dict_keys ?held)" if "(s, Num v) \<in> set position_values" "dlt DZERO v" for s v
    using that by (force simp: image_iff)
  have new: "set (al_selected (as_allocation st)) \<subseteq> set ?ranked" and dist: "distinct (al_selected (as_allocation st))"
    and keys: "dict_keys (al_costs (as_allocation st)) = al_selected (as_allocation st)"
    and slots: "as_slots st + int (length (al_selected (as_allocation st))) = ?slots" "0 \<le> as_slots st"
    and spent: "0 \<le> val (as_available st)"
      "sum_list (map (val \<circ> snd) (al_costs (as_allocation st))) = val ?available - val (as_available st)"
    using ok unfolding allocation_ok_def Let_def by (auto simp: comp_def)
  have "\<forall>s \<in> set (al_selected (as_allocation st)). \<forall>v. (s, Num v) \<in> set position_values \<longrightarrow> dle v DZERO"
  proof (intro ballI allI impI)
    fix s v assume s: "s \<in> set (al_selected (as_allocation st))" "(s, Num v) \<in> set position_values"
    have "s \<in> set ?ranked" using new s(1) by blast
    then have "s \<notin> set (dict_keys ?held)" by simp
    with held[OF s(2)] show "dle v DZERO" by (auto simp: dlt_val dle_val)
  qed
  moreover have "set (al_selected (as_allocation st)) \<subseteq> set entries - set exits" using new by auto
  moreover have "sum_list (map val (dict_values (al_costs (as_allocation st)))) \<le> max 0 (val cash - val (dmul equity buffer))"
    using spent gridv_rnd[OF sub] by (simp add: val_dmax val_dsub comp_def)
  moreover have "int (length (al_selected (as_allocation st))) \<le>
      max 0 (max_positions - int (length (filter (\<lambda>(_, v). dlt DZERO (num_of v)) position_values)))"
    using slots unfolding len by linarith
  ultimately show ?thesis unfolding a using dist keys by blast
qed

lemma allocation_within_slots_and_cash_witness:
  "\<exists>a. allocate_formula_targets [''A'', ''B''] [] [] [(''A'', Num (Decimal 10 0)), (''B'', Num (Decimal 10 0))] []
      [(''A'', Num (Decimal 100 0)), (''B'', Num (Decimal 100 0))] (Num (Decimal 3000 0)) (Num (Decimal 2500 0))
      (\<lambda>s p q. Some (Num (Decimal 2005 0))) 1 (Num DONE) (Num DONE) (Num DZERO) = Inr a \<and>
    al_selected a = [''A''] \<and> al_rejected a = [(''B'', ''position_limit'')] \<and>
    sum_list (map val (dict_values (al_costs a))) \<le> 3000"
proof -
  let ?run = "allocate_formula_targets [''A'', ''B''] [] [] [(''A'', Num (Decimal 10 0)), (''B'', Num (Decimal 10 0))] []
      [(''A'', Num (Decimal 100 0)), (''B'', Num (Decimal 100 0))] (Num (Decimal 3000 0)) (Num (Decimal 2500 0))
      (\<lambda>s p q. Some (Num (Decimal 2005 0))) 1 (Num DONE) (Num DONE) (Num DZERO)"
  have "case ?run of Inr a \<Rightarrow> al_selected a = [''A''] \<and> al_rejected a = [(''B'', ''position_limit'')] | _ \<Rightarrow> False"
    by code_simp
  then obtain a where a: "?run = Inr a" "al_selected a = [''A'']" "al_rejected a = [(''B'', ''position_limit'')]"
    by (auto split: sum.splits)
  have "grid 0 (Decimal 2005 0)" "grid 0 (Decimal 3000 0)" by (simp_all add: gridv_def val_def)
  moreover have "val (dmul (Decimal 2500 0) DZERO) = 0" by (simp add: val_dmul)
  ultimately have "sum_list (map val (dict_values (al_costs a))) \<le> 3000"
    using allocation_within_slots_and_cash[OF a(1), of 0] by (simp add: gridv_def dle_val val_def)
  with a show ?thesis by blast
qed

end
