(* ===== verification/Rebalance.thy ===== *)
theory Rebalance
  imports Core_Types
begin

text \<open>
  \<open>execution/rebalance_order_generator.py\<close>: the plan of orders that moves holdings to target weights.
  Weights, prices and amounts are decimals already read from their texts (\<open>Decimal(str(x))\<close>). The
  Chinese texts of the code are constructors: the reason of an order, and the name of a symbol from the
  default table. The renderings of a plan (CSV, Markdown, script) are not modelled.
\<close>

section \<open>Plans\<close>

datatype rebalance_reason = ExitPosition | ReducePosition | IncreasePosition | OpenPosition

text \<open>\<open>DefaultName s\<close> is the entry of \<open>_DEFAULT_SYMBOL_NAMES\<close> at \<open>s\<close>.\<close>

datatype proposal_name = GivenName string | DefaultName symbol

definition default_symbols :: "symbol list" where
  "default_symbols = [''510300'', ''510500'', ''512100'', ''159915'', ''588000'', ''512890'', ''518880'',
     ''511010'', ''511990'', ''513100'', ''513500'', ''159934'', ''512010'', ''512690'', ''512480'',
     ''515050'', ''512760'']"

record rebalance_proposal =
  rp_symbol :: symbol
  rp_name :: proposal_name
  rp_side :: order_side
  rp_quantity :: int
  rp_price :: decimal
  rp_amount :: decimal
  rp_target_weight :: decimal
  rp_current_weight :: decimal
  rp_reason :: rebalance_reason

record rebalance_plan =
  pl_sells :: "rebalance_proposal list"
  pl_buys :: "rebalance_proposal list"
  pl_total_sell :: decimal
  pl_total_buy :: decimal
  pl_net_cash_flow :: decimal
  pl_turnover :: decimal

definition all_orders :: "rebalance_plan \<Rightarrow> rebalance_proposal list" where
  "all_orders plan = pl_sells plan @ pl_buys plan"

record rebalance_request =
  rq_targets :: "(symbol, decimal) dict"
  rq_holdings :: "(symbol, int) dict"
  rq_prices :: "(symbol, decimal) dict"
  rq_equity :: decimal
  rq_lot :: int
  rq_min :: decimal
  rq_buffer :: decimal
  rq_names :: "(symbol, string) dict option"

section \<open>One symbol\<close>

definition proposal_name_of :: "(symbol, string) dict option \<Rightarrow> symbol \<Rightarrow> proposal_name" where
  "proposal_name_of names s =
     (let default = (if s \<in> set default_symbols then DefaultName s else GivenName s) in
      case names of None \<Rightarrow> default
      | Some d \<Rightarrow> (case dict_get d s of None \<Rightarrow> default | Some n \<Rightarrow> if n = [] then default else GivenName n))"

definition target_of :: "rebalance_request \<Rightarrow> symbol \<Rightarrow> decimal" where
  "target_of r s = dict_get_default (rq_targets r) s DZERO"

definition holding_of :: "rebalance_request \<Rightarrow> symbol \<Rightarrow> int" where
  "holding_of r s = dict_get_default (rq_holdings r) s 0"

definition effective_equity :: "rebalance_request \<Rightarrow> decimal" where
  "effective_equity r = dmul (rq_equity r) (dsub DONE (rq_buffer r))"

definition desired_shares :: "rebalance_request \<Rightarrow> decimal \<Rightarrow> decimal \<Rightarrow> int res" where
  "desired_shares r weight price =
     bind_res (ddiv (dmul (effective_equity r) weight) price) (\<lambda>x.
     bind_res (dfloordiv x (dec_of_int (rq_lot r))) (\<lambda>n. Inr (dtrunc n * rq_lot r)))"

definition proposal ::
  "rebalance_request \<Rightarrow> symbol \<Rightarrow> order_side \<Rightarrow> int \<Rightarrow> decimal \<Rightarrow> decimal \<Rightarrow> decimal \<Rightarrow> rebalance_reason
    \<Rightarrow> rebalance_proposal" where
  "proposal r s side q price target current reason =
     \<lparr>rp_symbol = s, rp_name = proposal_name_of (rq_names r) s, rp_side = side, rp_quantity = q,
      rp_price = price, rp_amount = dmul (dec_of_int q) price, rp_target_weight = target,
      rp_current_weight = current, rp_reason = reason\<rparr>"

text \<open>The three cases for a symbol with its weight, holding, price, current weight and desired shares.\<close>

definition choose_order ::
  "rebalance_request \<Rightarrow> symbol \<Rightarrow> decimal \<Rightarrow> int \<Rightarrow> decimal \<Rightarrow> decimal \<Rightarrow> int \<Rightarrow> rebalance_proposal option" where
  "choose_order r s weight held price current desired =
     (let diff = desired - held in
      if deq weight DZERO \<and> 0 < held
      then Some (proposal r s SELL held price DZERO current ExitPosition)
      else if diff < 0
      then (let q = \<bar>diff\<bar> in
        if (rq_lot r \<le> q \<or> q = held) \<and> dle (rq_min r) (dmul (dec_of_int q) price)
        then Some (proposal r s SELL q price weight current ReducePosition) else None)
      else if 0 < diff
      then (let q = diff div rq_lot r * rq_lot r in
        if 0 < q \<and> dle (rq_min r) (dmul (dec_of_int q) price)
        then Some (proposal r s BUY q price weight current
          (if 0 < held then IncreasePosition else OpenPosition)) else None)
      else None)"

definition propose :: "rebalance_request \<Rightarrow> symbol \<Rightarrow> rebalance_proposal option res" where
  "propose r s =
     (let weight = target_of r s; held = holding_of r s in
      case dict_get (rq_prices r) s of
        None \<Rightarrow> if 0 < held \<or> dlt DZERO weight
          then Inl (ValueError (''rebalance_price_missing:'' @ s)) else Inr None
      | Some price \<Rightarrow>
          if dle price DZERO then Inl (ValueError (''rebalance_price_invalid:'' @ s))
          else bind_res (ddiv (dmul (dec_of_int held) price) (rq_equity r)) (\<lambda>share.
            bind_res (quantize div_even share (Decimal 1 (- 4))) (\<lambda>current.
            bind_res (desired_shares r weight price) (\<lambda>desired.
              Inr (choose_order r s weight held price current desired)))))"

section \<open>The plan\<close>

definition rebalance_symbols :: "rebalance_request \<Rightarrow> symbol list" where
  "rebalance_symbols r = sort (remdups (dict_keys (rq_targets r) @ dict_keys (rq_holdings r)))"

definition rebalance_step ::
  "rebalance_request \<Rightarrow> symbol \<Rightarrow> rebalance_proposal list \<times> rebalance_proposal list
    \<Rightarrow> (rebalance_proposal list \<times> rebalance_proposal list) res" where
  "rebalance_step r s = (\<lambda>(sells, buys). bind_res (propose r s) (\<lambda>p. Inr (case p of
       None \<Rightarrow> (sells, buys)
     | Some q \<Rightarrow> if rp_side q = SELL then (sells @ [q], buys) else (sells, buys @ [q]))))"

definition generate_rebalance_plan :: "rebalance_request \<Rightarrow> rebalance_plan res" where
  "generate_rebalance_plan r =
     (if dle (rq_equity r) DZERO then Inl (ValueError ''rebalance_total_equity_must_be_positive'')
      else if rq_lot r \<le> 0 then Inl (ValueError ''rebalance_lot_size_invalid'')
      else bind_res (fold_res (rebalance_step r) (rebalance_symbols r) ([], [])) (\<lambda>(sells, buys).
        let total_sell = dsum (map rp_amount sells); total_buy = dsum (map rp_amount buys) in
        bind_res (ddiv (dadd total_sell total_buy) (dmul (Decimal 2 0) (rq_equity r))) (\<lambda>t.
        bind_res (quantize div_even t (Decimal 1 (- 4))) (\<lambda>turnover.
          Inr \<lparr>pl_sells = sells, pl_buys = buys, pl_total_sell = total_sell, pl_total_buy = total_buy,
            pl_net_cash_flow = dsub total_sell total_buy, pl_turnover = turnover\<rparr>))))"

section \<open>Orders of a plan\<close>

definition proposal_of :: "rebalance_request \<Rightarrow> symbol \<Rightarrow> rebalance_proposal option" where
  "proposal_of r s = (case propose r s of Inr p \<Rightarrow> p | Inl _ \<Rightarrow> None)"

definition proposals :: "rebalance_request \<Rightarrow> symbol \<Rightarrow> rebalance_proposal list" where
  "proposals r s = (case proposal_of r s of None \<Rightarrow> [] | Some p \<Rightarrow> [p])"

lemma rebalance_step_Inr:
  assumes "rebalance_step r s (sells, buys) = Inr st"
  shows "(\<exists>p. propose r s = Inr p) \<and>
    st = (sells @ filter (\<lambda>p. rp_side p = SELL) (proposals r s),
          buys @ filter (\<lambda>p. rp_side p \<noteq> SELL) (proposals r s))"
  using assms
  by (auto simp: rebalance_step_def bind_res_eq_Inr proposal_of_def proposals_def split: option.splits)

lemma rebalance_fold:
  "fold_res (rebalance_step r) ss (sells, buys) = Inr (sells', buys') \<Longrightarrow>
    sells' = sells @ filter (\<lambda>p. rp_side p = SELL) (concat (map (proposals r) ss)) \<and>
    buys' = buys @ filter (\<lambda>p. rp_side p \<noteq> SELL) (concat (map (proposals r) ss)) \<and>
    (\<forall>s \<in> set ss. \<exists>p. propose r s = Inr p)"
proof (induction ss arbitrary: sells buys)
  case (Cons s ss)
  obtain st where st: "rebalance_step r s (sells, buys) = Inr st"
    and rest: "fold_res (rebalance_step r) ss st = Inr (sells', buys')"
    using Cons.prems by (auto simp: bind_res_eq_Inr)
  show ?case
    using rebalance_step_Inr [OF st] Cons.IH [of "fst st" "snd st"] rest
    by auto
qed simp

lemma plan_orders:
  assumes "generate_rebalance_plan r = Inr plan"
  shows "pl_sells plan = filter (\<lambda>p. rp_side p = SELL) (concat (map (proposals r) (rebalance_symbols r)))"
    "pl_buys plan = filter (\<lambda>p. rp_side p \<noteq> SELL) (concat (map (proposals r) (rebalance_symbols r)))"
    "\<And>s. s \<in> set (rebalance_symbols r) \<Longrightarrow> \<exists>p. propose r s = Inr p"
    "0 < val (rq_equity r)" "0 < rq_lot r"
  using assms rebalance_fold [of r "rebalance_symbols r" "[]" "[]"]
  by (auto simp: generate_rebalance_plan_def bind_res_eq_Inr Let_def val_simps not_le split: if_splits)

lemma propose_cases:
  assumes "propose r s = Inr p"
  obtains "p = None" "dict_get (rq_prices r) s = None" "holding_of r s \<le> 0" "val (target_of r s) \<le> 0"
  | price current desired where "dict_get (rq_prices r) s = Some price" "0 < val price"
      "desired_shares r (target_of r s) price = Inr desired"
      "p = choose_order r s (target_of r s) (holding_of r s) price current desired"
  using assms
  by (auto simp: propose_def Let_def bind_res_eq_Inr val_simps not_le not_less split: option.splits if_splits)

lemma desired_nonneg:
  assumes "desired_shares r weight price = Inr n" "0 < val price" "0 \<le> val weight" "0 < rq_lot r"
    "0 < val (rq_equity r)" "val (rq_buffer r) \<le> 1"
  shows "0 \<le> n \<and> rq_lot r dvd n"
proof -
  obtain x y where x: "ddiv (dmul (effective_equity r) weight) price = Inr x"
    and y: "dfloordiv x (dec_of_int (rq_lot r)) = Inr y" and n: "n = dtrunc y * rq_lot r"
    using assms(1) by (auto simp: desired_shares_def bind_res_eq_Inr)
  have "0 \<le> val (effective_equity r)"
    using assms(5,6) by (simp add: effective_equity_def val_simps rnd_nonneg)
  then have "0 \<le> val x" using ddiv_Inr [OF x] assms(2,3) by (simp add: val_simps rnd_nonneg)
  then have "0 \<le> val y" using dfloordiv_Inr [OF y] assms(4) by simp
  then show ?thesis using assms(4) by (simp add: n dtrunc_nonneg)
qed

lemma choose_order_symbol: "choose_order r s w h price c d = Some p \<Longrightarrow> rp_symbol p = s"
  by (auto simp: choose_order_def proposal_def Let_def split: if_splits)

lemma proposal_of_symbol: "proposal_of r s = Some p \<Longrightarrow> rp_symbol p = s"
  by (auto simp: proposal_of_def propose_def Let_def bind_res_def choose_order_symbol
      split: sum.splits option.splits if_splits)

text \<open>What a chosen order does to the holding.\<close>

definition order_change :: "rebalance_proposal option \<Rightarrow> int" where
  "order_change p = (case p of None \<Rightarrow> 0
     | Some q \<Rightarrow> if rp_side q = SELL then - rp_quantity q else rp_quantity q)"

definition close_enough :: "rebalance_request \<Rightarrow> decimal \<Rightarrow> int \<Rightarrow> bool" where
  "close_enough r price d =
     (\<bar>d\<bar> < rq_lot r \<or> dlt (dmul (dec_of_int (\<bar>d\<bar> div rq_lot r * rq_lot r)) price) (rq_min r))"

lemma choose_order_change:
  assumes "0 \<le> held" "0 \<le> desired" "0 < rq_lot r" "0 < val price"
    "deq weight DZERO \<Longrightarrow> desired = 0"
  shows "close_enough r price (desired - (held + order_change (choose_order r s weight held price c desired)))"
proof -
  let ?L = "rq_lot r" and ?d = "desired - held"
  have rem: "\<bar>?d - ?d div ?L * ?L\<bar> < ?L"
    using assms(3) by (simp add: minus_div_mult_eq_mod)
  have mono: "val (dmul (dec_of_int (q div ?L * ?L)) price) \<le> val (dmul (dec_of_int q) price)" if "0 \<le> q" for q
  proof -
    have "q div ?L * ?L \<le> q" using that assms(3) by (metis div_mult_mod_eq le_add_same_cancel1 pos_mod_sign)
    then have "(of_int (q div ?L * ?L) :: rat) \<le> of_int q" by (simp only: of_int_le_iff)
    then have "of_int (q div ?L * ?L) * val price \<le> of_int q * val price"
      using assms(4) by (intro mult_right_mono) auto
    then show ?thesis by (simp only: val_simps val_dec_of_int) (rule rnd_mono, simp_all)
  qed
  consider (exit) "deq weight DZERO" "0 < held" | (sell) "\<not> (deq weight DZERO \<and> 0 < held)" "?d < 0"
    | (buy) "\<not> (deq weight DZERO \<and> 0 < held)" "0 < ?d" | (none) "\<not> (deq weight DZERO \<and> 0 < held)" "?d = 0"
    by linarith
  then show ?thesis
  proof cases
    case exit
    then show ?thesis using assms by (simp add: choose_order_def order_change_def proposal_def close_enough_def)
  next
    case sell
    let ?q = "\<bar>?d\<bar>"
    show ?thesis
    proof (cases "(?L \<le> ?q \<or> ?q = held) \<and> dle (rq_min r) (dmul (dec_of_int ?q) price)")
      case True
      have "\<not> deq weight DZERO" using sell assms(2) by linarith
      then show ?thesis using True sell assms(3)
        by (simp add: choose_order_def order_change_def proposal_def close_enough_def Let_def)
    next
      case False
      then show ?thesis using sell mono [of ?q]
        by (auto simp: choose_order_def order_change_def close_enough_def Let_def dle_val dlt_val not_le)
    qed
  next
    case buy
    let ?q = "?d div ?L * ?L"
    show ?thesis
    proof (cases "0 < ?q \<and> dle (rq_min r) (dmul (dec_of_int ?q) price)")
      case True
      have "\<not> deq weight DZERO" using buy assms(1,5) by linarith
      then show ?thesis using True buy rem
        by (simp add: choose_order_def order_change_def proposal_def close_enough_def Let_def algebra_simps)
    next
      case False
      have n: "choose_order r s weight held price c desired = None"
        unfolding choose_order_def Let_def using buy False by (simp only: if_False if_True less_not_sym simp_thms)
      have a: "\<bar>?d\<bar> = ?d" using buy by simp
      have "\<bar>?d\<bar> < ?L \<or> dlt (dmul (dec_of_int ?q) price) (rq_min r)"
        using False rem unfolding a dle_val dlt_val by linarith
      then show ?thesis unfolding n close_enough_def order_change_def using a by simp
    qed
  next
    case none
    have "choose_order r s weight held price c desired = None"
      unfolding choose_order_def Let_def using none by (simp only: if_False less_irrefl)
    then show ?thesis using none assms(3) by (simp add: order_change_def close_enough_def)
  qed
qed

section \<open>The plan as a whole\<close>

definition traded :: "rebalance_plan \<Rightarrow> symbol \<Rightarrow> int" where
  "traded plan s = sum_list (map rp_quantity (filter (\<lambda>p. rp_symbol p = s) (pl_buys plan))) -
     sum_list (map rp_quantity (filter (\<lambda>p. rp_symbol p = s) (pl_sells plan)))"

lemma filter_symbol_proposals:
  assumes "distinct ss"
  shows "filter (\<lambda>p. rp_symbol p = s) (concat (map (proposals r) ss)) =
    (if s \<in> set ss then proposals r s else [])"
  using assms
proof (induction ss)
  case (Cons t ss)
  have t: "filter (\<lambda>p. rp_symbol p = s) (proposals r t) =
      (if t = s then proposals r s else [])"
    by (cases "proposal_of r t"; cases "t = s") (simp_all add: proposals_def proposal_of_symbol)
  show ?case
    using Cons by (auto simp: t)
qed simp

lemma distinct_proposals:
  "distinct ss \<Longrightarrow> distinct (map rp_symbol (concat (map (proposals r) ss))) \<and>
    set (map rp_symbol (concat (map (proposals r) ss))) \<subseteq> set ss"
proof (induction ss)
  case (Cons t ss)
  have "proposals r t = [] \<or> (\<exists>p. proposals r t = [p] \<and> rp_symbol p = t)"
    by (cases "proposal_of r t") (simp_all add: proposals_def proposal_of_symbol)
  with Cons show ?case by (auto, force+)
qed simp

lemma distinct_symbols: "distinct (rebalance_symbols r)"
  by (simp add: rebalance_symbols_def)

lemma filter_swap: "filter P (filter Q xs) = filter Q (filter P xs)"
  by (induction xs) auto

lemma plan_traded:
  assumes "generate_rebalance_plan r = Inr plan" "s \<in> set (rebalance_symbols r)"
  shows "traded plan s = order_change (proposal_of r s)"
proof -
  have "filter (\<lambda>p. rp_symbol p = s) (filter Q (concat (map (proposals r) (rebalance_symbols r)))) =
      filter Q (proposals r s)" for Q
    unfolding filter_swap [of _ Q] filter_symbol_proposals [OF distinct_symbols] using assms(2) by simp
  then show ?thesis
    unfolding traded_def plan_orders(1,2) [OF assms(1)]
    by (auto simp: proposals_def order_change_def split: option.splits)
qed

lemma plan_order_chosen:
  assumes "generate_rebalance_plan r = Inr plan" "q \<in> set (pl_sells plan) \<union> set (pl_buys plan)"
  obtains s price c d where "s \<in> set (rebalance_symbols r)" "0 < val price"
    "desired_shares r (target_of r s) price = Inr d" "dict_get (rq_prices r) s = Some price"
    "choose_order r s (target_of r s) (holding_of r s) price c d = Some q"
proof -
  obtain s where s: "s \<in> set (rebalance_symbols r)" "proposal_of r s = Some q"
    using assms(2) unfolding plan_orders(1,2) [OF assms(1)] by (auto simp: proposals_def split: option.splits)
  obtain p where p: "propose r s = Inr p" using plan_orders(3) [OF assms(1) s(1)] by blast
  then have q: "p = Some q" using s(2) by (simp add: proposal_of_def)
  show thesis
  proof (rule propose_cases [OF p])
    fix price current desired
    assume a: "dict_get (rq_prices r) s = Some price" "0 < val price"
      "desired_shares r (target_of r s) price = Inr desired"
      "p = choose_order r s (target_of r s) (holding_of r s) price current desired"
    show thesis by (rule that [OF s(1) a(2,3,1) a(4) [unfolded q, symmetric]])
  qed (simp add: q)
qed

text \<open>The weights, holdings and cash buffer a plan is meant for.\<close>

definition sensible_request :: "rebalance_request \<Rightarrow> bool" where
  "sensible_request r = ((\<forall>(s, w) \<in> set (rq_targets r). 0 \<le> val w) \<and>
     (\<forall>(s, h) \<in> set (rq_holdings r). 0 \<le> h) \<and> val (rq_buffer r) \<le> 1)"

lemma sensible_requestD:
  assumes "sensible_request r"
  shows "0 \<le> val (target_of r s)" "0 \<le> holding_of r s" "val (rq_buffer r) \<le> 1"
  using assms
  by (auto simp: sensible_request_def target_of_def holding_of_def dict_get_default_def
      dest!: dict_get_SomeD split: option.splits)

lemma choose_order_sides:
  assumes "choose_order r s w held price c d = Some q" "0 \<le> held" "0 \<le> d" "0 < rq_lot r"
  shows "0 < rp_quantity q \<and> (rp_side q = SELL \<longrightarrow> rp_quantity q \<le> held) \<and>
    (rp_side q \<noteq> SELL \<longrightarrow> rp_side q = BUY \<and> rq_lot r dvd rp_quantity q) \<and>
    rp_amount q = dmul (dec_of_int (rp_quantity q)) price"
  using assms by (auto simp: choose_order_def proposal_def Let_def split: if_splits)

lemma zero_weight_desired:
  assumes "desired_shares r w price = Inr d" "deq w DZERO" "0 < val price" "0 < rq_lot r"
  shows "d = 0"
proof -
  obtain x y where x: "ddiv (dmul (effective_equity r) w) price = Inr x"
    and y: "dfloordiv x (dec_of_int (rq_lot r)) = Inr y" and n: "d = dtrunc y * rq_lot r"
    using assms(1) by (auto simp: desired_shares_def bind_res_eq_Inr)
  have "val x = 0" using ddiv_Inr [OF x] assms(2) by (simp add: val_simps)
  then have "val y = 0" using dfloordiv_Inr [OF y] assms(4) by simp
  then show ?thesis using dtrunc_floor [of y] by (simp add: n)
qed

text \<open>C29: a rebalance plan can be executed and reaches its targets. When weights and holdings are not
  negative, a generated plan has at most one order per symbol; every sale is positive and covered by the
  holding; every purchase is a positive number of whole lots. Afterwards each priced symbol is within less
  than a lot of its desired shares, or the whole lots that are missing are worth less than the minimum
  trade; a symbol whose target is zero is sold out.\<close>

theorem rebalance_plan_reaches_targets:
  assumes "generate_rebalance_plan r = Inr plan" "sensible_request r"
  shows "distinct (map rp_symbol (all_orders plan)) \<and>
    (\<forall>q \<in> set (pl_sells plan). rp_side q = SELL \<and> 0 < rp_quantity q \<and> rp_quantity q \<le> holding_of r (rp_symbol q)) \<and>
    (\<forall>q \<in> set (pl_buys plan). rp_side q = BUY \<and> 0 < rp_quantity q \<and> rq_lot r dvd rp_quantity q) \<and>
    (\<forall>s \<in> set (rebalance_symbols r). \<forall>price d. dict_get (rq_prices r) s = Some price \<longrightarrow>
       desired_shares r (target_of r s) price = Inr d \<longrightarrow>
       close_enough r price (d - (holding_of r s + traded plan s)) \<and>
       (deq (target_of r s) DZERO \<longrightarrow> holding_of r s + traded plan s = 0))"
proof (intro conjI ballI allI impI)
  note o = plan_orders [OF assms(1)] and sane = sensible_requestD [OF assms(2)]
  let ?ps = "concat (map (proposals r) (rebalance_symbols r))"
  have d: "distinct (map rp_symbol ?ps)" using distinct_proposals [OF distinct_symbols] by blast
  then show "distinct (map rp_symbol (all_orders plan))"
    unfolding all_orders_def o(1,2) by (auto simp: distinct_map inj_on_def)
  fix q
  {
    assume q: "q \<in> set (pl_sells plan)"
    obtain s price c n where c: "0 < val price" "desired_shares r (target_of r s) price = Inr n"
      "choose_order r s (target_of r s) (holding_of r s) price c n = Some q"
      by (rule plan_order_chosen [OF assms(1) UnI1 [OF q]])
    have "0 \<le> n" using desired_nonneg [OF c(2,1) sane(1) o(5,4) sane(3)] by blast
    from choose_order_sides [OF c(3) sane(2) this o(5)] choose_order_symbol [OF c(3)] q
    show "rp_side q = SELL" "0 < rp_quantity q" "rp_quantity q \<le> holding_of r (rp_symbol q)"
      unfolding o(1) by auto
  }
  {
    assume q: "q \<in> set (pl_buys plan)"
    obtain s price c n where c: "0 < val price" "desired_shares r (target_of r s) price = Inr n"
      "choose_order r s (target_of r s) (holding_of r s) price c n = Some q"
      by (rule plan_order_chosen [OF assms(1) UnI2 [OF q]])
    have "0 \<le> n" using desired_nonneg [OF c(2,1) sane(1) o(5,4) sane(3)] by blast
    from choose_order_sides [OF c(3) sane(2) this o(5)] q
    show "rp_side q = BUY" "0 < rp_quantity q" "rq_lot r dvd rp_quantity q"
      unfolding o(2) by auto
  }
  fix s price n
  assume s: "s \<in> set (rebalance_symbols r)" and pr: "dict_get (rq_prices r) s = Some price"
    and n: "desired_shares r (target_of r s) price = Inr n"
  obtain p where p: "propose r s = Inr p" using o(3) [OF s] by blast
  obtain c where pos: "0 < val price"
    and ch: "p = choose_order r s (target_of r s) (holding_of r s) price c n"
    using p by (rule propose_cases) (use pr n in auto)
  have t: "traded plan s = order_change p"
    unfolding plan_traded [OF assms(1) s] by (simp add: proposal_of_def p)
  have nn: "0 \<le> n" using desired_nonneg [OF n pos sane(1) o(5,4) sane(3)] by blast
  have z: "deq (target_of r s) DZERO \<Longrightarrow> n = 0" by (rule zero_weight_desired [OF n _ pos o(5)])
  show "close_enough r price (n - (holding_of r s + traded plan s))"
    unfolding t ch by (rule choose_order_change [OF sane(2) nn o(5) pos z])
  assume "deq (target_of r s) DZERO"
  then show "holding_of r s + traded plan s = 0"
    unfolding t ch using sane(2) [of s] z by (auto simp: choose_order_def order_change_def proposal_def)
qed

definition sample_request :: rebalance_request where
  "sample_request = \<lparr>rq_targets = [(''B'', Decimal 5 (- 1)), (''C'', Decimal 1 (- 1)), (''D'', Decimal 2 (- 2))],
     rq_holdings = [(''A'', 30), (''C'', 25), (''D'', 13)],
     rq_prices = [(''A'', Decimal 10 0), (''B'', Decimal 10 0), (''C'', Decimal 10 0), (''D'', Decimal 1 0)],
     rq_equity = Decimal 1000 0, rq_lot = 10, rq_min = Decimal 10 0, rq_buffer = Decimal 5 (- 3), rq_names = None\<rparr>"

definition plan_summary :: "rebalance_plan res \<Rightarrow> (symbol \<times> order_side \<times> int) list res" where
  "plan_summary p = bind_res p (\<lambda>plan. Inr (map (\<lambda>q. (rp_symbol q, rp_side q, rp_quantity q)) (all_orders plan)))"

lemma sample_plan:
  "plan_summary (generate_rebalance_plan sample_request) =
    Inr [(''A'', SELL, 30), (''C'', SELL, 25), (''B'', BUY, 40)]"
  by code_simp

lemma rebalance_plan_reaches_targets_witness:
  "\<exists>plan. generate_rebalance_plan sample_request = Inr plan \<and>
    plan_summary (Inr plan) = Inr [(''A'', SELL, 30), (''C'', SELL, 25), (''B'', BUY, 40)] \<and>
    distinct (map rp_symbol (all_orders plan))"
proof -
  obtain plan where p: "generate_rebalance_plan sample_request = Inr plan"
    using sample_plan by (auto simp: plan_summary_def bind_res_eq_Inr)
  have "sensible_request sample_request"
    by (simp add: sensible_request_def sample_request_def val_def)
  then show ?thesis
    using rebalance_plan_reaches_targets [OF p] sample_plan p by (intro exI [of _ plan]) simp
qed

end
