(* ===== verification/Canonical_Json.thy ===== *)
theory Canonical_Json
  imports Core_Types "HOL-Library.Multiset"
begin

text \<open>
  Canonical JSON and content fingerprints (\<open>server/contracts/content_identity.py\<close>), and the decimal
  texts that enter them. A document has no binary floating point numbers; its texts are rendered as
  \<open>json.dumps\<close> does with \<open>ensure_ascii=False\<close>, sorted keys and the separators \<open>,\<close> and \<open>:\<close>.
  The hash function is a parameter: nothing rests on which one it is. The lemmas show that the text
  determines the document up to the order of the members of its objects.
\<close>

section \<open>Documents and numbers as texts\<close>

datatype jdoc =
    JNil
  | JTruth bool
  | JNum int
  | JStr string
  | JArr "jdoc list"
  | JMap "(string \<times> jdoc) list"

type_synonym jobject = "(string, jdoc) dict"

fun digit_char :: "nat \<Rightarrow> char" where
  "digit_char n = char_of (48 + n)"

fun nat_text :: "nat \<Rightarrow> string" where
  "nat_text n = (if n < 10 then [digit_char n] else nat_text (n div 10) @ [digit_char (n mod 10)])"

declare nat_text.simps [simp del]

definition int_text :: "int \<Rightarrow> string" where
  "int_text i = (if i < 0 then ''-'' else []) @ nat_text (nat \<bar>i\<bar>)"

section \<open>Rendering\<close>

definition hex_char :: "nat \<Rightarrow> char" where
  "hex_char n = (if n < 10 then char_of (48 + n) else char_of (87 + n))"

definition short_escapes :: "(char, char) dict" where
  "short_escapes = [(CHR 0x22, CHR 0x22), (CHR 0x5C, CHR 0x5C), (CHR 0x0A, CHR ''n''), (CHR 0x0D, CHR ''r''),
     (CHR 0x09, CHR ''t''), (CHR 0x0C, CHR ''f''), (CHR 0x08, CHR ''b'')]"

definition escape_char :: "char \<Rightarrow> string" where
  "escape_char c = (case dict_get short_escapes c of
       Some e \<Rightarrow> [CHR 0x5C, e]
     | None \<Rightarrow> (let n = of_char c :: nat in
         if n < 32 then [CHR 0x5C, CHR ''u'', CHR ''0'', CHR ''0'', hex_char (n div 16), hex_char (n mod 16)]
         else [c]))"

definition str_text :: "string \<Rightarrow> string" where
  "str_text s = CHR 0x22 # concat (map escape_char s) @ [CHR 0x22]"

fun jtext :: "jdoc \<Rightarrow> string" and jrest :: "jdoc list \<Rightarrow> string" and jmembers :: "(string \<times> jdoc) list \<Rightarrow> string" where
  "jtext JNil = ''null''"
| "jtext (JTruth b) = (if b then ''true'' else ''false'')"
| "jtext (JNum i) = int_text i"
| "jtext (JStr s) = str_text s"
| "jtext (JArr []) = ''[]''"
| "jtext (JArr (d # ds)) = ''['' @ jtext d @ jrest ds @ '']''"
| "jtext (JMap []) = ''{}''"
| "jtext (JMap ((k, d) # ms)) = ''{'' @ str_text k @ '':'' @ jtext d @ jmembers ms @ ''}''"
| "jrest [] = []"
| "jrest (d # ds) = '','' @ jtext d @ jrest ds"
| "jmembers [] = []"
| "jmembers ((k, d) # ms) = '','' @ str_text k @ '':'' @ jtext d @ jmembers ms"

primrec canon :: "jdoc \<Rightarrow> jdoc" where
  "canon JNil = JNil"
| "canon (JTruth b) = JTruth b"
| "canon (JNum i) = JNum i"
| "canon (JStr s) = JStr s"
| "canon (JArr ds) = JArr (map canon ds)"
| "canon (JMap ms) = JMap (sort_key fst (map (map_prod id canon) ms))"

definition canonical_json :: "jdoc \<Rightarrow> string" where
  "canonical_json d = jtext (canon d)"

definition content_fingerprint :: "(string \<Rightarrow> string) \<Rightarrow> jdoc \<Rightarrow> string" where
  "content_fingerprint digest d = digest (canonical_json d)"

section \<open>Numbers are read back from their text\<close>

definition decimal_digit :: "char \<Rightarrow> bool" where
  "decimal_digit c = (48 \<le> (of_char c :: nat) \<and> (of_char c :: nat) \<le> 57)"

definition text_nat :: "string \<Rightarrow> nat" where
  "text_nat s = foldl (\<lambda>a c. a * 10 + (of_char c - 48)) 0 s"

lemma digit_char [simp]: "n < 10 \<Longrightarrow> of_char (digit_char n) = (48 + n :: nat)"
  by simp

declare digit_char.simps [simp del]

lemma nat_text_read:
  "text_nat (nat_text n) = n \<and> list_all decimal_digit (nat_text n) \<and> nat_text n \<noteq> []"
proof (induction n rule: nat_text.induct)
  case (1 n)
  show ?case
  proof (cases "n < 10")
    case True
    then show ?thesis by (simp add: nat_text.simps[of n] text_nat_def decimal_digit_def)
  next
    case False
    have m: "n mod 10 < 10" by simp
    from 1[OF False] False m show ?thesis
      by (simp add: nat_text.simps[of n] text_nat_def decimal_digit_def)
  qed
qed

lemma takeWhile_digits:
  "list_all decimal_digit ds \<Longrightarrow> r = [] \<or> \<not> decimal_digit (hd r) \<Longrightarrow> takeWhile decimal_digit (ds @ r) = ds"
  by (induction ds) (cases r, auto)

definition number_end :: "string \<Rightarrow> bool" where
  "number_end r = (r = [] \<or> \<not> decimal_digit (hd r))"

lemma nat_text_prefix:
  assumes "nat_text m @ r = nat_text n @ r'" "number_end r" "number_end r'"
  shows "m = n \<and> r = r'"
proof -
  have "takeWhile decimal_digit (nat_text m @ r) = nat_text m" "takeWhile decimal_digit (nat_text n @ r') = nat_text n"
    using nat_text_read assms(2,3) by (auto intro!: takeWhile_digits simp: number_end_def)
  with assms(1) have "nat_text m = nat_text n" by metis
  then show ?thesis using assms(1) nat_text_read[of m] nat_text_read[of n] by (metis same_append_eq)
qed

lemma nat_text_hd: "decimal_digit (hd (nat_text n))"
  using nat_text_read[of n] by (cases "nat_text n") auto

lemma int_text_hd: "\<exists>c s. int_text i = c # s \<and> (c = CHR ''-'' \<or> decimal_digit c)"
  using nat_text_hd[of "nat \<bar>i\<bar>"] nat_text_read[of "nat \<bar>i\<bar>"]
  by (cases "nat_text (nat \<bar>i\<bar>)") (auto simp: int_text_def)

lemma int_text_prefix:
  assumes "int_text i @ r = int_text j @ r'" "number_end r" "number_end r'"
  shows "i = j \<and> r = r'"
proof -
  have minus: "nat_text n \<noteq> CHR ''-'' # s" for n s
    using nat_text_hd[of n] by (auto simp: decimal_digit_def)
  have sign: "(i < 0) = (j < 0)"
  proof -
    have "hd (nat_text n @ s) \<noteq> CHR ''-''" for n s
      using nat_text_hd[of n] nat_text_read[of n] by (cases "nat_text n") (auto simp: decimal_digit_def)
    then have "CHR ''-'' # s \<noteq> nat_text n @ t" for s t n by (metis list.sel(1))
    then show ?thesis using assms(1) unfolding int_text_def by (cases "i < 0"; cases "j < 0") (simp_all, metis+)
  qed
  then have "nat_text (nat \<bar>i\<bar>) @ r = nat_text (nat \<bar>j\<bar>) @ r'" using assms(1) unfolding int_text_def by auto
  from nat_text_prefix[OF this assms(2,3)] sign show ?thesis by auto
qed

section \<open>Strings are read back from their text\<close>

lemma escape_char_cases:
  obtains "escape_char c = [c]" "c \<noteq> CHR 0x22" "c \<noteq> CHR 0x5C"
  | e where "escape_char c = [CHR 0x5C, e]" "dict_get short_escapes c = Some e"
  | "escape_char c = [CHR 0x5C, CHR ''u'', CHR ''0'', CHR ''0'', hex_char (of_char c div 16), hex_char (of_char c mod 16)]"
      "of_char c < (32 :: nat)"
proof (cases "dict_get short_escapes c")
  case None
  then have "c \<noteq> CHR 0x22" "c \<noteq> CHR 0x5C" by (auto simp: short_escapes_def split: if_splits)
  then show ?thesis using that None by (cases "of_char c < (32 :: nat)") (auto simp: escape_char_def Let_def)
next
  case (Some e)
  then show ?thesis using that by (simp add: escape_char_def)
qed

lemma short_escape_code: "dict_get short_escapes c = Some e \<Longrightarrow> dict_get short_escapes c' = Some e \<Longrightarrow> c = c'"
  by (auto simp: short_escapes_def split: if_splits)

lemma short_escape_not_u: "dict_get short_escapes c \<noteq> Some (CHR ''u'')"
  by (auto simp: short_escapes_def)

lemma hex_char_inj: "m < 16 \<Longrightarrow> n < 16 \<Longrightarrow> hex_char m = hex_char n \<Longrightarrow> m = n"
proof -
  assume "m < 16" "n < 16" "hex_char m = hex_char n"
  then have "of_char (hex_char m) = (of_char (hex_char n) :: nat)" by simp
  with \<open>m < 16\<close> \<open>n < 16\<close> show "m = n" by (auto simp: hex_char_def split: if_splits)
qed

lemma escape_char_prefix:
  assumes "escape_char c @ x = escape_char c' @ y"
  shows "c = c' \<and> x = y"
proof (cases c rule: escape_char_cases; cases c' rule: escape_char_cases)
  assume "of_char c < (32 :: nat)" "of_char c' < (32 :: nat)"
    and e: "escape_char c = [CHR 0x5C, CHR ''u'', CHR ''0'', CHR ''0'', hex_char (of_char c div 16), hex_char (of_char c mod 16)]"
      "escape_char c' = [CHR 0x5C, CHR ''u'', CHR ''0'', CHR ''0'', hex_char (of_char c' div 16), hex_char (of_char c' mod 16)]"
  then have "of_char c div 16 = (of_char c' div 16 :: nat)" "of_char c mod 16 = (of_char c' mod 16 :: nat)"
    using assms by (auto intro!: hex_char_inj)
  then have "of_char c = (of_char c' :: nat)" by (metis div_mult_mod_eq)
  then show ?thesis using assms e by simp
qed (use assms short_escape_code short_escape_not_u in \<open>fastforce+\<close>)

lemma escape_char_quote: "escape_char c @ x \<noteq> CHR 0x22 # y"
  by (cases c rule: escape_char_cases) auto

lemma escaped_prefix:
  "concat (map escape_char s) @ CHR 0x22 # r = concat (map escape_char t) @ CHR 0x22 # r' \<Longrightarrow> s = t \<and> r = r'"
proof (induction s arbitrary: t)
  case Nil
  show ?case
  proof (cases t)
    case (Cons c t')
    then show ?thesis using Nil escape_char_quote[of c "concat (map escape_char t') @ CHR 0x22 # r'" r, THEN not_sym]
      by simp
  qed (use Nil in simp)
next
  case (Cons c s)
  obtain c' t' where t: "t = c' # t'"
    using Cons.prems escape_char_quote[of c "concat (map escape_char s) @ CHR 0x22 # r" r'] by (cases t) auto
  with Cons.prems have "escape_char c @ concat (map escape_char s) @ CHR 0x22 # r =
      escape_char c' @ concat (map escape_char t') @ CHR 0x22 # r'" by simp
  from escape_char_prefix[OF this] Cons.IH t show ?case by blast
qed

lemma str_text_prefix: "str_text s @ r = str_text t @ r' \<Longrightarrow> s = t \<and> r = r'"
  using escaped_prefix[of s r t r'] by (simp add: str_text_def)

section \<open>Documents are read back from their text\<close>

definition jend :: "string \<Rightarrow> bool" where
  "jend r = (r = [] \<or> hd r \<in> {CHR '','', CHR '']'', CHR 0x7D})"

lemma jend_simps [simp]:
  "jend []" "jend (CHR '','' # r)" "jend (CHR '']'' # r)" "jend (CHR 0x7D # r)"
  by (simp_all add: jend_def)

lemma jend_number_end: "jend r \<Longrightarrow> number_end r"
  by (auto simp: jend_def number_end_def decimal_digit_def)

lemma jend_rest [simp]: "jend (jrest ds @ CHR '']'' # r)" "jend (jmembers ms @ CHR 0x7D # r)"
  by (cases ds; simp) (cases ms; auto)

datatype jkind = KNil | KTruth | KNum | KStr | KArr | KMap

text \<open>The first character of a text tells the kind of the document.\<close>

definition kind_of_char :: "char \<Rightarrow> jkind" where
  "kind_of_char c = (if c = CHR ''n'' then KNil else if c = CHR ''t'' \<or> c = CHR ''f'' then KTruth
     else if c = CHR 0x22 then KStr else if c = CHR ''['' then KArr else if c = CHR 0x7B then KMap else KNum)"

lemma kind_of_char_simps [simp]:
  "kind_of_char CHR ''n'' = KNil" "kind_of_char CHR ''t'' = KTruth" "kind_of_char CHR ''f'' = KTruth"
  "kind_of_char CHR 0x22 = KStr" "kind_of_char CHR ''['' = KArr" "kind_of_char CHR 0x7B = KMap"
  by (simp_all add: kind_of_char_def)

fun kind_of :: "jdoc \<Rightarrow> jkind" where
  "kind_of JNil = KNil"
| "kind_of (JTruth b) = KTruth"
| "kind_of (JNum i) = KNum"
| "kind_of (JStr s) = KStr"
| "kind_of (JArr ds) = KArr"
| "kind_of (JMap ms) = KMap"

lemma jtext_hd: "\<exists>c s. jtext d = c # s \<and> kind_of_char c = kind_of d \<and> c \<noteq> CHR '']''"
proof (cases d)
  case (JNum i)
  obtain c s where t: "int_text i = c # s" "c = CHR ''-'' \<or> decimal_digit c" using int_text_hd[of i] by blast
  have "kind_of_char c = KNum \<and> c \<noteq> CHR '']''"
  proof -
    have "c \<notin> {CHR ''n'', CHR ''t'', CHR ''f'', CHR 0x22, CHR ''['', CHR 0x7B, CHR '']''}"
    proof
      assume "c \<in> {CHR ''n'', CHR ''t'', CHR ''f'', CHR 0x22, CHR ''['', CHR 0x7B, CHR '']''}"
      then have "\<not> decimal_digit c \<and> c \<noteq> CHR ''-''"
        by (elim insertE emptyE) (simp_all add: decimal_digit_def)
      with t(2) show False by blast
    qed
    then show ?thesis by (simp add: kind_of_char_def)
  qed
  then show ?thesis using JNum t(1) by simp
next
  case (JArr ds)
  then show ?thesis by (cases ds) simp_all
next
  case (JMap ms)
  show ?thesis
  proof (cases ms)
    case (Cons m ms')
    then show ?thesis using JMap by (cases m) simp
  qed (use JMap in simp)
qed (simp_all add: str_text_def)

lemma jtext_same_kind: "jtext a @ r = jtext b @ r' \<Longrightarrow> kind_of a = kind_of b"
  using jtext_hd[of a] jtext_hd[of b] by auto

lemma jtext_not_close: "jtext d @ r \<noteq> CHR '']'' # r'"
  using jtext_hd[of d] by auto

lemma jtext_prefix:
  "jtext a @ r = jtext b @ r' \<Longrightarrow> jend r \<Longrightarrow> jend r' \<Longrightarrow> a = b \<and> r = r'"
  "jrest ds @ CHR '']'' # r = jrest es @ CHR '']'' # r' \<Longrightarrow> ds = es \<and> r = r'"
  "jmembers ms @ CHR 0x7D # r = jmembers ns @ CHR 0x7D # r' \<Longrightarrow> ms = ns \<and> r = r'"
proof (induction a and ds and ms arbitrary: b r r' and es r r' and ns r r' rule: jtext_jrest_jmembers.induct)
  case 1
  then show ?case using jtext_same_kind[OF 1(1)] by (cases b) auto
next
  case (2 t)
  then show ?case using jtext_same_kind[OF 2(1)] by (cases b) (auto split: if_splits)
next
  case (3 i)
  from jtext_same_kind[OF 3(1)] obtain j where "b = JNum j" by (cases b) auto
  with 3 int_text_prefix[of i r j r'] show ?case by (simp add: jend_number_end)
next
  case (4 s)
  from jtext_same_kind[OF 4(1)] obtain t where "b = JStr t" by (cases b) auto
  with 4 str_text_prefix[of s r t r'] show ?case by simp
next
  case 5
  from jtext_same_kind[OF 5(1)] obtain es where b: "b = JArr es" by (cases b) auto
  show ?case
  proof (cases es)
    case (Cons e es')
    then show ?thesis using 5(1) b jtext_not_close[of e "jrest es' @ CHR '']'' # r'" r, THEN not_sym] by simp
  qed (use 5 b in simp)
next
  case (6 d ds)
  from jtext_same_kind[OF 6(3)] obtain es where b: "b = JArr es" by (cases b) auto
  obtain e es' where es: "es = e # es'" using 6(3) jtext_not_close b by (cases es) auto
  have "jtext d @ jrest ds @ CHR '']'' # r = jtext e @ jrest es' @ CHR '']'' # r'" using 6(3) b es by simp
  from 6(1)[OF this] have "d = e" "jrest ds @ CHR '']'' # r = jrest es' @ CHR '']'' # r'" by simp_all
  with 6(2) b es show ?case by blast
next
  case 7
  from jtext_same_kind[OF 7(1)] obtain ns where "b = JMap ns" by (cases b) auto
  with 7 show ?case by (cases ns) (auto simp: str_text_def)
next
  case (8 k d ms)
  from jtext_same_kind[OF 8(3)] obtain ns where b: "b = JMap ns" by (cases b) auto
  obtain l e ns' where ns: "ns = (l, e) # ns'" using 8(3) b by (cases ns) (auto simp: str_text_def)
  have "str_text k @ '':'' @ jtext d @ jmembers ms @ CHR 0x7D # r =
      str_text l @ '':'' @ jtext e @ jmembers ns' @ CHR 0x7D # r'" using 8(3) b ns by simp
  from str_text_prefix[OF this] have kl: "k = l"
    and rest: "jtext d @ jmembers ms @ CHR 0x7D # r = jtext e @ jmembers ns' @ CHR 0x7D # r'" by simp_all
  from 8(1)[OF rest] have "d = e" "jmembers ms @ CHR 0x7D # r = jmembers ns' @ CHR 0x7D # r'" by simp_all
  with 8(2) b ns kl show ?case by blast
next
  case 9
  then show ?case by (cases es) auto
next
  case (10 d ds)
  obtain e es' where es: "es = e # es'" using 10(3) by (cases es) auto
  have "jtext d @ jrest ds @ CHR '']'' # r = jtext e @ jrest es' @ CHR '']'' # r'" using 10(3) es by simp
  from 10(1)[OF this] have "d = e" "jrest ds @ CHR '']'' # r = jrest es' @ CHR '']'' # r'" by simp_all
  with 10(2) es show ?case by blast
next
  case 11
  then show ?case by (cases ns) auto
next
  case (12 k d ms)
  obtain l e ns' where ns: "ns = (l, e) # ns'" using 12(3) by (cases ns) auto
  have "str_text k @ '':'' @ jtext d @ jmembers ms @ CHR 0x7D # r =
      str_text l @ '':'' @ jtext e @ jmembers ns' @ CHR 0x7D # r'" using 12(3) ns by simp
  from str_text_prefix[OF this] have kl: "k = l"
    and rest: "jtext d @ jmembers ms @ CHR 0x7D # r = jtext e @ jmembers ns' @ CHR 0x7D # r'" by simp_all
  from 12(1)[OF rest] have "d = e" "jmembers ms @ CHR 0x7D # r = jmembers ns' @ CHR 0x7D # r'" by simp_all
  with 12(2) ns kl show ?case by blast
qed

lemma canonical_json_inj: "canonical_json a = canonical_json b \<longleftrightarrow> canon a = canon b"
  using jtext_prefix(1)[of "canon a" "[]" "canon b" "[]"] by (auto simp: canonical_json_def)

section \<open>The text identifies the document\<close>

text \<open>A document of Python objects: the keys of a dictionary are distinct.\<close>

primrec wf_doc :: "jdoc \<Rightarrow> bool" where
  "wf_doc JNil = True"
| "wf_doc (JTruth b) = True"
| "wf_doc (JNum i) = True"
| "wf_doc (JStr s) = True"
| "wf_doc (JArr ds) = list_all id (map wf_doc ds)"
| "wf_doc (JMap ms) = (distinct (dict_keys ms) \<and> list_all snd (map (map_prod id wf_doc) ms))"

text \<open>Equality of documents where the order of an object's members does not matter.\<close>

fun same_doc :: "jdoc \<Rightarrow> jdoc \<Rightarrow> bool" where
  "same_doc JNil e = (e = JNil)"
| "same_doc (JTruth b) e = (e = JTruth b)"
| "same_doc (JNum i) e = (e = JNum i)"
| "same_doc (JStr s) e = (e = JStr s)"
| "same_doc (JArr ds) (JArr es) = list_all2 same_doc ds es"
| "same_doc (JArr ds) e = False"
| "same_doc (JMap ms) (JMap ns) = (length ms = length ns \<and>
     list_all (\<lambda>(k, d). case dict_get ns k of None \<Rightarrow> False | Some e \<Rightarrow> same_doc d e) ms)"
| "same_doc (JMap ms) e = False"

lemma wf_doc_simps [simp]:
  "wf_doc (JArr ds) = list_all wf_doc ds"
  "wf_doc (JMap ms) = (distinct (dict_keys ms) \<and> (\<forall>(k, d) \<in> set ms. wf_doc d))"
  by (auto simp: list_all_iff)

lemmas [simp del] = wf_doc.simps(5,6)

lemma dict_keys_map_prod [simp]: "dict_keys (map (map_prod id f) ms) = dict_keys ms"
  by (induction ms) auto

lemma distinct_sort_key: "distinct (dict_keys (sort_key fst ms)) = distinct (dict_keys ms)"
  by (metis mset_eq_imp_distinct_iff mset_map mset_sort)

lemma sort_key_eq_iff:
  assumes "distinct (dict_keys ms)" "distinct (dict_keys ns)"
  shows "sort_key fst ms = sort_key fst ns \<longleftrightarrow> set ms = set ns"
proof
  assume "set ms = set ns"
  then show "sort_key fst ms = sort_key fst ns" using assms
    by (intro map_sorted_distinct_set_unique[of fst]) (auto simp: distinct_map)
qed (metis set_sort)

lemma image_members_eq:
  assumes "distinct (dict_keys ms)" "distinct (dict_keys ns)"
  shows "map_prod id f ` set ms = map_prod id f ` set ns \<longleftrightarrow>
    length ms = length ns \<and> (\<forall>(k, d) \<in> set ms. \<exists>e. (k, e) \<in> set ns \<and> f d = f e)"
proof
  assume eq: "map_prod id f ` set ms = map_prod id f ` set ns"
  have "card (map_prod id f ` set xs) = length xs" if "distinct (dict_keys xs)" for xs :: "('a \<times> 'b) list"
  proof -
    have "distinct (map (map_prod id f) xs)"
      using that distinct_map[of fst "map (map_prod id f) xs"] by simp
    from distinct_card[OF this] show ?thesis by simp
  qed
  with assms eq have "length ms = length ns" by metis
  moreover have "\<exists>e. (k, e) \<in> set ns \<and> f d = f e" if "(k, d) \<in> set ms" for k d
  proof -
    have "(k, f d) \<in> map_prod id f ` set ns" using that eq by force
    then show ?thesis by auto
  qed
  ultimately show "length ms = length ns \<and> (\<forall>(k, d) \<in> set ms. \<exists>e. (k, e) \<in> set ns \<and> f d = f e)" by blast
next
  assume r: "length ms = length ns \<and> (\<forall>(k, d) \<in> set ms. \<exists>e. (k, e) \<in> set ns \<and> f d = f e)"
  then have sub: "map_prod id f ` set ms \<subseteq> map_prod id f ` set ns" by force
  have "fst ` set ms \<subseteq> fst ` set ns" using r by force
  moreover have "card (fst ` set ms) = card (fst ` set ns)"
    using assms r distinct_card by (metis length_map set_map)
  ultimately have keys: "fst ` set ms = fst ` set ns" by (intro card_subset_eq) auto
  have "(k, f e) \<in> map_prod id f ` set ms" if "(k, e) \<in> set ns" for k e
  proof -
    have "k \<in> fst ` set ns" using that by force
    then obtain d where d: "(k, d) \<in> set ms" unfolding keys[symmetric] by auto
    with r obtain e' where "(k, e') \<in> set ns" "f d = f e'" by auto
    then have "f d = f e" using that assms(2) eq_key_imp_eq_value by metis
    then show ?thesis using d by force
  qed
  with sub show "map_prod id f ` set ms = map_prod id f ` set ns" by auto
qed

lemma canon_eq_iff: "wf_doc a \<Longrightarrow> wf_doc b \<Longrightarrow> canon a = canon b \<longleftrightarrow> same_doc a b"
proof (induction a arbitrary: b)
  case (JArr ds)
  show ?case
  proof (cases b)
    case b: (JArr es)
    have members: "(canon d = canon e) = same_doc d e" if "d \<in> set ds" "e \<in> set es" for d e
      by (rule JArr.IH[OF that(1)]) (use JArr.prems b that in \<open>simp_all add: list_all_iff\<close>)
    have "map canon ds = map canon es \<longleftrightarrow> list_all2 (\<lambda>d e. canon d = canon e) ds es"
      by (simp only: list.rel_eq[symmetric] list.rel_map)
    also have "\<dots> \<longleftrightarrow> list_all2 same_doc ds es"
      by (intro list.rel_cong refl members)
    finally show ?thesis unfolding b canon.simps same_doc.simps jdoc.inject .
  qed simp_all
next
  case (JMap ms)
  show ?case
  proof (cases b)
    case b: (JMap ns)
    have keys: "distinct (dict_keys ms)" "distinct (dict_keys ns)" using JMap.prems b by simp_all
    have "canon (JMap ms) = canon b \<longleftrightarrow> map_prod id canon ` set ms = map_prod id canon ` set ns"
      using sort_key_eq_iff[of "map (map_prod id canon) ms" "map (map_prod id canon) ns"] keys by (simp add: b)
    also have "\<dots> \<longleftrightarrow> length ms = length ns \<and> (\<forall>(k, d) \<in> set ms. \<exists>e. (k, e) \<in> set ns \<and> canon d = canon e)"
      by (rule image_members_eq[OF keys])
    also have "\<dots> \<longleftrightarrow> same_doc (JMap ms) b"
    proof -
      have "(\<exists>e. (k, e) \<in> set ns \<and> canon d = canon e) \<longleftrightarrow>
          (case dict_get ns k of None \<Rightarrow> False | Some e \<Rightarrow> same_doc d e)" if kd: "(k, d) \<in> set ms" for k d
      proof (cases "dict_get ns k")
        case None
        then have "(k, e) \<notin> set ns" for e using map_of_eq_None_iff[of ns k] by (metis fst_conv image_eqI)
        then show ?thesis unfolding None by simp
      next
        case (Some e)
        then have e: "(k, e) \<in> set ns" by (rule dict_get_SomeD)
        have "canon d = canon e \<longleftrightarrow> same_doc d e"
          using JMap.IH[of "(k, d)" d e] JMap.prems kd e b by (auto simp: prod_set_defs)
        moreover have "e' = e" if "(k, e') \<in> set ns" for e'
          using that e keys(2) eq_key_imp_eq_value by metis
        ultimately show ?thesis unfolding Some option.case using e by metis
      qed
      then have "(\<forall>(k, d) \<in> set ms. \<exists>e. (k, e) \<in> set ns \<and> canon d = canon e) \<longleftrightarrow>
          (\<forall>(k, d) \<in> set ms. case dict_get ns k of None \<Rightarrow> False | Some e \<Rightarrow> same_doc d e)"
        by (intro ball_cong refl) (simp only: split_paired_all split_conv)
      then show ?thesis unfolding b same_doc.simps list_all_iff by (rule arg_cong)
    qed
    finally show ?thesis .
  qed simp_all
next
  case JNil
  show ?case by (cases b) simp_all
next
  case (JTruth t)
  show ?case by (cases b) auto
next
  case (JNum i)
  show ?case by (cases b) auto
next
  case (JStr s)
  show ?case by (cases b) auto
qed

text \<open>C21: canonical JSON identifies a document. Two documents have the same canonical text exactly when they
  are equal up to the order of the members of their objects.\<close>

theorem canonical_json_identifies:
  assumes "wf_doc a" "wf_doc b"
  shows "canonical_json a = canonical_json b \<longleftrightarrow> same_doc a b"
  using assms by (simp add: canonical_json_inj canon_eq_iff)

lemma canonical_json_identifies_witness:
  "canonical_json (JMap [(''b'', JNum 1), (''a'', JStr ''x'')]) = canonical_json (JMap [(''a'', JStr ''x''), (''b'', JNum 1)]) \<and>
   canonical_json (JMap [(''a'', JNum 12)]) \<noteq> canonical_json (JMap [(''a'', JStr ''12'')])"
proof -
  note c = canonical_json_identifies
  show ?thesis
    by (subst (1 2) c) simp_all
qed

text \<open>Python's equality of decoded JSON values, where \<open>True == 1\<close>.\<close>

primrec untruth :: "jdoc \<Rightarrow> jdoc" where
  "untruth JNil = JNil"
| "untruth (JTruth b) = JNum (of_bool b)"
| "untruth (JNum i) = JNum i"
| "untruth (JStr s) = JStr s"
| "untruth (JArr ds) = JArr (map untruth ds)"
| "untruth (JMap ms) = JMap (map (map_prod id untruth) ms)"

definition py_eq :: "jobject \<Rightarrow> jobject \<Rightarrow> bool" where
  "py_eq d e = same_doc (untruth (JMap d)) (untruth (JMap e))"

text \<open>A column that holds canonical JSON is read back as the canonical document.\<close>

definition canon_object :: "jobject \<Rightarrow> jobject" where
  "canon_object d = sort_key fst (map (map_prod id canon) d)"

lemma canon_JMap: "canon (JMap d) = JMap (canon_object d)"
  by (simp add: canon_object_def)

lemma sort_key_map_prod: "sort_key fst (map (map_prod id f) ms) = map (map_prod id f) (sort_key fst ms)"
proof -
  have i: "insort_key fst (map_prod id f x) (map (map_prod id f) xs) = map (map_prod id f) (insort_key fst x xs)"
    for x :: "'a \<times> 'c" and xs
    by (induction xs) auto
  show ?thesis by (induction ms) (simp, simp only: list.map sort_key_simps i)
qed

lemma canon_untruth: "canon (untruth d) = untruth (canon d)"
proof (induction d)
  case (JMap ms)
  then have "map (map_prod id canon) (map (map_prod id untruth) ms) = map (map_prod id untruth) (map (map_prod id canon) ms)"
    by (auto simp: prod_set_defs)
  then show ?case by (simp only: canon.simps untruth.simps sort_key_map_prod)
qed auto

lemma canon_idem [simp]: "canon (canon d) = canon d"
proof (induction d)
  case (JMap ms)
  then have "map (map_prod id canon) (map (map_prod id canon) ms) = map (map_prod id canon) ms"
    by (auto simp: prod_set_defs)
  then show ?case by (simp only: canon.simps sort_key_map_prod[symmetric] sort_key_id_if_sorted sorted_sort_key)
qed auto

lemma wf_doc_canon: "wf_doc d \<Longrightarrow> wf_doc (canon d)"
  by (induction d) (auto simp: list_all_iff distinct_sort_key prod_set_defs)

lemma wf_doc_untruth: "wf_doc d \<Longrightarrow> wf_doc (untruth d)"
  by (induction d) (auto simp: list_all_iff prod_set_defs)

lemma py_eq_canon_object:
  assumes "wf_doc (JMap d)"
  shows "py_eq (canon_object d) d"
  unfolding py_eq_def canon_JMap[symmetric] canon_untruth[symmetric]
  by (subst canon_eq_iff[symmetric]) (use assms wf_doc_canon wf_doc_untruth in \<open>auto simp del: canon.simps untruth.simps\<close>)

end
