(* ===== verification/Order_Contracts.thy ===== *)
theory Order_Contracts
  imports Canonical_Json
begin

text \<open>
  The contracts of order writes (\<open>server/contracts/order_state.py\<close>) and the decimal contract of stored
  values (\<open>server/contracts/financial_values.py\<close>): commands with the validation of their constructors, the
  documents whose fingerprints identify them, the transition table of orders, and decimals as texts.
  A numeric argument is what \<open>Decimal(str(value))\<close> makes of it (\<open>pynum\<close>). The binary mirrors of stored decimals
  are not modelled.
\<close>

section \<open>Decimals as texts\<close>

definition rstrip_char :: "char \<Rightarrow> string \<Rightarrow> string" where
  "rstrip_char c s = rev (dropWhile (\<lambda>x. x = c) (rev s))"

definition format_f :: "decimal \<Rightarrow> string" where
  "format_f d =
     (let ds = nat_text (nat \<bar>coeff d\<bar>) in
      (if coeff d < 0 then ''-'' else []) @
      (if 0 \<le> expo d then (if coeff d = 0 then ''0'' else ds @ replicate (nat (expo d)) CHR ''0'')
       else let k = nat (- expo d); padded = replicate (Suc k - length ds) CHR ''0'' @ ds
            in take (length padded - k) padded @ ''.'' @ drop (length padded - k) padded))"

definition dec_normalize :: "decimal \<Rightarrow> decimal" where
  "dec_normalize d = (let r = fix_prec 28 d in
     if coeff r = 0 then DZERO else drop_zeros (ndig \<bar>coeff r\<bar>) (coeff r) (expo r))"

text \<open>\<open>Decimal(text)\<close> on texts in plain notation; other notations are not written by this code.\<close>

definition plain_decimal :: "string \<Rightarrow> pynum" where
  "plain_decimal t =
     (let negative = (t \<noteq> [] \<and> hd t = CHR ''-''); body = (if negative then tl t else t);
          ip = takeWhile (\<lambda>c. c \<noteq> CHR ''.'') body; fp = drop 1 (dropWhile (\<lambda>c. c \<noteq> CHR ''.'') body)
      in if ip @ fp \<noteq> [] \<and> list_all decimal_digit (ip @ fp)
         then Num (Decimal ((if negative then - 1 else 1) * int (text_nat (ip @ fp))) (- int (length fp)))
         else NotDecimal)"

section \<open>Stored decimals\<close>

definition MAX_SIGNIFICANT_DIGITS :: int where "MAX_SIGNIFICANT_DIGITS = 38"
definition MAX_FRACTIONAL_DIGITS :: int where "MAX_FRACTIONAL_DIGITS = 18"

definition decimal_value :: "string \<Rightarrow> bool \<Rightarrow> pynum option \<Rightarrow> decimal option res" where
  "decimal_value field allow_none value = (case value of
       None \<Rightarrow> if allow_none then Inr None else Inl (ValueError (field @ '' must be a finite decimal''))
     | Some (Num d) \<Rightarrow>
         let parsed = (if coeff d = 0 then DZERO else d);
             significant = max 1 (int (ndig \<bar>coeff parsed\<bar>)) + max (expo parsed) 0;
             fractional = max (- expo parsed) 0
         in if MAX_SIGNIFICANT_DIGITS < significant \<or> MAX_FRACTIONAL_DIGITS < fractional
            then Inl (ValueError (field @ '' exceeds decimal(38,18)'')) else Inr (Some parsed)
     | _ \<Rightarrow> Inl (ValueError (field @ '' must be a finite decimal'')))"

definition decimal_text :: "string \<Rightarrow> bool \<Rightarrow> pynum option \<Rightarrow> string option res" where
  "decimal_text field allow_none value = bind_res (decimal_value field allow_none value) (\<lambda>parsed. case parsed of
       None \<Rightarrow> Inr None
     | Some d \<Rightarrow> Inr (Some (if coeff d = 0 then ''0'' else let text = format_f d in
         if CHR ''.'' \<in> set text then rstrip_char CHR ''.'' (rstrip_char CHR ''0'' text) else text)))"

definition decimal_from_column :: "string \<Rightarrow> bool \<Rightarrow> string option \<Rightarrow> decimal option res" where
  "decimal_from_column field allow_none column = decimal_value field allow_none
     (case column of None \<Rightarrow> None | Some t \<Rightarrow> if t = [] then None else Some (plain_decimal t))"

section \<open>The lifecycle of an order\<close>

definition OMS_INITIAL_STATUSES :: "string list" where
  "OMS_INITIAL_STATUSES = [''awaiting_manual_confirmation'', ''staged'']"

definition OMS_ALLOWED_TRANSITIONS :: "(string, string list) dict" where
  "OMS_ALLOWED_TRANSITIONS =
    [(''awaiting_manual_confirmation'', [''manually_confirmed'', ''cancelled'']),
     (''manually_confirmed'', [''broker_submission_blocked'', ''manual_ticket_created'', ''cancelled'']),
     (''broker_submission_blocked'', [''cancelled'']),
     (''manual_ticket_created'', [''cancelled'']),
     (''staged'', [''submitted'', ''cancelled'', ''expired'']),
     (''submitted'', [''accepted'', ''rejected'', ''cancelled'', ''expired'']),
     (''accepted'', [''partially_filled'', ''filled'', ''rejected'', ''cancelled'', ''expired'']),
     (''partially_filled'', [''partially_filled'', ''filled'', ''cancelled'', ''expired'']),
     (''filled'', [''reconciled'']),
     (''rejected'', [''reconciled'']),
     (''cancelled'', [''reconciled'']),
     (''expired'', [''reconciled'']),
     (''reconciled'', [])]"

definition allowed_from :: "string \<Rightarrow> string list" where
  "allowed_from s = dict_get_default OMS_ALLOWED_TRANSITIONS s []"

section \<open>Commands\<close>

definition required :: "string \<Rightarrow> string \<Rightarrow> unit res" where
  "required value field = guard_res (str_strip value \<noteq> []) (ValueError (field @ '' must not be empty''))"

definition decimal_identity :: "pynum option \<Rightarrow> string option res" where
  "decimal_identity value = (case value of
       None \<Rightarrow> Inr None
     | Some (Num d) \<Rightarrow> Inr (Some (format_f (dec_normalize d)))
     | _ \<Rightarrow> Inl (ValueError ''order numeric value must be finite''))"

text \<open>\<open>Decimal(text) <= 0\<close> for a text given by \<open>decimal_identity\<close>.\<close>

definition text_not_positive :: "string \<Rightarrow> bool" where
  "text_not_positive t = (case plain_decimal t of Num d \<Rightarrow> dle d DZERO | _ \<Rightarrow> False)"

record oms_order_command =
  oc_idempotency_key :: string
  oc_order_id :: string
  oc_symbol :: string
  oc_side :: string
  oc_asset_class :: string
  oc_quantity :: pynum
  oc_order_type :: string
  oc_limit_price :: "pynum option"
  oc_initial_status :: string
  oc_broker_submission_enabled :: bool
  oc_source :: string
  oc_source_ref :: "string option"
  oc_payload :: jobject
  oc_transition_reason :: string
  oc_transition_actor :: "string option"
  oc_transition_payload :: jobject

definition check_order_command :: "oms_order_command \<Rightarrow> unit res" where
  "check_order_command c =
     bind_res (required (oc_idempotency_key c) ''idempotency_key'') (\<lambda>_.
     bind_res (required (oc_order_id c) ''order_id'') (\<lambda>_.
     bind_res (required (oc_symbol c) ''symbol'') (\<lambda>_.
     bind_res (required (oc_asset_class c) ''asset_class'') (\<lambda>_.
     bind_res (required (oc_initial_status c) ''initial_status'') (\<lambda>_.
     bind_res (required (oc_source c) ''source'') (\<lambda>_.
     bind_res (guard_res (str_lower (oc_side c) \<in> {''buy'', ''sell''}) (ValueError ''side must be buy or sell'')) (\<lambda>_.
     bind_res (guard_res (str_lower (oc_order_type c) \<in> {''market'', ''limit''})
       (ValueError ''order_type must be market or limit'')) (\<lambda>_.
     bind_res (decimal_identity (Some (oc_quantity c))) (\<lambda>quantity.
     bind_res (guard_res (case quantity of None \<Rightarrow> False | Some q \<Rightarrow> \<not> text_not_positive q)
       (ValueError ''quantity must be positive'')) (\<lambda>_.
     bind_res (decimal_identity (oc_limit_price c)) (\<lambda>limit_price.
     bind_res (guard_res (case limit_price of None \<Rightarrow> True | Some p \<Rightarrow> \<not> text_not_positive p)
       (ValueError ''limit_price must be positive when provided'')) (\<lambda>_.
     bind_res (guard_res (\<not> (str_lower (oc_order_type c) = ''limit'' \<and> limit_price = None))
       (ValueError ''limit OMS order requires a price'')) (\<lambda>_.
     bind_res (guard_res (oc_initial_status c \<in> set OMS_INITIAL_STATUSES)
       (ValueError ''OMS order must start at a non-authorizing initial status'')) (\<lambda>_.
     guard_res (\<not> oc_broker_submission_enabled c)
       (ValueError ''OMS order creation cannot enable broker submission'')))))))))))))))"

definition opt_doc :: "string option \<Rightarrow> jdoc" where
  "opt_doc s = (case s of None \<Rightarrow> JNil | Some t \<Rightarrow> JStr t)"

definition identity_text :: "pynum option \<Rightarrow> jdoc" where
  "identity_text v = (case decimal_identity v of Inr t \<Rightarrow> opt_doc t | Inl e \<Rightarrow> JNil)"

definition order_identity_payload :: "oms_order_command \<Rightarrow> jobject" where
  "order_identity_payload c =
    [(''order_id'', JStr (oc_order_id c)), (''symbol'', JStr (oc_symbol c)), (''side'', JStr (str_lower (oc_side c))),
     (''asset_class'', JStr (oc_asset_class c)), (''quantity'', identity_text (Some (oc_quantity c))),
     (''order_type'', JStr (str_lower (oc_order_type c))), (''limit_price'', identity_text (oc_limit_price c)),
     (''initial_status'', JStr (oc_initial_status c)),
     (''broker_submission_enabled'', JTruth (oc_broker_submission_enabled c)), (''source'', JStr (oc_source c)),
     (''source_ref'', opt_doc (oc_source_ref c)), (''payload'', JMap (oc_payload c)),
     (''transition_reason'', JStr (oc_transition_reason c)), (''transition_actor'', opt_doc (oc_transition_actor c)),
     (''transition_payload'', JMap (oc_transition_payload c))]"

definition order_fingerprint :: "(string \<Rightarrow> string) \<Rightarrow> oms_order_command \<Rightarrow> string" where
  "order_fingerprint digest c = content_fingerprint digest (JMap (order_identity_payload c))"

record oms_transition_command =
  tc_idempotency_key :: string
  tc_order_id :: string
  tc_expected_from :: string
  tc_to_status :: string
  tc_reason :: string
  tc_actor :: "string option"
  tc_payload :: jobject

definition check_transition_command :: "oms_transition_command \<Rightarrow> unit res" where
  "check_transition_command c =
     bind_res (required (tc_idempotency_key c) ''idempotency_key'') (\<lambda>_.
     bind_res (required (tc_order_id c) ''order_id'') (\<lambda>_.
     bind_res (required (tc_expected_from c) ''expected_from'') (\<lambda>_.
     bind_res (required (tc_to_status c) ''to_status'') (\<lambda>_.
     bind_res (required (tc_reason c) ''reason'') (\<lambda>_.
     bind_res (guard_res (tc_to_status c \<in> set (allowed_from (tc_expected_from c)))
       (ValueError (''invalid OMS transition: '' @ tc_expected_from c @ '' -> '' @ tc_to_status c))) (\<lambda>_.
     if tc_to_status c = ''manually_confirmed''
     then required (case tc_actor c of None \<Rightarrow> [] | Some a \<Rightarrow> a) ''actor'' else Inr ()))))))"

definition transition_identity_payload :: "oms_transition_command \<Rightarrow> jobject" where
  "transition_identity_payload c =
    [(''order_id'', JStr (tc_order_id c)), (''expected_from'', JStr (tc_expected_from c)),
     (''to_status'', JStr (tc_to_status c)), (''reason'', JStr (tc_reason c)), (''actor'', opt_doc (tc_actor c)),
     (''payload'', JMap (tc_payload c))]"

definition transition_fingerprint :: "(string \<Rightarrow> string) \<Rightarrow> oms_transition_command \<Rightarrow> string" where
  "transition_fingerprint digest c = content_fingerprint digest (JMap (transition_identity_payload c))"

definition command_identity :: "string \<Rightarrow> string \<Rightarrow> string \<Rightarrow> jdoc" where
  "command_identity command_type idempotency_key fingerprint =
     JMap [(''command_type'', JStr command_type), (''idempotency_key'', JStr idempotency_key),
           (''fingerprint'', JStr fingerprint)]"

section \<open>Texts of decimals are read back\<close>

lemma foldl_digits_zeros:
  "foldl (\<lambda>a c. a * 10 + (of_char c - 48)) a (replicate k CHR ''0'') = a * 10 ^ k" for a :: nat
  by (induction k arbitrary: a) (auto simp: ac_simps)

lemma text_nat_zeros: "text_nat (ds @ replicate k CHR ''0'') = text_nat ds * 10 ^ k"
  by (simp add: text_nat_def foldl_digits_zeros)

lemma text_nat_leading: "text_nat (replicate k CHR ''0'' @ ds) = text_nat ds"
  by (simp add: text_nat_def foldl_digits_zeros)

lemma ndig_0 [simp]: "ndig 0 = 0"
  by (subst ndig.simps) simp

lemma digit_chars:
  "digit_char 0 = CHR ''0''" "digit_char 1 = CHR ''1''" "digit_char 2 = CHR ''2''" "digit_char 3 = CHR ''3''"
  "digit_char 4 = CHR ''4''" "digit_char 5 = CHR ''5''" "digit_char 6 = CHR ''6''" "digit_char 7 = CHR ''7''"
  "digit_char 8 = CHR ''8''" "digit_char 9 = CHR ''9''"
  by (code_simp)+

lemma digit_0 [simp]: "decimal_digit CHR ''0''"
  by (simp add: decimal_digit_def)

lemma digit_not_dot: "decimal_digit c \<Longrightarrow> c \<noteq> CHR ''.'' \<and> c \<noteq> CHR ''-''"
  by (auto simp: decimal_digit_def)

definition sign_text :: "bool \<Rightarrow> string" where
  "sign_text negative = (if negative then ''-'' else [])"

lemma plain_decimal_digits:
  assumes "list_all decimal_digit (ip @ fp)" "ip \<noteq> []" "t = sign_text n @ ip @ CHR ''.'' # fp \<or> t = sign_text n @ ip \<and> fp = []"
  shows "plain_decimal t = Num (Decimal ((if n then - 1 else 1) * int (text_nat (ip @ fp))) (- int (length fp)))"
proof -
  have nodot: "\<forall>c \<in> set ip. c \<noteq> CHR ''.''" using assms(1) digit_not_dot by (auto simp: list_all_iff)
  obtain c ip' where ip: "ip = c # ip'" using assms(2) by (cases ip) auto
  then have c: "c \<noteq> CHR ''-''" using assms(1) digit_not_dot by auto
  have neg: "(t \<noteq> [] \<and> hd t = CHR ''-'') = n" using assms(3) c ip by (auto simp: sign_text_def)
  have body: "(if n then tl t else t) = ip @ CHR ''.'' # fp \<or> (if n then tl t else t) = ip \<and> fp = []"
    using assms(3) by (auto simp: sign_text_def)
  have split: "takeWhile (\<lambda>c. c \<noteq> CHR ''.'') (ip @ r) = ip @ takeWhile (\<lambda>c. c \<noteq> CHR ''.'') r"
    "dropWhile (\<lambda>c. c \<noteq> CHR ''.'') (ip @ r) = dropWhile (\<lambda>c. c \<noteq> CHR ''.'') r" for r
    using nodot by (simp_all add: takeWhile_append2 dropWhile_append2)
  from body split[of "CHR ''.'' # fp"] split[of "[]"]
  have parts: "takeWhile (\<lambda>c. c \<noteq> CHR ''.'') (if n then tl t else t) = ip"
    "drop 1 (dropWhile (\<lambda>c. c \<noteq> CHR ''.'') (if n then tl t else t)) = fp"
    by (elim disjE conjE; simp only: takeWhile.simps dropWhile.simps append_Nil2 drop_Nil drop_0 simp_thms if_False if_True drop_Suc_Cons One_nat_def)+
  show ?thesis unfolding plain_decimal_def Let_def neg parts using assms(1,2) by simp
qed

lemma format_f_shape:
  obtains ip fp where "format_f d = sign_text (coeff d < 0) @ ip @ (if expo d < 0 then CHR ''.'' # fp else [])"
    "list_all decimal_digit (ip @ fp)" "ip \<noteq> []" "length fp = nat (- expo d)"
    "text_nat (ip @ fp) = nat \<bar>coeff d\<bar> * 10 ^ nat (expo d)"
proof -
  let ?ds = "nat_text (nat \<bar>coeff d\<bar>)"
  note ds = nat_text_read[of "nat \<bar>coeff d\<bar>"]
  show ?thesis
  proof (cases "0 \<le> expo d")
    case True
    let ?ip = "if coeff d = 0 then ''0'' else ?ds @ replicate (nat (expo d)) CHR ''0''"
    have "text_nat ''0'' = 0" by (simp add: text_nat_def)
    then have "text_nat (?ip @ []) = nat \<bar>coeff d\<bar> * 10 ^ nat (expo d)" using ds by (simp add: text_nat_zeros)
    then show ?thesis
      by (rule that[of ?ip "[]", rotated 4]) (use ds True in \<open>auto simp: format_f_def sign_text_def Let_def list_all_iff\<close>)
  next
    case False
    define k where "k = nat (- expo d)"
    define padded where "padded = replicate (Suc k - length ?ds) CHR ''0'' @ ?ds"
    have len: "k < length padded" by (simp add: padded_def)
    have dig: "list_all decimal_digit padded" using ds by (auto simp: padded_def list_all_iff)
    show ?thesis
    proof (rule that[of "take (length padded - k) padded" "drop (length padded - k) padded"])
      show "text_nat (take (length padded - k) padded @ drop (length padded - k) padded) = nat \<bar>coeff d\<bar> * 10 ^ nat (expo d)"
        unfolding append_take_drop_id using ds False by (simp add: padded_def text_nat_leading)
      show "list_all decimal_digit (take (length padded - k) padded @ drop (length padded - k) padded)" using dig by simp
      show "format_f d = sign_text (coeff d < 0) @ take (length padded - k) padded @
          (if expo d < 0 then CHR ''.'' # drop (length padded - k) padded else [])"
        using False by (simp add: format_f_def Let_def sign_text_def padded_def k_def)
    qed (use len in \<open>auto simp: k_def\<close>)
  qed
qed

lemma rstrip_char_append:
  "rstrip_char c (s @ t) = (if rstrip_char c t = [] then rstrip_char c s else s @ rstrip_char c t)"
  by (auto simp: rstrip_char_def dropWhile_append)

lemma rstrip_char_keep: "s \<noteq> [] \<Longrightarrow> last s \<noteq> c \<Longrightarrow> rstrip_char c s = s"
  by (cases s rule: rev_cases) (auto simp: rstrip_char_def)

lemma rstrip_char_shape: "\<exists>k. s = rstrip_char c s @ replicate k c"
proof -
  have "takeWhile (\<lambda>x. x = c) (rev s) = replicate (length (takeWhile (\<lambda>x. x = c) (rev s))) c"
    by (rule replicate_length_same[symmetric]) (auto dest: set_takeWhileD)
  then have "rev s = replicate (length (takeWhile (\<lambda>x. x = c) (rev s))) c @ dropWhile (\<lambda>x. x = c) (rev s)"
    by (metis takeWhile_dropWhile_id)
  then have "s = rev (replicate (length (takeWhile (\<lambda>x. x = c) (rev s))) c @ dropWhile (\<lambda>x. x = c) (rev s))"
    by (metis rev_rev_ident)
  then show ?thesis by (auto simp: rstrip_char_def)
qed

lemma decimal_text_shape:
  assumes "decimal_text field allow_none (Some (Num d)) = Inr (Some t)"
  obtains ip fp k where "t = sign_text (coeff d < 0) @ ip @ CHR ''.'' # fp \<or> t = sign_text (coeff d < 0) @ ip \<and> fp = []"
    "list_all decimal_digit (ip @ fp)" "ip \<noteq> []" "length fp + k = nat (- expo d)"
    "text_nat (ip @ fp) * 10 ^ k = nat \<bar>coeff d\<bar> * 10 ^ nat (expo d)" | "coeff d = 0" "t = ''0''"
proof (cases "coeff d = 0")
  case False
  let ?s = "sign_text (coeff d < 0)"
  obtain ip fp where f: "format_f d = ?s @ ip @ (if expo d < 0 then CHR ''.'' # fp else [])"
    "list_all decimal_digit (ip @ fp)" "ip \<noteq> []" "length fp = nat (- expo d)"
    "text_nat (ip @ fp) = nat \<bar>coeff d\<bar> * 10 ^ nat (expo d)" by (rule format_f_shape)
  have t: "t = (if CHR ''.'' \<in> set (format_f d) then rstrip_char CHR ''.'' (rstrip_char CHR ''0'' (format_f d)) else format_f d)"
    using assms False by (auto simp: decimal_text_def decimal_value_def Let_def split: if_splits)
  show ?thesis
  proof (cases "expo d < 0")
    case True
    obtain k where k: "fp = rstrip_char CHR ''0'' fp @ replicate k CHR ''0''" using rstrip_char_shape by blast
    let ?fp = "rstrip_char CHR ''0'' fp"
    have digits: "list_all decimal_digit (ip @ ?fp)" using f(2) k by (metis list_all_append)
    have zeros: "rstrip_char CHR ''0'' (format_f d) = ?s @ ip @ CHR ''.'' # ?fp"
    proof -
      have "rstrip_char CHR ''0'' (CHR ''.'' # fp) = CHR ''.'' # ?fp"
        using rstrip_char_append[of "CHR ''0''" "''.''" fp] by (simp add: rstrip_char_def)
      then show ?thesis using True f(1) by (simp add: rstrip_char_append)
    qed
    have last: "last ip \<noteq> CHR ''.''" "?fp \<noteq> [] \<Longrightarrow> last ?fp \<noteq> CHR ''.''"
      using digits f(3) digit_not_dot by (auto simp: list_all_iff)
    have "rstrip_char CHR ''.'' (CHR ''.'' # ?fp) = (if ?fp = [] then [] else CHR ''.'' # ?fp)"
      using last rstrip_char_append[of "CHR ''.''" "''.''" ?fp] by (simp add: rstrip_char_keep) (simp add: rstrip_char_def)
    then have "rstrip_char CHR ''.'' (?s @ ip @ CHR ''.'' # ?fp) = ?s @ ip @ (if ?fp = [] then [] else CHR ''.'' # ?fp)"
      using last(1) f(3) by (simp add: rstrip_char_append rstrip_char_keep)
    then have "t = ?s @ ip @ (if ?fp = [] then [] else CHR ''.'' # ?fp)"
      using t[unfolded zeros] True f(1) by simp
    moreover have "length ?fp + k = nat (- expo d)" using f(4) k by (metis length_append length_replicate)
    moreover have "text_nat (ip @ ?fp) * 10 ^ k = nat \<bar>coeff d\<bar> * 10 ^ nat (expo d)"
      using f(5) k by (metis append_assoc text_nat_zeros)
    ultimately show ?thesis using that(1)[of ip ?fp k] digits f(3) by (auto split: if_splits)
  next
    case expo: False
    have "CHR ''.'' \<notin> set (format_f d)"
      using f(1,2) expo digit_not_dot by (auto simp: sign_text_def list_all_iff)
    then show ?thesis using that(1)[of ip fp 0] f t expo by auto
  qed
qed (use assms that(2) in \<open>auto simp: decimal_text_def decimal_value_def Let_def split: if_splits\<close>)

lemma ndig_mono: "0 \<le> m \<Longrightarrow> m \<le> n \<Longrightarrow> ndig m \<le> ndig n"
  by (simp add: ndig_floorlog floorlog_mono nat_mono)

lemma ndig_times_power: "0 < m \<Longrightarrow> ndig (m * 10 ^ k) = ndig m + k"
proof (induction k)
  case (Suc k)
  then have "ndig (m * 10 ^ Suc k) = Suc (ndig (m * 10 ^ Suc k div 10))" by (subst ndig.simps) (use Suc.prems in \<open>simp add: not_le zero_less_mult_iff\<close>)
  also have "m * 10 ^ Suc k div 10 = m * 10 ^ k" by simp
  finally show ?case using Suc by simp
qed simp

lemma val_shift:
  fixes n :: nat
  assumes "length fp + k = nat (- e)" "n * 10 ^ k = m * 10 ^ nat e"
  shows "rat_of_nat n * 10 powi (- int (length fp)) = rat_of_nat m * 10 powi e"
proof (cases "0 \<le> e")
  case True
  then have "length fp = 0" "k = 0" using assms(1) by simp_all
  moreover have "rat_of_nat n = rat_of_nat m * 10 ^ nat e" using assms(2) \<open>k = 0\<close> by (metis mult.right_neutral of_nat_mult of_nat_numeral of_nat_power power_0)
  ultimately show ?thesis using True by (simp add: power_int_def)
next
  case False
  then have "n * 10 ^ k = m" using assms(2) by simp
  then have "rat_of_nat m = rat_of_nat n * 10 ^ k" by (metis of_nat_mult of_nat_numeral of_nat_power)
  moreover have "e = - int (length fp) - int k" using assms(1) False by linarith
  moreover have "(10::rat) powi (- int (length fp) - int k) = 10 powi (- int (length fp)) / 10 ^ k"
    by (simp add: power_int_diff)
  ultimately show ?thesis by simp
qed

lemma stored_decimal_read:
  assumes "decimal_text field allow_none (Some (Num d)) = Inr (Some t)"
  shows "\<exists>d'. decimal_from_column field allow_none (Some t) = Inr (Some d') \<and> val d' = val d"
  using assms
proof (cases rule: decimal_text_shape)
  case (1 ip fp k)
  let ?n = "text_nat (ip @ fp)" and ?sg = "if coeff d < 0 then - 1 else 1 :: int"
  let ?d = "Decimal (?sg * int ?n) (- int (length fp))"
  have "t \<noteq> []" using 1(1,3) by auto
  moreover have "plain_decimal t = Num ?d" by (rule plain_decimal_digits[OF 1(2,3,1)])
  ultimately have read: "decimal_from_column field allow_none (Some t) = decimal_value field allow_none (Some (Num ?d))"
    by (simp add: decimal_from_column_def)
  have "rat_of_nat ?n * 10 powi (- int (length fp)) = rat_of_nat (nat \<bar>coeff d\<bar>) * 10 powi expo d"
    by (rule val_shift[OF 1(4,5)])
  then have v: "val ?d = val d" by (simp add: val_def)
  show ?thesis
  proof (cases "coeff d = 0")
    case True
    then have "?n = 0" using 1(5) by simp
    then show ?thesis using read v by (simp add: decimal_value_def Let_def MAX_SIGNIFICANT_DIGITS_def MAX_FRACTIONAL_DIGITS_def)
  next
    case False
    have b: "max 1 (int (ndig \<bar>coeff d\<bar>)) + max (expo d) 0 \<le> 38" "max (- expo d) 0 \<le> 18"
      using assms False by (auto simp: decimal_text_def decimal_value_def Let_def MAX_SIGNIFICANT_DIGITS_def
          MAX_FRACTIONAL_DIGITS_def split: if_splits)
    have n: "int ?n * 10 ^ k = \<bar>coeff d\<bar> * 10 ^ nat (expo d)"
      using arg_cong[OF 1(5), of int] by simp
    have pos: "0 < int ?n" using n False by (metis abs_0_eq mult_eq_0_iff of_nat_0_less_iff of_nat_eq_0_iff power_not_zero zero_neq_numeral neq0_conv)
    have "ndig (int ?n) + k = ndig \<bar>coeff d\<bar> + nat (expo d)"
      using arg_cong[OF n, of ndig] pos False by (simp add: ndig_times_power)
    then have "max 1 (int (ndig (int ?n))) + max (- int (length fp)) 0 \<le> 38" "max (int (length fp)) 0 \<le> 18"
      using b 1(4) by linarith+
    then show ?thesis using read v pos
      by (simp add: decimal_value_def Let_def MAX_SIGNIFICANT_DIGITS_def MAX_FRACTIONAL_DIGITS_def abs_mult)
  qed
next
  case 2
  then show ?thesis by (simp add: decimal_from_column_def plain_decimal_def decimal_digit_def text_nat_def
      decimal_value_def Let_def MAX_SIGNIFICANT_DIGITS_def MAX_FRACTIONAL_DIGITS_def val_eq_0_iff)
qed

text \<open>C22: a stored decimal is read back exactly. Whatever the contract accepts is written as a text that the same
  contract accepts on reading, with the same value: nothing is rounded.\<close>

theorem stored_decimal_roundtrip:
  assumes "decimal_text field allow_none (Some (Num d)) = Inr (Some t)"
  shows "\<exists>d'. decimal_from_column field allow_none (Some t) = Inr (Some d') \<and> val d' = val d"
  using assms by (rule stored_decimal_read)

lemma stored_decimal_roundtrip_witness:
  "\<exists>t. decimal_text ''quantity'' False (Some (Num (Decimal 1250 (- 2)))) = Inr (Some t) \<and> t = ''12.5'' \<and>
    (\<exists>d. decimal_from_column ''quantity'' False (Some t) = Inr (Some d) \<and> val d = 25 / 2)"
proof -
  have t: "decimal_text ''quantity'' False (Some (Num (Decimal 1250 (- 2)))) = Inr (Some ''12.5'')"
    by (simp add: decimal_text_def decimal_value_def format_f_def nat_text.simps digit_chars ndig.simps
        rstrip_char_def MAX_SIGNIFICANT_DIGITS_def MAX_FRACTIONAL_DIGITS_def digit_chars[simplified])
  from stored_decimal_roundtrip[OF t] t show ?thesis by (auto simp: val_def powi10_neg)
qed

lemma plain_format_f: "\<exists>d'. plain_decimal (format_f d) = Num d' \<and> val d' = val d"
proof -
  obtain ip fp where f: "format_f d = sign_text (coeff d < 0) @ ip @ (if expo d < 0 then CHR ''.'' # fp else [])"
    "list_all decimal_digit (ip @ fp)" "ip \<noteq> []" "length fp = nat (- expo d)"
    "text_nat (ip @ fp) = nat \<bar>coeff d\<bar> * 10 ^ nat (expo d)" by (rule format_f_shape)
  have "plain_decimal (format_f d) =
      Num (Decimal ((if coeff d < 0 then - 1 else 1) * int (text_nat (ip @ fp))) (- int (length fp)))"
    using f by (intro plain_decimal_digits) auto
  moreover have "rat_of_nat (text_nat (ip @ fp)) * 10 powi (- int (length fp)) = rat_of_nat (nat \<bar>coeff d\<bar>) * 10 powi expo d"
    by (rule val_shift[of _ 0]) (use f in simp_all)
  ultimately show ?thesis by (simp add: val_def)
qed

lemma val_dec_normalize: "val (dec_normalize d) = cr (val d)"
  by (simp add: dec_normalize_def Let_def val_drop_zeros val_fix_prec[symmetric] val_eq_0_iff val_def[of "fix_prec 28 d"])

lemma decimal_identity_positive:
  assumes "decimal_identity v = Inr (Some t)" "\<not> text_not_positive t"
  shows "\<exists>d. v = Some (Num d) \<and> 0 < val d"
proof -
  obtain d where d: "v = Some (Num d)" "t = format_f (dec_normalize d)"
    using assms(1) by (auto simp: decimal_identity_def split: option.splits pynum.splits)
  obtain d' where "plain_decimal t = Num d'" "val d' = cr (val d)"
    using plain_format_f[of "dec_normalize d"] d(2) val_dec_normalize by auto
  then have "0 < cr (val d)" using assms(2) by (simp add: text_not_positive_def dle_val)
  then show ?thesis using d(1) rnd_mono[of "val d" 0 28] by (cases "0 < val d") auto
qed

end
