(* ===== verification/Oms.thy ===== *)
theory Oms
  imports Order_Contracts
begin

text \<open>
  The order management system: the tables of \<open>server/persistence/oms.py\<close> and
  \<open>server/persistence/order_state_claims.py\<close> with the two commands that write them, and the service
  of \<open>server/services/controlled_execution/oms.py\<close> on top. A database is the list of rows of each
  table in the order of insertion. A function of a transaction gives the new database or an error; after an
  error nothing is committed. The hash function is the parameter \<open>digest\<close>.
\<close>

section \<open>Tables\<close>

record oms_order =
  oo_order_id :: string
  oo_intent_key :: string
  oo_symbol :: string
  oo_side :: string
  oo_asset_class :: string
  oo_quantity :: string
  oo_order_type :: string
  oo_limit_price :: "string option"
  oo_status :: string
  oo_broker_submission_enabled :: bool
  oo_source :: string
  oo_source_ref :: "string option"
  oo_payload :: jobject
  oo_created_at :: string
  oo_updated_at :: string

record oms_transition_row =
  ot_id :: int
  ot_order_id :: string
  ot_from_status :: string
  ot_to_status :: string
  ot_reason :: string
  ot_actor :: "string option"
  ot_payload :: jobject
  ot_transitioned_at :: string

record oms_event =
  ov_event_type :: string
  ov_timestamp :: string
  ov_source_ref :: string
  ov_order :: oms_order
  ov_transition :: oms_transition_row
  ov_identity :: jdoc

record oms_claim =
  ol_command_key :: string
  ol_command_type :: string
  ol_fingerprint :: string
  ol_aggregate_id :: string
  ol_result :: oms_order
  ol_created_at :: string

record oms_db =
  db_orders :: "oms_order list"
  db_transitions :: "oms_transition_row list"
  db_sequence :: int
  db_events :: "oms_event list"
  db_claims :: "oms_claim list"

definition empty_db :: oms_db where
  "empty_db = \<lparr>db_orders = [], db_transitions = [], db_sequence = 0, db_events = [], db_claims = []\<rparr>"

section \<open>Claims\<close>

definition get_claim :: "string \<Rightarrow> oms_db \<Rightarrow> oms_claim option" where
  "get_claim key db = find (\<lambda>c. ol_command_key c = key) (db_claims db)"

definition require_matching_claim :: "oms_claim \<Rightarrow> string \<Rightarrow> string \<Rightarrow> string \<Rightarrow> string \<Rightarrow> unit res" where
  "require_matching_claim claim command_type key fingerprint aggregate =
     (if ol_command_type claim \<noteq> command_type then Inl (ValueError ''idempotency conflict: command type changed'')
      else if ol_command_key claim \<noteq> key then Inl (ValueError ''idempotency conflict: command key changed'')
      else if ol_fingerprint claim \<noteq> fingerprint
      then Inl (ValueError ''idempotency conflict: command payload fingerprint changed'')
      else if ol_aggregate_id claim \<noteq> aggregate
      then Inl (ValueError ''idempotency conflict: aggregate identity changed'')
      else Inr ())"

definition insert_claim :: "string \<Rightarrow> string \<Rightarrow> string \<Rightarrow> string \<Rightarrow> oms_order \<Rightarrow> string \<Rightarrow> oms_db \<Rightarrow> oms_db res" where
  "insert_claim command_type key fingerprint aggregate result now db =
     (if key \<in> set (map ol_command_key (db_claims db)) \<or> length fingerprint \<noteq> 64
      then Inl (RuntimeError ''IntegrityError'')
      else Inr (db\<lparr>db_claims := db_claims db @ [\<lparr>ol_command_key = key, ol_command_type = command_type,
        ol_fingerprint = fingerprint, ol_aggregate_id = aggregate, ol_result = result, ol_created_at = now\<rparr>]\<rparr>))"

section \<open>Rows\<close>

definition get_oms_order :: "string \<Rightarrow> oms_db \<Rightarrow> oms_order option" where
  "get_oms_order order_id db = find (\<lambda>r. oo_order_id r = order_id) (db_orders db)"

definition get_oms_order_by_intent_key :: "string \<Rightarrow> oms_db \<Rightarrow> oms_order option" where
  "get_oms_order_by_intent_key key db = find (\<lambda>r. oo_intent_key r = key) (db_orders db)"

definition list_oms_transitions :: "string \<Rightarrow> oms_db \<Rightarrow> oms_transition_row list" where
  "list_oms_transitions order_id db = sort_key ot_id (filter (\<lambda>t. ot_order_id t = order_id) (db_transitions db))"

definition require_oms_order :: "string \<Rightarrow> oms_db \<Rightarrow> oms_order res" where
  "require_oms_order order_id db = (case get_oms_order order_id db of
       None \<Rightarrow> Inl (KeyError (''OMS order not found: '' @ order_id)) | Some r \<Rightarrow> Inr r)"

definition require_oms_transition :: "int \<Rightarrow> oms_db \<Rightarrow> oms_transition_row res" where
  "require_oms_transition i db = (case find (\<lambda>t. ot_id t = i) (db_transitions db) of
       None \<Rightarrow> Inl (RuntimeError ''OMS transition was not persisted'') | Some t \<Rightarrow> Inr t)"

definition insert_transition :: "oms_transition_row \<Rightarrow> oms_db \<Rightarrow> oms_db" where
  "insert_transition t db = db\<lparr>db_transitions := db_transitions db @ [t\<lparr>ot_id := db_sequence db + 1\<rparr>],
     db_sequence := db_sequence db + 1\<rparr>"

definition insert_oms_event :: "string \<Rightarrow> string \<Rightarrow> oms_order \<Rightarrow> oms_transition_row \<Rightarrow> jdoc \<Rightarrow> oms_db \<Rightarrow> oms_db" where
  "insert_oms_event event_type timestamp order transition identity db = db\<lparr>db_events := db_events db @
     [\<lparr>ov_event_type = event_type, ov_timestamp = timestamp, ov_source_ref = oo_order_id order,
       ov_order = order, ov_transition = transition, ov_identity = identity\<rparr>]\<rparr>"

definition with_identity :: "jobject \<Rightarrow> jdoc \<Rightarrow> jobject" where
  "with_identity payload identity = canon_object (dict_put ''command_identity'' identity payload)"

definition doc_get :: "jdoc \<Rightarrow> string \<Rightarrow> jdoc option" where
  "doc_get d k = (case d of JMap ms \<Rightarrow> dict_get ms k | _ \<Rightarrow> None)"

text \<open>\<open>str(d.get(k) or "")\<close> for a key whose value is a text or missing.\<close>

definition doc_text :: "jdoc \<Rightarrow> string \<Rightarrow> string" where
  "doc_text d k = (case doc_get d k of Some (JStr s) \<Rightarrow> s | _ \<Rightarrow> [])"

definition is_object :: "jdoc option \<Rightarrow> bool" where
  "is_object d = (case d of Some (JMap ms) \<Rightarrow> True | _ \<Rightarrow> False)"

definition require_command_identity :: "jdoc option \<Rightarrow> string \<Rightarrow> string \<Rightarrow> unit res" where
  "require_command_identity identity key fingerprint =
     (if \<not> is_object identity then Inl (ValueError ''OMS idempotency conflict: command identity is missing'')
      else if doc_text (the identity) ''idempotency_key'' \<noteq> key
      then Inl (ValueError ''OMS idempotency conflict: command key changed'')
      else if doc_text (the identity) ''fingerprint'' \<noteq> fingerprint
      then Inl (ValueError ''OMS idempotency conflict: command payload changed'')
      else Inr ())"

text \<open>The most recent row whose identity carries the key of a command.\<close>

definition identity_has_key :: "jdoc option \<Rightarrow> string \<Rightarrow> bool" where
  "identity_has_key identity key = (is_object identity \<and> doc_get (the identity) ''idempotency_key'' = Some (JStr key))"

definition find_transition_command :: "string \<Rightarrow> string \<Rightarrow> oms_db \<Rightarrow> oms_transition_row option" where
  "find_transition_command order_id key db =
     find (\<lambda>t. identity_has_key (dict_get (ot_payload t) ''command_identity'') key)
       (rev (list_oms_transitions order_id db))"

definition require_event_command :: "string \<Rightarrow> string \<Rightarrow> string \<Rightarrow> string \<Rightarrow> oms_db \<Rightarrow> unit res" where
  "require_event_command event_type order_id key fingerprint db =
     (case find (\<lambda>e. identity_has_key (Some (ov_identity e)) key)
        (rev (filter (\<lambda>e. ov_event_type e = event_type \<and> ov_source_ref e = order_id) (db_events db))) of
        None \<Rightarrow> Inl (RuntimeError ''OMS command claim is missing its audit event'')
      | Some e \<Rightarrow> require_command_identity (Some (ov_identity e)) key fingerprint)"

definition text_or_empty :: "string option \<Rightarrow> string" where
  "text_or_empty s = (case s of None \<Rightarrow> [] | Some t \<Rightarrow> t)"

text \<open>\<open>_same_decimal\<close> for a value read from a column and a value of a command.\<close>

definition same_decimal :: "decimal option \<Rightarrow> pynum option \<Rightarrow> bool" where
  "same_decimal l r = (case (l, r) of (None, None) \<Rightarrow> True | (Some a, Some (Num b)) \<Rightarrow> deq a b | _ \<Rightarrow> False)"

section \<open>Replays of a command\<close>

definition require_create_replay :: "(string \<Rightarrow> string) \<Rightarrow> oms_order \<Rightarrow> oms_order_command \<Rightarrow> oms_db \<Rightarrow> unit res" where
  "require_create_replay digest existing c db =
     (let payload = oo_payload existing; key = oc_idempotency_key c; fp = order_fingerprint digest c in
      bind_res (require_command_identity (dict_get payload ''command_identity'') key fp) (\<lambda>_.
      bind_res (guard_res (oo_order_id existing = oc_order_id c \<and> oo_intent_key existing = key \<and>
          oo_symbol existing = oc_symbol c \<and> oo_side existing = str_lower (oc_side c) \<and>
          oo_asset_class existing = oc_asset_class c \<and> oo_order_type existing = str_lower (oc_order_type c) \<and>
          oo_source existing = oc_source c \<and> text_or_empty (oo_source_ref existing) = text_or_empty (oc_source_ref c))
        (RuntimeError ''OMS create replay found drifted order projection'')) (\<lambda>_.
      bind_res (decimal_from_column ''quantity'' False (Some (oo_quantity existing))) (\<lambda>quantity.
      bind_res (if same_decimal quantity (Some (oc_quantity c))
        then bind_res (decimal_from_column ''limit_price'' True (oo_limit_price existing)) (\<lambda>limit_price.
          guard_res (same_decimal limit_price (oc_limit_price c)) (RuntimeError ''OMS create replay found drifted order values''))
        else Inl (RuntimeError ''OMS create replay found drifted order values'')) (\<lambda>_.
      bind_res (guard_res (oo_broker_submission_enabled existing = oc_broker_submission_enabled c)
        (RuntimeError ''OMS create replay found drifted broker authority'')) (\<lambda>_.
      bind_res (guard_res (py_eq (dict_del ''command_identity'' payload) (oc_payload c))
        (RuntimeError ''OMS create replay found drifted payload'')) (\<lambda>_.
      case find_transition_command (oc_order_id c) key db of
        None \<Rightarrow> Inl (RuntimeError ''OMS create replay is missing its initial transition'')
      | Some initial \<Rightarrow>
          bind_res (require_command_identity (dict_get (ot_payload initial) ''command_identity'') key fp) (\<lambda>_.
          bind_res (guard_res (ot_order_id initial = oc_order_id c \<and> ot_from_status initial = ''created'' \<and>
              ot_to_status initial = oc_initial_status c \<and> ot_reason initial = oc_transition_reason c \<and>
              text_or_empty (ot_actor initial) = text_or_empty (oc_transition_actor c) \<and>
              py_eq (dict_del ''command_identity'' (ot_payload initial)) (oc_transition_payload c))
            (RuntimeError ''OMS create replay found drifted initial transition'')) (\<lambda>_.
          require_event_command ''oms.order.created'' (oc_order_id c) key fp db)))))))))"

definition require_transition_replay ::
  "(string \<Rightarrow> string) \<Rightarrow> oms_transition_row \<Rightarrow> oms_transition_command \<Rightarrow> oms_db \<Rightarrow> unit res" where
  "require_transition_replay digest t c db =
     (let key = tc_idempotency_key c; fp = transition_fingerprint digest c in
      bind_res (require_command_identity (dict_get (ot_payload t) ''command_identity'') key fp) (\<lambda>_.
      bind_res (guard_res (ot_order_id t = tc_order_id c \<and> ot_from_status t = tc_expected_from c \<and>
          ot_to_status t = tc_to_status c \<and> ot_reason t = tc_reason c \<and>
          text_or_empty (ot_actor t) = text_or_empty (tc_actor c) \<and>
          py_eq (dict_del ''command_identity'' (ot_payload t)) (tc_payload c))
        (RuntimeError ''OMS transition replay found drifted transition fact'')) (\<lambda>_.
      require_event_command ''oms.order.transitioned'' (tc_order_id c) key fp db)))"

section \<open>The two commands\<close>

definition order_identity :: "(string \<Rightarrow> string) \<Rightarrow> oms_order_command \<Rightarrow> jdoc" where
  "order_identity digest c = command_identity ''oms_order.create'' (oc_idempotency_key c) (order_fingerprint digest c)"

definition new_order_row :: "(string \<Rightarrow> string) \<Rightarrow> string \<Rightarrow> oms_order_command \<Rightarrow> string \<Rightarrow> string option \<Rightarrow> oms_order" where
  "new_order_row digest now c quantity limit_price =
    \<lparr>oo_order_id = oc_order_id c, oo_intent_key = oc_idempotency_key c, oo_symbol = oc_symbol c,
     oo_side = str_lower (oc_side c), oo_asset_class = oc_asset_class c, oo_quantity = quantity,
     oo_order_type = str_lower (oc_order_type c), oo_limit_price = limit_price, oo_status = oc_initial_status c,
     oo_broker_submission_enabled = oc_broker_submission_enabled c, oo_source = oc_source c,
     oo_source_ref = oc_source_ref c, oo_payload = with_identity (oc_payload c) (order_identity digest c),
     oo_created_at = now, oo_updated_at = now\<rparr>"

definition initial_transition :: "(string \<Rightarrow> string) \<Rightarrow> string \<Rightarrow> oms_order_command \<Rightarrow> oms_transition_row" where
  "initial_transition digest now c =
    \<lparr>ot_id = 0, ot_order_id = oc_order_id c, ot_from_status = ''created'', ot_to_status = oc_initial_status c,
     ot_reason = oc_transition_reason c, ot_actor = oc_transition_actor c,
     ot_payload = with_identity (oc_transition_payload c) (order_identity digest c), ot_transitioned_at = now\<rparr>"

definition create_oms_order :: "(string \<Rightarrow> string) \<Rightarrow> string \<Rightarrow> oms_order_command \<Rightarrow> oms_db \<Rightarrow> (oms_db \<times> oms_order) res" where
  "create_oms_order digest now c db =
     (let key = oc_idempotency_key c; fp = order_fingerprint digest c; oid = oc_order_id c in
      case get_claim key db of
        Some claim \<Rightarrow>
          bind_res (require_matching_claim claim ''oms_order.create'' key fp oid) (\<lambda>_.
          bind_res (require_oms_order oid db) (\<lambda>existing.
          bind_res (require_create_replay digest existing c db) (\<lambda>_. Inr (db, existing))))
      | None \<Rightarrow>
          if get_oms_order_by_intent_key key db \<noteq> None
          then Inl (ValueError ''OMS idempotency conflict: order exists without command claim'')
          else if get_oms_order oid db \<noteq> None
          then Inl (ValueError ''OMS order idempotency conflict: order_id already exists'')
          else
            bind_res (decimal_text ''quantity'' False (Some (oc_quantity c))) (\<lambda>quantity.
            bind_res (decimal_text ''limit_price'' True (oc_limit_price c)) (\<lambda>limit_price.
            let db1 = db\<lparr>db_orders := db_orders db @ [new_order_row digest now c (the quantity) limit_price]\<rparr>;
                db2 = insert_transition (initial_transition digest now c) db1
            in bind_res (require_oms_order oid db2) (\<lambda>order.
               bind_res (require_oms_transition (db_sequence db2) db2) (\<lambda>transition.
               bind_res (insert_claim ''oms_order.create'' key fp oid order now
                 (insert_oms_event ''oms.order.created'' now order transition (order_identity digest c) db2)) (\<lambda>db3.
               Inr (db3, order)))))))"

definition transition_identity :: "(string \<Rightarrow> string) \<Rightarrow> oms_transition_command \<Rightarrow> jdoc" where
  "transition_identity digest c =
     command_identity ''oms_order.transition'' (tc_idempotency_key c) (transition_fingerprint digest c)"

definition next_transition :: "(string \<Rightarrow> string) \<Rightarrow> string \<Rightarrow> oms_transition_command \<Rightarrow> oms_transition_row" where
  "next_transition digest now c =
    \<lparr>ot_id = 0, ot_order_id = tc_order_id c, ot_from_status = tc_expected_from c, ot_to_status = tc_to_status c,
     ot_reason = tc_reason c, ot_actor = tc_actor c,
     ot_payload = with_identity (tc_payload c) (transition_identity digest c), ot_transitioned_at = now\<rparr>"

definition update_status :: "string \<Rightarrow> string \<Rightarrow> string \<Rightarrow> string \<Rightarrow> oms_order list \<Rightarrow> oms_order list" where
  "update_status order_id from_status to_status now rows =
     map (\<lambda>r. if oo_order_id r = order_id \<and> oo_status r = from_status
       then r\<lparr>oo_status := to_status, oo_updated_at := now\<rparr> else r) rows"

definition transition_oms_order ::
  "(string \<Rightarrow> string) \<Rightarrow> string \<Rightarrow> oms_transition_command \<Rightarrow> oms_db \<Rightarrow> (oms_db \<times> oms_order) res" where
  "transition_oms_order digest now c db =
     (let key = tc_idempotency_key c; fp = transition_fingerprint digest c; oid = tc_order_id c in
      case get_claim key db of
        Some claim \<Rightarrow>
          bind_res (require_matching_claim claim ''oms_order.transition'' key fp oid) (\<lambda>_.
          case find_transition_command oid key db of
            None \<Rightarrow> Inl (RuntimeError ''OMS command claim is missing its transition'')
          | Some replay \<Rightarrow> bind_res (require_transition_replay digest replay c db) (\<lambda>_.
              bind_res (require_oms_order oid db) (\<lambda>order. Inr (db, order))))
      | None \<Rightarrow>
          bind_res (require_oms_order oid db) (\<lambda>order.
          if oo_status order \<noteq> tc_expected_from c
          then Inl (RuntimeError (''OMS transition compare-and-set conflict: expected '' @ tc_expected_from c @
            '', got '' @ oo_status order))
          else if length (filter (\<lambda>r. oo_order_id r = oid \<and> oo_status r = tc_expected_from c) (db_orders db)) \<noteq> 1
          then Inl (RuntimeError ''OMS transition compare-and-set failed'')
          else
            let db1 = db\<lparr>db_orders := update_status oid (tc_expected_from c) (tc_to_status c) now (db_orders db)\<rparr>;
                db2 = insert_transition (next_transition digest now c) db1
            in bind_res (require_oms_order oid db2) (\<lambda>updated.
               bind_res (require_oms_transition (db_sequence db2) db2) (\<lambda>transition.
               bind_res (insert_claim ''oms_order.transition'' key fp oid updated now
                 (insert_oms_event ''oms.order.transitioned'' now updated transition (transition_identity digest c) db2)) (\<lambda>db3.
               Inr (db3, updated))))))"

text \<open>A command is checked when it is built and then run in a transaction of its own.\<close>

datatype oms_command = CreateOrder oms_order_command | TransitionOrder oms_transition_command

definition run_command :: "(string \<Rightarrow> string) \<Rightarrow> string \<Rightarrow> oms_command \<Rightarrow> oms_db \<Rightarrow> (oms_db \<times> oms_order) res" where
  "run_command digest now command db = (case command of
       CreateOrder c \<Rightarrow> bind_res (check_order_command c) (\<lambda>_. create_oms_order digest now c db)
     | TransitionOrder c \<Rightarrow> bind_res (check_transition_command c) (\<lambda>_. transition_oms_order digest now c db))"

text \<open>Commands of any origin run one after the other; a failed one is rolled back.\<close>

fun run_commands :: "(string \<Rightarrow> string) \<Rightarrow> (string \<times> oms_command) list \<Rightarrow> oms_db \<Rightarrow> oms_db" where
  "run_commands digest [] db = db"
| "run_commands digest ((now, c) # cs) db = run_commands digest cs
     (case run_command digest now c db of Inl e \<Rightarrow> db | Inr (db', r) \<Rightarrow> db')"

section \<open>What a fresh command writes\<close>

definition ids_ok :: "oms_db \<Rightarrow> bool" where
  "ids_ok db = (distinct (map oo_order_id (db_orders db)) \<and> sorted_wrt (<) (map ot_id (db_transitions db)) \<and>
     (\<forall>t \<in> set (db_transitions db). ot_id t \<le> db_sequence db \<and> ot_order_id t \<in> set (map oo_order_id (db_orders db))))"

definition events_of :: "string \<Rightarrow> string \<Rightarrow> oms_order \<Rightarrow> oms_transition_row \<Rightarrow> jdoc \<Rightarrow> oms_event" where
  "events_of event_type now order transition identity = \<lparr>ov_event_type = event_type, ov_timestamp = now,
     ov_source_ref = oo_order_id order, ov_order = order, ov_transition = transition, ov_identity = identity\<rparr>"

lemma find_distinct: "distinct (map f xs) \<Longrightarrow> find (\<lambda>x. f x = k) xs = Some x \<longleftrightarrow> x \<in> set xs \<and> f x = k"
  by (induction xs) (auto simp: image_iff)

lemma require_inserted:
  assumes "\<forall>t \<in> set (db_transitions db). ot_id t \<le> db_sequence db"
  shows "require_oms_transition (db_sequence (insert_transition t db)) (insert_transition t db) =
    Inr (t\<lparr>ot_id := db_sequence db + 1\<rparr>)"
proof -
  have "find (\<lambda>t. ot_id t = db_sequence db + 1) (db_transitions db) = None"
    unfolding find_None_iff using assms by force
  then show ?thesis by (simp add: require_oms_transition_def insert_transition_def find_append)
qed

lemma get_oms_order_SomeD: "get_oms_order oid db = Some r \<Longrightarrow> r \<in> set (db_orders db) \<and> oo_order_id r = oid"
  by (auto simp: get_oms_order_def find_Some_iff)

lemma get_oms_order_NoneD: "get_oms_order oid db = None \<Longrightarrow> oid \<notin> set (map oo_order_id (db_orders db))"
  by (auto simp: get_oms_order_def find_None_iff)

lemma get_oms_order_iff:
  "distinct (map oo_order_id (db_orders db)) \<Longrightarrow>
    get_oms_order oid db = Some r \<longleftrightarrow> r \<in> set (db_orders db) \<and> oo_order_id r = oid"
  unfolding get_oms_order_def by (rule find_distinct)

lemma insert_claim_Inr:
  "insert_claim ty key fp agg res now db = Inr db' \<longleftrightarrow> key \<notin> set (map ol_command_key (db_claims db)) \<and> length fp = 64 \<and>
    db' = db\<lparr>db_claims := db_claims db @ [\<lparr>ol_command_key = key, ol_command_type = ty, ol_fingerprint = fp,
      ol_aggregate_id = agg, ol_result = res, ol_created_at = now\<rparr>]\<rparr>"
  by (auto simp: insert_claim_def)

lemma get_claim_None: "get_claim key db = None \<longleftrightarrow> key \<notin> set (map ol_command_key (db_claims db))"
  by (auto simp: get_claim_def find_None_iff)

definition add_claim :: "string \<Rightarrow> string \<Rightarrow> string \<Rightarrow> oms_order \<Rightarrow> oms_transition_row \<Rightarrow> jdoc \<Rightarrow> string \<Rightarrow> string \<Rightarrow> oms_db \<Rightarrow> oms_db" where
  "add_claim command_type event_type now order t identity key fp db =
     db\<lparr>db_transitions := db_transitions db @ [t\<lparr>ot_id := db_sequence db + 1\<rparr>], db_sequence := db_sequence db + 1,
        db_events := db_events db @ [events_of event_type now order (t\<lparr>ot_id := db_sequence db + 1\<rparr>) identity],
        db_claims := db_claims db @ [\<lparr>ol_command_key = key, ol_command_type = command_type, ol_fingerprint = fp,
          ol_aggregate_id = oo_order_id order, ol_result = order, ol_created_at = now\<rparr>]\<rparr>"

lemma create_fresh:
  assumes "create_oms_order digest now c db = Inr (db', r)" "get_claim (oc_idempotency_key c) db = None" "ids_ok db"
  obtains q p where "decimal_text ''quantity'' False (Some (oc_quantity c)) = Inr q"
    "decimal_text ''limit_price'' True (oc_limit_price c) = Inr p" "r = new_order_row digest now c (the q) p"
    "get_oms_order (oc_order_id c) db = None"
    "oc_idempotency_key c \<notin> set (map oo_intent_key (db_orders db))"
    "db' = add_claim ''oms_order.create'' ''oms.order.created'' now r (initial_transition digest now c)
      (order_identity digest c) (oc_idempotency_key c) (order_fingerprint digest c) (db\<lparr>db_orders := db_orders db @ [r]\<rparr>)"
proof -
  have guards: "get_oms_order_by_intent_key (oc_idempotency_key c) db = None" "get_oms_order (oc_order_id c) db = None"
    using assms(1,2) by (auto simp: create_oms_order_def Let_def split: if_splits)
  obtain q p where qp: "decimal_text ''quantity'' False (Some (oc_quantity c)) = Inr q"
    "decimal_text ''limit_price'' True (oc_limit_price c) = Inr p"
    using assms(1,2) guards by (auto simp: create_oms_order_def Let_def bind_res_eq_Inr)
  let ?row = "new_order_row digest now c (the q) p"
  let ?db1 = "db\<lparr>db_orders := db_orders db @ [?row]\<rparr>"
  let ?db2 = "insert_transition (initial_transition digest now c) ?db1"
  have "get_oms_order (oc_order_id c) ?db2 = Some ?row"
    using guards(2) by (simp add: get_oms_order_def find_append insert_transition_def new_order_row_def)
  then have o: "require_oms_order (oc_order_id c) ?db2 = Inr ?row" by (simp add: require_oms_order_def)
  have t: "require_oms_transition (db_sequence ?db2) ?db2 = Inr ((initial_transition digest now c)\<lparr>ot_id := db_sequence db + 1\<rparr>)"
    using require_inserted[of ?db1] assms(3) by (simp add: ids_ok_def)
  have "r = ?row \<and> insert_claim ''oms_order.create'' (oc_idempotency_key c) (order_fingerprint digest c) (oc_order_id c) r now
      (insert_oms_event ''oms.order.created'' now r ((initial_transition digest now c)\<lparr>ot_id := db_sequence db + 1\<rparr>)
        (order_identity digest c) ?db2) = Inr db'"
    using assms(1,2) guards qp o t by (auto simp: create_oms_order_def Let_def bind_res_eq_Inr)
  moreover have "oc_idempotency_key c \<notin> set (map oo_intent_key (db_orders db))"
    using guards(1) by (auto simp: get_oms_order_by_intent_key_def find_None_iff)
  moreover have "oo_order_id ?row = oc_order_id c" by (simp add: new_order_row_def)
  ultimately show ?thesis using guards(2) qp
    by (intro that[of q p]) (auto simp: insert_claim_Inr add_claim_def insert_oms_event_def insert_transition_def events_of_def)
qed

lemma find_update_status:
  assumes "find (\<lambda>r. oo_order_id r = oid) rows = Some r" "oo_status r = s"
  shows "find (\<lambda>r. oo_order_id r = oid) (update_status oid s s' now rows) = Some (r\<lparr>oo_status := s', oo_updated_at := now\<rparr>)"
  using assms by (induction rows) (auto simp: update_status_def split: if_splits)

lemma transition_fresh:
  assumes "transition_oms_order digest now c db = Inr (db', r)" "get_claim (tc_idempotency_key c) db = None" "ids_ok db"
  obtains r0 where "get_oms_order (tc_order_id c) db = Some r0" "oo_status r0 = tc_expected_from c"
    "r = r0\<lparr>oo_status := tc_to_status c, oo_updated_at := now\<rparr>"
    "db' = add_claim ''oms_order.transition'' ''oms.order.transitioned'' now r (next_transition digest now c)
      (transition_identity digest c) (tc_idempotency_key c) (transition_fingerprint digest c)
      (db\<lparr>db_orders := update_status (tc_order_id c) (tc_expected_from c) (tc_to_status c) now (db_orders db)\<rparr>)"
proof -
  obtain r0 where r0: "get_oms_order (tc_order_id c) db = Some r0" "oo_status r0 = tc_expected_from c"
    using assms(1,2) by (auto simp: transition_oms_order_def Let_def bind_res_eq_Inr require_oms_order_def split: option.splits if_splits)
  let ?db1 = "db\<lparr>db_orders := update_status (tc_order_id c) (tc_expected_from c) (tc_to_status c) now (db_orders db)\<rparr>"
  let ?db2 = "insert_transition (next_transition digest now c) ?db1"
  let ?r = "r0\<lparr>oo_status := tc_to_status c, oo_updated_at := now\<rparr>"
  have "get_oms_order (tc_order_id c) ?db2 = Some ?r"
    using r0 find_update_status[of "tc_order_id c" "db_orders db" r0 "tc_expected_from c"]
    by (simp add: get_oms_order_def insert_transition_def)
  then have o: "require_oms_order (tc_order_id c) ?db2 = Inr ?r" by (simp add: require_oms_order_def)
  have "\<forall>t \<in> set (db_transitions ?db1). ot_id t \<le> db_sequence ?db1" using assms(3) by (simp add: ids_ok_def)
  then have t: "require_oms_transition (db_sequence ?db2) ?db2 = Inr ((next_transition digest now c)\<lparr>ot_id := db_sequence db + 1\<rparr>)"
    using require_inserted[of ?db1 "next_transition digest now c"] by simp
  have "r = ?r \<and> insert_claim ''oms_order.transition'' (tc_idempotency_key c) (transition_fingerprint digest c) (tc_order_id c) r now
      (insert_oms_event ''oms.order.transitioned'' now r ((next_transition digest now c)\<lparr>ot_id := db_sequence db + 1\<rparr>)
        (transition_identity digest c) ?db2) = Inr db'"
    using assms(1,2) r0 o t
    by (auto simp: transition_oms_order_def Let_def bind_res_eq_Inr require_oms_order_def[of _ db] split: if_splits)
  moreover have "oo_order_id ?r = tc_order_id c" using get_oms_order_SomeD[OF r0(1)] by simp
  ultimately show ?thesis using r0
    by (intro that[of r0]) (auto simp: insert_claim_Inr add_claim_def insert_oms_event_def insert_transition_def events_of_def)
qed

lemma create_claimed:
  assumes "create_oms_order digest now c db = Inr (db', r)" "get_claim (oc_idempotency_key c) db \<noteq> None"
  shows "db' = db \<and> get_oms_order (oc_order_id c) db = Some r"
  using assms by (auto simp: create_oms_order_def Let_def bind_res_eq_Inr require_oms_order_def split: option.splits)

lemma transition_claimed:
  assumes "transition_oms_order digest now c db = Inr (db', r)" "get_claim (tc_idempotency_key c) db \<noteq> None"
  shows "db' = db \<and> get_oms_order (tc_order_id c) db = Some r"
  using assms by (auto simp: transition_oms_order_def Let_def bind_res_eq_Inr require_oms_order_def split: option.splits)

end
