(* ===== verification/Oms_Service.thy ===== *)
theory Oms_Service
  imports Oms
begin

text \<open>
  The service in front of the OMS tables (\<open>server/services/controlled_execution/oms.py\<close>): order intents
  that wait for a manual confirmation, paper orders that start staged, and the guarded transition. A
  row is returned as it is stored; reading its flag and its payload back changes nothing here.
\<close>

definition OMS_SCHEMA_VERSION :: string where "OMS_SCHEMA_VERSION = ''karkinos.oms_order.v1''"
definition INITIAL_STATUS :: string where "INITIAL_STATUS = ''awaiting_manual_confirmation''"
definition PAPER_SHADOW_INITIAL_STATUS :: string where "PAPER_SHADOW_INITIAL_STATUS = ''staged''"
definition PAPER_SHADOW_EXECUTION_MODE :: string where "PAPER_SHADOW_EXECUTION_MODE = ''paper_shadow''"

text \<open>A quantity that is not finite passes here and is refused by the command.\<close>

definition validate_order_inputs :: "string \<Rightarrow> string \<Rightarrow> pynum \<Rightarrow> string \<Rightarrow> unit res" where
  "validate_order_inputs symbol side quantity order_type =
     bind_res (guard_res (str_strip symbol \<noteq> []) (ValueError ''symbol is required'')) (\<lambda>_.
     bind_res (guard_res (str_lower side \<in> {''buy'', ''sell''}) (ValueError ''side must be buy or sell'')) (\<lambda>_.
     bind_res (case quantity of
         Num d \<Rightarrow> guard_res (\<not> dle d DZERO) (ValueError ''quantity must be positive'')
       | NotDecimal \<Rightarrow> Inl (ValueError ''could not convert string to float'')
       | NonFinite \<Rightarrow> Inr ()) (\<lambda>_.
     guard_res (str_lower order_type \<in> {''market'', ''limit''}) (ValueError ''order_type must be market or limit''))))"

definition oms_order_id :: "(string \<Rightarrow> string) \<Rightarrow> string \<Rightarrow> string" where
  "oms_order_id digest intent_key = ''OMS-'' @ take 16 (digest intent_key)"

record order_request =
  rq_intent_key :: string
  rq_symbol :: string
  rq_side :: string
  rq_asset_class :: string
  rq_quantity :: pynum
  rq_order_type :: string
  rq_limit_price :: "pynum option"

definition intent_payload :: "jobject \<Rightarrow> jobject" where
  "intent_payload payload =
     dict_put ''does_not_submit_broker_order'' (JTruth True)
       (dict_put ''manual_confirmation_required'' (JTruth True)
         (dict_put ''schema_version'' (JStr OMS_SCHEMA_VERSION) payload))"

definition create_order_intent ::
  "(string \<Rightarrow> string) \<Rightarrow> string \<Rightarrow> order_request \<Rightarrow> string \<Rightarrow> string option \<Rightarrow> jobject \<Rightarrow> oms_db
    \<Rightarrow> (oms_db \<times> oms_order) res" where
  "create_order_intent digest now rq source source_ref payload db =
     bind_res (validate_order_inputs (rq_symbol rq) (rq_side rq) (rq_quantity rq) (rq_order_type rq)) (\<lambda>_.
     run_command digest now (CreateOrder \<lparr>oc_idempotency_key = rq_intent_key rq,
       oc_order_id = oms_order_id digest (rq_intent_key rq), oc_symbol = rq_symbol rq, oc_side = rq_side rq,
       oc_asset_class = rq_asset_class rq, oc_quantity = rq_quantity rq, oc_order_type = rq_order_type rq,
       oc_limit_price = rq_limit_price rq, oc_initial_status = INITIAL_STATUS, oc_broker_submission_enabled = False,
       oc_source = source, oc_source_ref = source_ref, oc_payload = intent_payload payload,
       oc_transition_reason = ''created from order intent'', oc_transition_actor = Some ''system'',
       oc_transition_payload = [(''intent_key'', JStr (rq_intent_key rq))]\<rparr>) db)"

definition paper_payload :: "string \<Rightarrow> string option \<Rightarrow> string list \<Rightarrow> jobject" where
  "paper_payload run_id source_ref evidence_refs =
    [(''schema_version'', JStr OMS_SCHEMA_VERSION), (''execution_mode'', JStr PAPER_SHADOW_EXECUTION_MODE),
     (''run_id'', JStr run_id), (''source_ref'', opt_doc source_ref),
     (''evidence_refs'', JArr (map JStr evidence_refs)), (''manual_confirmation_required'', JTruth False),
     (''broker_submission_enabled'', JTruth False), (''does_not_submit_broker_order'', JTruth True),
     (''does_not_mutate_production_ledger'', JTruth True)]"

definition create_paper_shadow_order ::
  "(string \<Rightarrow> string) \<Rightarrow> string \<Rightarrow> order_request \<Rightarrow> string option \<Rightarrow> string \<Rightarrow> string option \<Rightarrow> string list \<Rightarrow> string
    \<Rightarrow> oms_db \<Rightarrow> (oms_db \<times> oms_order) res" where
  "create_paper_shadow_order digest now rq order_id run_id source_ref evidence_refs source db =
     bind_res (validate_order_inputs (rq_symbol rq) (rq_side rq) (rq_quantity rq) (rq_order_type rq)) (\<lambda>_.
     let payload = paper_payload run_id source_ref evidence_refs in
     run_command digest now (CreateOrder \<lparr>oc_idempotency_key = rq_intent_key rq,
       oc_order_id = (if text_or_empty order_id \<noteq> [] then text_or_empty order_id
         else oms_order_id digest (''paper-shadow:'' @ rq_intent_key rq)),
       oc_symbol = rq_symbol rq, oc_side = rq_side rq, oc_asset_class = rq_asset_class rq,
       oc_quantity = rq_quantity rq, oc_order_type = rq_order_type rq, oc_limit_price = rq_limit_price rq,
       oc_initial_status = PAPER_SHADOW_INITIAL_STATUS, oc_broker_submission_enabled = False, oc_source = source,
       oc_source_ref = Some run_id, oc_payload = payload,
       oc_transition_reason = ''created from paper/shadow order intent'', oc_transition_actor = Some ''system'',
       oc_transition_payload = dict_put ''source'' (JStr source)
         (dict_put ''intent_key'' (JStr (rq_intent_key rq)) payload)\<rparr>) db)"

definition is_paper_shadow_order :: "oms_order \<Rightarrow> bool" where
  "is_paper_shadow_order r = (str_lower (doc_text (JMap (oo_payload r)) ''execution_mode'') = PAPER_SHADOW_EXECUTION_MODE)"

definition transition_payload :: "oms_order \<Rightarrow> string option \<Rightarrow> jobject \<Rightarrow> jobject" where
  "transition_payload r source evidence =
     (let base = [(''broker_submission_enabled'', JTruth (oo_broker_submission_enabled r))];
          copied = fold (\<lambda>k p. case dict_get (oo_payload r) k of None \<Rightarrow> p | Some v \<Rightarrow> dict_put k v p)
            [''execution_mode'', ''run_id'', ''does_not_submit_broker_order'', ''does_not_mutate_production_ledger''] base;
          sourced = (case source of None \<Rightarrow> copied | Some s \<Rightarrow> dict_put ''source'' (JStr s) copied)
      in fold (\<lambda>(k, v). dict_put k v) evidence sourced)"

definition transition_idempotency_key ::
  "(string \<Rightarrow> string) \<Rightarrow> string \<Rightarrow> string \<Rightarrow> string \<Rightarrow> string \<Rightarrow> string option \<Rightarrow> jobject \<Rightarrow> string" where
  "transition_idempotency_key digest order_id from_status to_status reason actor payload =
     ''oms-transition:'' @ order_id @ '':'' @ from_status @ '':'' @ to_status @ '':'' @
     content_fingerprint digest (JMap [(''reason'', JStr reason), (''actor'', opt_doc actor), (''payload'', JMap payload)])"

definition transition_order ::
  "(string \<Rightarrow> string) \<Rightarrow> string \<Rightarrow> string \<Rightarrow> string \<Rightarrow> string \<Rightarrow> string option \<Rightarrow> string option \<Rightarrow> jobject
    \<Rightarrow> string option \<Rightarrow> string option \<Rightarrow> oms_db \<Rightarrow> (oms_db \<times> oms_order) res" where
  "transition_order digest now order_id to reason actor source evidence expected_from idempotency_key db =
     (case get_oms_order order_id db of
        None \<Rightarrow> Inl (KeyError (''OMS order not found: '' @ order_id))
      | Some order \<Rightarrow>
          let current = oo_status order;
              from_status = str_lower (if text_or_empty expected_from \<noteq> [] then text_or_empty expected_from else current);
              to_status = str_lower to
          in if to_status = current \<and> idempotency_key = None then Inr (db, order)
             else if to_status = ''submitted'' \<and> \<not> oo_broker_submission_enabled order \<and> \<not> is_paper_shadow_order order
             then Inl (ValueError ''broker submission is disabled'')
             else if to_status \<notin> set (allowed_from from_status)
             then Inl (ValueError (''invalid OMS transition: '' @ from_status @ '' -> '' @ to_status))
             else
               let payload = transition_payload order source evidence;
                   key = (if text_or_empty idempotency_key \<noteq> [] then text_or_empty idempotency_key
                     else transition_idempotency_key digest order_id from_status to_status reason actor payload)
               in run_command digest now (TransitionOrder \<lparr>tc_idempotency_key = key, tc_order_id = order_id,
                    tc_expected_from = from_status, tc_to_status = to_status, tc_reason = reason,
                    tc_actor = actor, tc_payload = payload\<rparr>) db)"

end
