(* ===== verification/Oms_Lifecycle.thy ===== *)
theory Oms_Lifecycle
  imports Oms_Service
begin

text \<open>
  What the order tables promise. The abstract lifecycle keeps for each order the list of its statuses;
  every command that changes the tables is one step of it. The commands of a history are arbitrary and
  interleaved in any way; the invariants are proved for each command and then hold for every reachable
  database.
\<close>

section \<open>The abstract lifecycle\<close>

type_synonym lifecycle = "string \<Rightarrow> string list option"

inductive lifecycle_step :: "lifecycle \<Rightarrow> lifecycle \<Rightarrow> bool" where
  open_order: "h oid = None \<Longrightarrow> s \<in> set OMS_INITIAL_STATUSES \<Longrightarrow> lifecycle_step h (h(oid \<mapsto> [s]))"
| move_order: "h oid = Some ss \<Longrightarrow> t \<in> set (allowed_from (last ss)) \<Longrightarrow> lifecycle_step h (h(oid \<mapsto> ss @ [t]))"

inductive_cases lifecycle_stepE: "lifecycle_step h h'"

definition history_of :: "string \<Rightarrow> oms_db \<Rightarrow> oms_transition_row list" where
  "history_of oid db = filter (\<lambda>t. ot_order_id t = oid) (db_transitions db)"

definition lifecycle_of :: "oms_db \<Rightarrow> lifecycle" where
  "lifecycle_of db oid = (if oid \<in> set (map oo_order_id (db_orders db))
     then Some (map ot_to_status (history_of oid db)) else None)"

definition lifecycle_ok :: "oms_db \<Rightarrow> bool" where
  "lifecycle_ok db = (ids_ok db \<and> (\<forall>r \<in> set (db_orders db).
     let ts = history_of (oo_order_id r) db; ss = map ot_to_status ts in
     ss \<noteq> [] \<and> last ss = oo_status r \<and> map ot_from_status ts = ''created'' # butlast ss))"

definition db_reachable :: "(string \<Rightarrow> string) \<Rightarrow> oms_db \<Rightarrow> bool" where
  "db_reachable digest db = (\<exists>cmds. db = run_commands digest cmds empty_db)"

section \<open>Each command is a step\<close>

lemma add_claim_sel [simp]:
  "db_orders (add_claim ct et now order t idn key fp db) = db_orders db"
  "db_transitions (add_claim ct et now order t idn key fp db) = db_transitions db @ [t\<lparr>ot_id := db_sequence db + 1\<rparr>]"
  "db_sequence (add_claim ct et now order t idn key fp db) = db_sequence db + 1"
  "db_events (add_claim ct et now order t idn key fp db) =
    db_events db @ [events_of et now order (t\<lparr>ot_id := db_sequence db + 1\<rparr>) idn]"
  "map ol_command_key (db_claims (add_claim ct et now order t idn key fp db)) = map ol_command_key (db_claims db) @ [key]"
  by (simp_all add: add_claim_def)

lemma history_add_claim [simp]:
  "history_of oid (add_claim ct et now order t idn key fp db) =
    history_of oid db @ (if ot_order_id t = oid then [t\<lparr>ot_id := db_sequence db + 1\<rparr>] else [])"
  by (simp add: history_of_def)

lemma history_orders [simp]: "history_of oid (db\<lparr>db_orders := rows\<rparr>) = history_of oid db"
  by (simp add: history_of_def)

lemma update_status_ids [simp]: "map oo_order_id (update_status oid s s' now rows) = map oo_order_id rows"
  by (induction rows) (auto simp: update_status_def)

lemma update_status_id_set [simp]: "oo_order_id ` set (update_status oid s s' now rows) = oo_order_id ` set rows"
  using update_status_ids[of oid s s' now rows] by (metis set_map)

lemma ids_ok_add_claim:
  assumes "ids_ok db" "distinct (map oo_order_id rows)" "set (map oo_order_id (db_orders db)) \<subseteq> set (map oo_order_id rows)"
    and "ot_order_id t \<in> set (map oo_order_id rows)"
  shows "ids_ok (add_claim ct et now order t idn key fp (db\<lparr>db_orders := rows\<rparr>))"
  using assms by (force simp: ids_ok_def sorted_wrt_append)

lemma create_step:
  assumes "lifecycle_ok db" "check_order_command c = Inr ()" "create_oms_order digest now c db = Inr (db', r)"
  shows "lifecycle_ok db' \<and> (db' = db \<or> lifecycle_step (lifecycle_of db) (lifecycle_of db'))"
proof (cases "get_claim (oc_idempotency_key c) db")
  case (Some claim)
  then show ?thesis using create_claimed[OF assms(3)] assms(1) by simp
next
  case None
  have ids: "ids_ok db" using assms(1) by (simp add: lifecycle_ok_def)
  obtain q p where r: "r = new_order_row digest now c (the q) p" and new: "get_oms_order (oc_order_id c) db = None"
    and db': "db' = add_claim ''oms_order.create'' ''oms.order.created'' now r (initial_transition digest now c)
      (order_identity digest c) (oc_idempotency_key c) (order_fingerprint digest c) (db\<lparr>db_orders := db_orders db @ [r]\<rparr>)"
    by (rule create_fresh[OF assms(3) None ids])
  note fresh = get_oms_order_NoneD[OF new]
  have rid: "oo_order_id r = oc_order_id c" "oo_status r = oc_initial_status c" by (simp_all add: r new_order_row_def)
  have it: "ot_order_id (initial_transition digest now c) = oc_order_id c"
    "ot_to_status (initial_transition digest now c) = oc_initial_status c"
    "ot_from_status (initial_transition digest now c) = ''created''" by (simp_all add: initial_transition_def)
  have init: "oc_initial_status c \<in> set OMS_INITIAL_STATUSES"
    using assms(2) by (auto simp: check_order_command_def bind_res_eq_Inr)
  have none: "history_of (oc_order_id c) db = []"
    using ids fresh by (force simp: history_of_def ids_ok_def filter_empty_conv)
  have "ids_ok db'" unfolding db'
    using ids fresh rid it by (intro ids_ok_add_claim) (auto simp: ids_ok_def)
  moreover have "lifecycle_ok db'" unfolding lifecycle_ok_def
  proof (intro conjI ballI \<open>ids_ok db'\<close>)
    fix x assume "x \<in> set (db_orders db')"
    then consider "x \<in> set (db_orders db)" "oo_order_id x \<noteq> oc_order_id c" | "x = r"
      using fresh by (force simp: db')
    then show "let ts = history_of (oo_order_id x) db'; ss = map ot_to_status ts in
      ss \<noteq> [] \<and> last ss = oo_status x \<and> map ot_from_status ts = ''created'' # butlast ss"
      using assms(1) by cases (auto simp: db' lifecycle_ok_def Let_def rid it none)
  qed
  moreover have "lifecycle_of db' = (lifecycle_of db)(oc_order_id c \<mapsto> [oc_initial_status c])"
    by (rule ext) (auto simp: lifecycle_of_def db' rid it none)
  moreover have "lifecycle_of db (oc_order_id c) = None" using fresh by (simp add: lifecycle_of_def)
  ultimately show ?thesis using open_order[of "lifecycle_of db", OF _ init] by simp
qed

lemma transition_step:
  assumes "lifecycle_ok db" "check_transition_command c = Inr ()" "transition_oms_order digest now c db = Inr (db', r)"
  shows "lifecycle_ok db' \<and> (db' = db \<or> lifecycle_step (lifecycle_of db) (lifecycle_of db'))"
proof (cases "get_claim (tc_idempotency_key c) db")
  case (Some claim)
  then show ?thesis using transition_claimed[OF assms(3)] assms(1) by simp
next
  case None
  have ids: "ids_ok db" using assms(1) by (simp add: lifecycle_ok_def)
  let ?o = "tc_order_id c"
  obtain r0 where r0: "get_oms_order ?o db = Some r0" "oo_status r0 = tc_expected_from c"
    and r: "r = r0\<lparr>oo_status := tc_to_status c, oo_updated_at := now\<rparr>"
    and db': "db' = add_claim ''oms_order.transition'' ''oms.order.transitioned'' now r (next_transition digest now c)
      (transition_identity digest c) (tc_idempotency_key c) (transition_fingerprint digest c)
      (db\<lparr>db_orders := update_status ?o (tc_expected_from c) (tc_to_status c) now (db_orders db)\<rparr>)"
    by (rule transition_fresh[OF assms(3) None ids])
  note mem = get_oms_order_SomeD[OF r0(1)]
  then have mem_id: "?o \<in> oo_order_id ` set (db_orders db)" by force
  have nt: "ot_order_id (next_transition digest now c) = ?o" "ot_to_status (next_transition digest now c) = tc_to_status c"
    "ot_from_status (next_transition digest now c) = tc_expected_from c" by (simp_all add: next_transition_def)
  have allowed: "tc_to_status c \<in> set (allowed_from (tc_expected_from c))"
    using assms(2) by (auto simp: check_transition_command_def bind_res_eq_Inr)
  have hist: "map ot_to_status (history_of ?o db) \<noteq> []" "last (map ot_to_status (history_of ?o db)) = tc_expected_from c"
    "map ot_from_status (history_of ?o db) = ''created'' # butlast (map ot_to_status (history_of ?o db))"
    using assms(1) mem r0(2) by (auto simp: lifecycle_ok_def Let_def)
  have "ids_ok db'" unfolding db'
    using ids mem_id nt by (intro ids_ok_add_claim) (auto simp: ids_ok_def)
  moreover have "lifecycle_ok db'" unfolding lifecycle_ok_def
  proof (intro conjI ballI \<open>ids_ok db'\<close>)
    fix x assume "x \<in> set (db_orders db')"
    then obtain y where y: "y \<in> set (db_orders db)" "x = (if oo_order_id y = ?o \<and> oo_status y = tc_expected_from c
        then y\<lparr>oo_status := tc_to_status c, oo_updated_at := now\<rparr> else y)"
      by (auto simp: db' update_status_def)
    have "y = r0" if "oo_order_id y = ?o"
      using ids y(1) mem that by (auto simp: ids_ok_def intro: eq_key_imp_eq_value inj_onD[of oo_order_id "set (db_orders db)"] simp: distinct_map)
    then consider "oo_order_id y = ?o" "x = y\<lparr>oo_status := tc_to_status c, oo_updated_at := now\<rparr>" | "oo_order_id y \<noteq> ?o" "x = y"
      using y(2) r0(2) by (cases "oo_order_id y = ?o") simp_all
    then show "let ts = history_of (oo_order_id x) db'; ss = map ot_to_status ts in
      ss \<noteq> [] \<and> last ss = oo_status x \<and> map ot_from_status ts = ''created'' # butlast ss"
    proof cases
      case 1
      have "butlast (map ot_to_status (history_of ?o db)) @ [tc_expected_from c] = map ot_to_status (history_of ?o db)"
        using hist(1,2) append_butlast_last_id by metis
      then show ?thesis using 1 hist(3) by (simp add: db' Let_def nt butlast_append)
    next
      case 2
      then show ?thesis using assms(1) y(1) by (auto simp: db' lifecycle_ok_def Let_def nt)
    qed
  qed
  moreover have "lifecycle_of db' = (lifecycle_of db)(?o \<mapsto> map ot_to_status (history_of ?o db) @ [tc_to_status c])"
    using mem_id by (intro ext) (simp add: lifecycle_of_def db' nt)
  moreover have "lifecycle_of db ?o = Some (map ot_to_status (history_of ?o db))" using mem_id by (simp add: lifecycle_of_def)
  ultimately show ?thesis using move_order[of "lifecycle_of db" ?o] allowed hist(2) by metis
qed

lemma command_step:
  assumes "lifecycle_ok db" "run_command digest now c db = Inr (db', r)"
  shows "lifecycle_ok db' \<and> (db' = db \<or> lifecycle_step (lifecycle_of db) (lifecycle_of db'))"
proof (cases c)
  case (CreateOrder x)
  then show ?thesis using assms create_step[OF assms(1), of x digest now db' r] by (simp add: run_command_def bind_res_eq_Inr)
next
  case (TransitionOrder x)
  then show ?thesis using assms transition_step[OF assms(1), of x digest now db' r] by (simp add: run_command_def bind_res_eq_Inr)
qed

text \<open>An invariant of single commands is an invariant of histories.\<close>

lemma run_commands_invariant:
  assumes "P db" "\<And>db now c db' r. P db \<Longrightarrow> run_command digest now c db = Inr (db', r) \<Longrightarrow> P db'"
  shows "P (run_commands digest cmds db)"
  using assms by (induction digest cmds db rule: run_commands.induct) (auto split: sum.splits prod.splits)

lemma lifecycle_ok_reachable: "db_reachable digest db \<Longrightarrow> lifecycle_ok db"
  unfolding db_reachable_def
proof (elim exE ssubst, rule run_commands_invariant)
  show "lifecycle_ok empty_db" by (simp add: lifecycle_ok_def ids_ok_def empty_db_def)
qed (use command_step in blast)

section \<open>A small history\<close>

text \<open>An order that starts staged and is submitted, for the concrete instances below.\<close>

definition sample_order :: oms_order_command where
  "sample_order = \<lparr>oc_idempotency_key = ''k1'', oc_order_id = ''O1'', oc_symbol = ''600000'', oc_side = ''BUY'',
     oc_asset_class = ''stock'', oc_quantity = Num (Decimal 7 0), oc_order_type = ''market'', oc_limit_price = None,
     oc_initial_status = ''staged'', oc_broker_submission_enabled = False, oc_source = ''test'', oc_source_ref = None,
     oc_payload = [(''b'', JNum 1), (''a'', JStr ''x'')], oc_transition_reason = ''created'', oc_transition_actor = None,
     oc_transition_payload = []\<rparr>"

definition sample_digest :: "string \<Rightarrow> string" where
  "sample_digest s = replicate 64
     (if s = canonical_json (JMap (order_identity_payload sample_order)) then CHR ''b'' else CHR ''a'')"

definition sample_submit :: oms_transition_command where
  "sample_submit = \<lparr>tc_idempotency_key = ''k2'', tc_order_id = ''O1'', tc_expected_from = ''staged'',
     tc_to_status = ''submitted'', tc_reason = ''sent'', tc_actor = None, tc_payload = [(''n'', JNum 1)]\<rparr>"

definition sample_cancel :: oms_transition_command where
  "sample_cancel = \<lparr>tc_idempotency_key = ''k3'', tc_order_id = ''O1'', tc_expected_from = ''staged'',
     tc_to_status = ''cancelled'', tc_reason = ''withdrawn'', tc_actor = None, tc_payload = []\<rparr>"

definition sample_row :: oms_order where
  "sample_row = new_order_row sample_digest ''t1'' sample_order ''7'' None"

definition sample_db :: oms_db where
  "sample_db = add_claim ''oms_order.create'' ''oms.order.created'' ''t1'' sample_row
     (initial_transition sample_digest ''t1'' sample_order) (order_identity sample_digest sample_order) ''k1''
     (order_fingerprint sample_digest sample_order) (empty_db\<lparr>db_orders := [sample_row]\<rparr>)"

lemma length_sample_digest [simp]: "length (content_fingerprint sample_digest d) = 64"
  by (simp add: content_fingerprint_def sample_digest_def)

lemma sample_checks:
  "check_order_command sample_order = Inr ()" "check_transition_command sample_submit = Inr ()"
  "check_transition_command sample_cancel = Inr ()"
  by code_simp+

lemma sample_created: "run_command sample_digest ''t1'' (CreateOrder sample_order) empty_db = Inr (sample_db, sample_row)"
proof -
  have q: "decimal_text ''quantity'' False (Some (oc_quantity sample_order)) = Inr (Some ''7'')"
    "decimal_text ''limit_price'' True (oc_limit_price sample_order) = Inr None" by code_simp+
  have keys: "oc_idempotency_key sample_order = ''k1''" "oc_order_id sample_order = ''O1''"
    "oo_order_id sample_row = ''O1''" by (simp_all add: sample_order_def sample_row_def new_order_row_def)
  show ?thesis
    by (simp add: run_command_def sample_checks create_oms_order_def Let_def get_claim_def get_oms_order_by_intent_key_def
        get_oms_order_def require_oms_order_def require_oms_transition_def insert_transition_def insert_oms_event_def
        insert_claim_def q keys order_fingerprint_def sample_db_def add_claim_def events_of_def empty_db_def
        sample_row_def[symmetric])
qed

lemma sample_submitted:
  "\<exists>db r. run_command sample_digest ''t2'' (TransitionOrder sample_submit) sample_db = Inr (db, r) \<and> oo_status r = ''submitted''"
proof -
  have keys: "tc_idempotency_key sample_submit = ''k2''" "tc_order_id sample_submit = ''O1''"
    "tc_expected_from sample_submit = ''staged''" "tc_to_status sample_submit = ''submitted''"
    "oo_order_id sample_row = ''O1''" "oo_status sample_row = ''staged''"
    by (simp_all add: sample_order_def sample_submit_def sample_row_def new_order_row_def)
  show ?thesis
    by (simp add: run_command_def sample_checks transition_oms_order_def Let_def get_claim_def update_status_def
        get_oms_order_def require_oms_order_def require_oms_transition_def insert_transition_def insert_oms_event_def
        insert_claim_def keys transition_fingerprint_def sample_db_def add_claim_def empty_db_def)
qed

lemma sample_reachable: "db_reachable sample_digest sample_db"
  unfolding db_reachable_def by (rule exI[of _ "[(''t1'', CreateOrder sample_order)]"]) (simp add: sample_created)

section \<open>Properties of the lifecycle\<close>

lemma run_commands_append:
  "run_commands digest (cs @ ds) db = run_commands digest ds (run_commands digest cs db)"
  by (induction digest cs db rule: run_commands.induct) simp_all

lemma db_reachable_step:
  assumes "db_reachable digest db" "run_command digest now c db = Inr (db', r)"
  shows "db_reachable digest db'"
proof -
  obtain cmds where "db = run_commands digest cmds empty_db" using assms(1) by (auto simp: db_reachable_def)
  then have "db' = run_commands digest (cmds @ [(now, c)]) empty_db" using assms(2) by (simp add: run_commands_append)
  then show ?thesis unfolding db_reachable_def by blast
qed

text \<open>C20: the order tables implement the lifecycle. From any reachable database, a command that succeeds either
  changes nothing or is one step of the abstract lifecycle: it opens a new order in an initial status or
  moves one order along an allowed transition; and the status of every row is the last of its history.\<close>

theorem oms_refines_lifecycle:
  assumes "db_reachable digest db" "run_command digest now c db = Inr (db', r)"
  shows "(db' = db \<or> lifecycle_step (lifecycle_of db) (lifecycle_of db')) \<and>
    (\<forall>x \<in> set (db_orders db'). \<exists>ss. lifecycle_of db' (oo_order_id x) = Some ss \<and> ss \<noteq> [] \<and> last ss = oo_status x)"
proof -
  note step = command_step[OF lifecycle_ok_reachable[OF assms(1)] assms(2)]
  then have "lifecycle_ok db'" by blast
  then have "\<exists>ss. lifecycle_of db' (oo_order_id x) = Some ss \<and> ss \<noteq> [] \<and> last ss = oo_status x" if "x \<in> set (db_orders db')" for x
    using that by (auto simp: lifecycle_ok_def lifecycle_of_def Let_def)
  with step show ?thesis by blast
qed

lemma oms_refines_lifecycle_witness:
  "\<exists>db r. run_command sample_digest ''t2'' (TransitionOrder sample_submit) sample_db = Inr (db, r) \<and>
    (db = sample_db \<or> lifecycle_step (lifecycle_of sample_db) (lifecycle_of db))"
  using sample_submitted oms_refines_lifecycle[OF sample_reachable] by blast

text \<open>Two commands cannot both move an order out of the same status. After one transition has succeeded, another
  command that expects the status the order has left fails, whatever its target.\<close>

theorem racing_transition_fails:
  assumes "db_reachable digest db" "run_command digest now (TransitionOrder a) db = Inr (db', r)"
    and "get_claim (tc_idempotency_key a) db = None" "tc_to_status a \<noteq> tc_expected_from a"
    and "tc_order_id b = tc_order_id a" "tc_expected_from b = tc_expected_from a"
    and "get_claim (tc_idempotency_key b) db = None" "tc_idempotency_key b \<noteq> tc_idempotency_key a"
  shows "\<exists>e. run_command digest now' (TransitionOrder b) db' = Inl e"
proof (rule ccontr)
  assume "\<nexists>e. run_command digest now' (TransitionOrder b) db' = Inl e"
  then obtain db'' r' where b: "transition_oms_order digest now' b db' = Inr (db'', r')"
    by (cases "run_command digest now' (TransitionOrder b) db'") (auto simp: run_command_def bind_res_eq_Inr)
  have a: "transition_oms_order digest now a db = Inr (db', r)"
    using assms(2) by (simp add: run_command_def bind_res_eq_Inr)
  have ids: "ids_ok db" using lifecycle_ok_reachable[OF assms(1)] by (simp add: lifecycle_ok_def)
  obtain r0 where r: "r = r0\<lparr>oo_status := tc_to_status a, oo_updated_at := now\<rparr>" "get_oms_order (tc_order_id a) db = Some r0"
    "oo_status r0 = tc_expected_from a"
    and db': "db' = add_claim ''oms_order.transition'' ''oms.order.transitioned'' now r (next_transition digest now a)
      (transition_identity digest a) (tc_idempotency_key a) (transition_fingerprint digest a)
      (db\<lparr>db_orders := update_status (tc_order_id a) (tc_expected_from a) (tc_to_status a) now (db_orders db)\<rparr>)"
    by (rule transition_fresh[OF a assms(3) ids])
  have "get_oms_order (tc_order_id a) db' = Some r"
    using r find_update_status[of "tc_order_id a" "db_orders db" r0 "tc_expected_from a"] by (simp add: get_oms_order_def db')
  moreover have "get_claim (tc_idempotency_key b) db' = None"
    using assms(7,8) unfolding get_claim_None db' add_claim_sel by simp
  ultimately show False using b assms(4-6) r(1)
    by (simp add: transition_oms_order_def Let_def require_oms_order_def)
qed

lemma racing_transition_fails_example:
  "\<exists>db r e. run_command sample_digest ''t2'' (TransitionOrder sample_submit) sample_db = Inr (db, r) \<and>
    run_command sample_digest ''t3'' (TransitionOrder sample_cancel) db = Inl e"
proof -
  obtain db r where s: "run_command sample_digest ''t2'' (TransitionOrder sample_submit) sample_db = Inr (db, r)"
    using sample_submitted by blast
  have "get_claim ''k2'' sample_db = None" "get_claim ''k3'' sample_db = None"
    by (simp_all add: get_claim_None sample_db_def empty_db_def)
  then show ?thesis using racing_transition_fails[OF sample_reachable s, of sample_cancel] s
    by (auto simp: sample_submit_def sample_cancel_def)
qed

end
