(* ===== verification/Oms_Replay.thy ===== *)
theory Oms_Replay
  imports Oms_Lifecycle
begin

text \<open>
  What commands on the order tables promise beyond the lifecycle: the rows stay well typed, a command
  that has succeeded can be repeated at any later time without effect, a different command under the
  same key is refused, and through the service only paper orders get past the broker boundary.
\<close>

section \<open>Rows are well typed\<close>

definition positive_column :: "string \<Rightarrow> bool \<Rightarrow> string option \<Rightarrow> bool" where
  "positive_column field allow_none t = (\<exists>d. decimal_from_column field allow_none t = Inr (Some d) \<and> 0 < val d)"

definition row_ok :: "oms_order \<Rightarrow> bool" where
  "row_ok r = (str_strip (oo_order_id r) \<noteq> [] \<and> oo_side r \<in> {''buy'', ''sell''} \<and> oo_order_type r \<in> {''market'', ''limit''} \<and>
     oo_status r \<in> set (dict_keys OMS_ALLOWED_TRANSITIONS) \<and> \<not> oo_broker_submission_enabled r \<and>
     positive_column ''quantity'' False (Some (oo_quantity r)) \<and>
     (oo_order_type r = ''limit'' \<longrightarrow> oo_limit_price r \<noteq> None) \<and>
     (oo_limit_price r \<noteq> None \<longrightarrow> positive_column ''limit_price'' True (oo_limit_price r)))"

lemma allowed_are_statuses: "t \<in> set (allowed_from s) \<Longrightarrow> t \<in> set (dict_keys OMS_ALLOWED_TRANSITIONS)"
  by (auto simp: allowed_from_def dict_get_default_def OMS_ALLOWED_TRANSITIONS_def split: if_splits)

lemma initial_are_statuses: "s \<in> set OMS_INITIAL_STATUSES \<Longrightarrow> s \<in> set (dict_keys OMS_ALLOWED_TRANSITIONS)"
  by (auto simp: OMS_INITIAL_STATUSES_def OMS_ALLOWED_TRANSITIONS_def)

lemma positive_column_stored:
  assumes "decimal_text field allow_none (Some (Num d)) = Inr q" "0 < val d"
  shows "q \<noteq> None \<and> positive_column field allow_none q"
proof -
  obtain t where t: "q = Some t" using assms(1)
    by (auto simp: decimal_text_def decimal_value_def bind_res_eq_Inr Let_def split: if_splits)
  from stored_decimal_read[of field allow_none d t] assms t show ?thesis by (auto simp: positive_column_def)
qed

lemma check_order_command_numbers:
  assumes "check_order_command c = Inr ()"
  shows "\<exists>d. oc_quantity c = Num d \<and> 0 < val d" "oc_limit_price c = None \<or> (\<exists>d. oc_limit_price c = Some (Num d) \<and> 0 < val d)"
    "str_lower (oc_order_type c) = ''limit'' \<Longrightarrow> oc_limit_price c \<noteq> None"
proof -
  obtain q p where q: "decimal_identity (Some (oc_quantity c)) = Inr q" "case q of None \<Rightarrow> False | Some t \<Rightarrow> \<not> text_not_positive t"
    and p: "decimal_identity (oc_limit_price c) = Inr p" "case p of None \<Rightarrow> True | Some t \<Rightarrow> \<not> text_not_positive t"
      "\<not> (str_lower (oc_order_type c) = ''limit'' \<and> p = None)"
    using assms by (auto simp: check_order_command_def bind_res_eq_Inr)
  show "\<exists>d. oc_quantity c = Num d \<and> 0 < val d" using q decimal_identity_positive by (cases q) fastforce+
  show "oc_limit_price c = None \<or> (\<exists>d. oc_limit_price c = Some (Num d) \<and> 0 < val d)"
    using p decimal_identity_positive by (cases p; cases "oc_limit_price c") (fastforce simp: decimal_identity_def split: pynum.splits)+
  show "oc_limit_price c \<noteq> None" if "str_lower (oc_order_type c) = ''limit''"
    using that p by (cases "oc_limit_price c") (auto simp: decimal_identity_def)
qed

lemma row_ok_status:
  "row_ok r \<Longrightarrow> s \<in> set (dict_keys OMS_ALLOWED_TRANSITIONS) \<Longrightarrow> row_ok (r\<lparr>oo_status := s, oo_updated_at := now\<rparr>)"
  by (simp add: row_ok_def)

lemma new_order_row_ok:
  assumes "check_order_command c = Inr ()" "decimal_text ''quantity'' False (Some (oc_quantity c)) = Inr q"
    and "decimal_text ''limit_price'' True (oc_limit_price c) = Inr p"
  shows "row_ok (new_order_row digest now c (the q) p)"
proof -
  note n = check_order_command_numbers[OF assms(1)]
  have basics: "str_strip (oc_order_id c) \<noteq> []" "str_lower (oc_side c) \<in> {''buy'', ''sell''}" "str_lower (oc_order_type c) \<in> {''market'', ''limit''}"
    "oc_initial_status c \<in> set OMS_INITIAL_STATUSES" "\<not> oc_broker_submission_enabled c"
    using assms(1) by (auto simp: check_order_command_def bind_res_eq_Inr required_def)
  obtain d where "oc_quantity c = Num d" "0 < val d" using n(1) by blast
  with positive_column_stored assms(2) have q: "q \<noteq> None" "positive_column ''quantity'' False q" by metis+
  have p: "p = None \<and> oc_limit_price c = None \<or> p \<noteq> None \<and> positive_column ''limit_price'' True p"
  proof (cases "oc_limit_price c")
    case None
    then show ?thesis using assms(3) by (simp add: decimal_text_def decimal_value_def)
  next
    case (Some v)
    then show ?thesis using n(2) positive_column_stored assms(3) by fastforce
  qed
  show ?thesis using basics q p n(3) initial_are_statuses[OF basics(4)]
    by (auto simp: row_ok_def new_order_row_def)
qed

definition rows_ok :: "oms_db \<Rightarrow> bool" where
  "rows_ok db = (ids_ok db \<and> (\<forall>r \<in> set (db_orders db). row_ok r))"

lemma rows_ok_step:
  assumes "lifecycle_ok db" "rows_ok db" "run_command digest now c db = Inr (db', r)"
  shows "rows_ok db'"
proof -
  have ids: "ids_ok db" "ids_ok db'"
    using assms(1) command_step[OF assms(1,3)] by (auto simp: lifecycle_ok_def)
  show ?thesis
  proof (cases c)
    case c: (CreateOrder x)
    then have run: "check_order_command x = Inr ()" "create_oms_order digest now x db = Inr (db', r)"
      using assms(3) by (simp_all add: run_command_def bind_res_eq_Inr)
    show ?thesis
    proof (cases "get_claim (oc_idempotency_key x) db")
      case None
      obtain q p where qp: "decimal_text ''quantity'' False (Some (oc_quantity x)) = Inr q"
        "decimal_text ''limit_price'' True (oc_limit_price x) = Inr p" "r = new_order_row digest now x (the q) p"
        "db' = add_claim ''oms_order.create'' ''oms.order.created'' now r (initial_transition digest now x)
          (order_identity digest x) (oc_idempotency_key x) (order_fingerprint digest x) (db\<lparr>db_orders := db_orders db @ [r]\<rparr>)"
        by (rule create_fresh[OF run(2) None ids(1)])
      then have "row_ok r" using new_order_row_ok[OF run(1)] by simp
      then show ?thesis using qp(4) assms(2) ids(2) by (auto simp: rows_ok_def)
    qed (use create_claimed[OF run(2)] assms(2) in simp)
  next
    case c: (TransitionOrder x)
    then have run: "check_transition_command x = Inr ()" "transition_oms_order digest now x db = Inr (db', r)"
      using assms(3) by (simp_all add: run_command_def bind_res_eq_Inr)
    have to: "tc_to_status x \<in> set (dict_keys OMS_ALLOWED_TRANSITIONS)"
      using run(1) allowed_are_statuses by (auto simp: check_transition_command_def bind_res_eq_Inr)
    show ?thesis
    proof (cases "get_claim (tc_idempotency_key x) db")
      case None
      obtain r0 where "db' = add_claim ''oms_order.transition'' ''oms.order.transitioned'' now r (next_transition digest now x)
        (transition_identity digest x) (tc_idempotency_key x) (transition_fingerprint digest x)
        (db\<lparr>db_orders := update_status (tc_order_id x) (tc_expected_from x) (tc_to_status x) now (db_orders db)\<rparr>)"
        by (rule transition_fresh[OF run(2) None ids(1)])
      then have "db_orders db' = update_status (tc_order_id x) (tc_expected_from x) (tc_to_status x) now (db_orders db)" by simp
      then show ?thesis using assms(2) ids(2) row_ok_status[OF _ to] by (auto simp: rows_ok_def update_status_def)
    qed (use transition_claimed[OF run(2)] assms(2) in simp)
  qed
qed

definition orders_typed :: "oms_db \<Rightarrow> bool" where
  "orders_typed db = (lifecycle_ok db \<and> rows_ok db)"

lemma orders_typed_reachable:
  assumes "db_reachable digest db"
  shows "orders_typed db"
proof -
  obtain cmds where "db = run_commands digest cmds empty_db" using assms by (auto simp: db_reachable_def)
  moreover have "orders_typed empty_db" by (simp add: orders_typed_def lifecycle_ok_def rows_ok_def ids_ok_def empty_db_def)
  moreover have "orders_typed db2" if "orders_typed db1" "run_command digest now c db1 = Inr (db2, r)" for db1 now c db2 r
    using that rows_ok_step command_step orders_typed_def by blast
  ultimately show ?thesis using run_commands_invariant[of orders_typed empty_db digest cmds] by blast
qed



section \<open>Identities in stored rows\<close>

definition command_key :: "oms_command \<Rightarrow> string" where
  "command_key c = (case c of CreateOrder x \<Rightarrow> oc_idempotency_key x | TransitionOrder x \<Rightarrow> tc_idempotency_key x)"

lemma map_of_filter_hd:
  "map_of xs k = (case filter (\<lambda>p. fst p = k) xs of [] \<Rightarrow> None | p # ps \<Rightarrow> Some (snd p))"
  by (induction xs) auto

lemma map_of_sort_key: "map_of (sort_key fst xs) k = map_of xs k"
  by (subst (1 2) map_of_filter_hd) (simp only: sort_key_stable)

lemma map_of_map_prod: "map_of (map (map_prod id f) xs) k = map_option f (map_of xs k)"
  by (induction xs) auto

lemma dict_get_canon_object: "dict_get (canon_object d) k = map_option canon (dict_get d k)"
  by (simp only: canon_object_def map_of_sort_key map_of_map_prod)

lemma doc_get_canon: "doc_get (canon (JMap ms)) k = map_option canon (dict_get ms k)"
  by (simp only: canon_JMap doc_get_def jdoc.case dict_get_canon_object)

lemma dict_get_with_identity: "dict_get (with_identity p idn) ''command_identity'' = Some (canon idn)"
  by (simp add: with_identity_def dict_get_canon_object)

lemma canon_command_identity:
  "\<exists>ms. canon (command_identity ct key fp) = JMap ms \<and> dict_get ms ''idempotency_key'' = Some (JStr key) \<and>
    dict_get ms ''fingerprint'' = Some (JStr fp)"
proof -
  let ?ms = "[(''command_type'', JStr ct), (''idempotency_key'', JStr key), (''fingerprint'', JStr fp)]"
  have "canon (command_identity ct key fp) = JMap (canon_object ?ms)" by (simp only: command_identity_def canon_JMap)
  moreover have "dict_get (canon_object ?ms) ''idempotency_key'' = Some (JStr key)"
    "dict_get (canon_object ?ms) ''fingerprint'' = Some (JStr fp)" by (simp_all only: dict_get_canon_object) simp_all
  ultimately show ?thesis by blast
qed

lemma stored_identity_has_key:
  "identity_has_key (dict_get (with_identity p (command_identity ct key fp)) ''command_identity'') key' \<longleftrightarrow> key = key'"
  using canon_command_identity[of ct key fp]
  by (auto simp: dict_get_with_identity identity_has_key_def is_object_def doc_get_def)

lemma event_identity_has_key: "identity_has_key (Some (command_identity ct key fp)) key' \<longleftrightarrow> key = key'"
  by (simp add: identity_has_key_def is_object_def doc_get_def command_identity_def)

lemma require_own_identity:
  "require_command_identity (dict_get (with_identity p (command_identity ct key fp)) ''command_identity'') key fp = Inr ()"
  "require_command_identity (Some (command_identity ct key fp)) key fp = Inr ()"
proof -
  show "require_command_identity (dict_get (with_identity p (command_identity ct key fp)) ''command_identity'') key fp = Inr ()"
    using canon_command_identity[of ct key fp]
    by (auto simp: dict_get_with_identity require_command_identity_def is_object_def doc_text_def doc_get_def)
qed (simp add: require_command_identity_def is_object_def doc_text_def doc_get_def command_identity_def)

lemma list_transitions_history: "ids_ok db \<Longrightarrow> list_oms_transitions oid db = history_of oid db"
  unfolding list_oms_transitions_def history_of_def
  by (rule sort_key_id_if_sorted) (simp add: ids_ok_def sorted_filter strict_sorted_imp_sorted)

section \<open>Commands leave the evidence of other commands alone\<close>

definition restatused :: "oms_order \<Rightarrow> oms_order \<Rightarrow> bool" where
  "restatused r r' = (r' = r\<lparr>oo_status := oo_status r', oo_updated_at := oo_updated_at r'\<rparr>)"

lemma restatused_refl [simp]: "restatused r r"
  by (simp add: restatused_def)

lemma restatused_trans: "restatused r s \<Longrightarrow> restatused s t \<Longrightarrow> restatused r t"
  by (cases r; cases s; cases t) (simp add: restatused_def)

definition keeps_rows :: "oms_db \<Rightarrow> oms_db \<Rightarrow> bool" where
  "keeps_rows db db' = (\<forall>oid r. get_oms_order oid db = Some r \<longrightarrow> (\<exists>r'. get_oms_order oid db' = Some r' \<and> restatused r r'))"

lemma keeps_rows_append: "keeps_rows db (db\<lparr>db_orders := db_orders db @ rows\<rparr>)"
  by (auto simp: keeps_rows_def get_oms_order_def find_append)

lemma keeps_rows_update: "keeps_rows db (db\<lparr>db_orders := update_status oid s s' now (db_orders db)\<rparr>)"
proof -
  have "\<exists>r'. find (\<lambda>r. oo_order_id r = k) (update_status oid s s' now rows) = Some r' \<and> restatused r r'"
    if "find (\<lambda>r. oo_order_id r = k) rows = Some r" for k r rows
    using that by (induction rows) (auto simp: update_status_def restatused_def split: if_splits)
  then show ?thesis by (simp add: keeps_rows_def get_oms_order_def)
qed

lemma get_oms_order_add_claim [simp]:
  "get_oms_order oid (add_claim ct et now order t idn key fp db) = get_oms_order oid db"
  by (simp add: get_oms_order_def)

text \<open>A fresh command: the shape of the database after it.\<close>

lemma fresh_command:
  assumes "run_command digest now c db = Inr (db', r)" "get_claim (command_key c) db = None" "ids_ok db"
  obtains rows t ct et fp p where "db' = add_claim ct et now r t (command_identity ct (command_key c) fp) (command_key c) fp (db\<lparr>db_orders := rows\<rparr>)"
    "ot_payload t = with_identity p (command_identity ct (command_key c) fp)" "ot_order_id t = oo_order_id r"
    "keeps_rows db (db\<lparr>db_orders := rows\<rparr>)"
proof (cases c)
  case c: (CreateOrder x)
  then have run: "create_oms_order digest now x db = Inr (db', r)" "get_claim (oc_idempotency_key x) db = None"
    using assms by (simp_all add: run_command_def bind_res_eq_Inr command_key_def)
  obtain q p where "r = new_order_row digest now x (the q) p"
    and "db' = add_claim ''oms_order.create'' ''oms.order.created'' now r (initial_transition digest now x)
      (order_identity digest x) (oc_idempotency_key x) (order_fingerprint digest x) (db\<lparr>db_orders := db_orders db @ [r]\<rparr>)"
    by (rule create_fresh[OF run assms(3)])
  then show ?thesis using c keeps_rows_append[of db "[r]"]
    by (intro that[of "''oms_order.create''" "''oms.order.created''" "initial_transition digest now x" "order_fingerprint digest x"
          "db_orders db @ [r]" "oc_transition_payload x"])
      (simp_all add: command_key_def order_identity_def initial_transition_def new_order_row_def)
next
  case c: (TransitionOrder x)
  then have run: "transition_oms_order digest now x db = Inr (db', r)" "get_claim (tc_idempotency_key x) db = None"
    using assms by (simp_all add: run_command_def bind_res_eq_Inr command_key_def)
  obtain r0 where r0: "get_oms_order (tc_order_id x) db = Some r0" "r = r0\<lparr>oo_status := tc_to_status x, oo_updated_at := now\<rparr>"
    and db': "db' = add_claim ''oms_order.transition'' ''oms.order.transitioned'' now r (next_transition digest now x)
      (transition_identity digest x) (tc_idempotency_key x) (transition_fingerprint digest x)
      (db\<lparr>db_orders := update_status (tc_order_id x) (tc_expected_from x) (tc_to_status x) now (db_orders db)\<rparr>)"
    by (rule transition_fresh[OF run assms(3)])
  have "oo_order_id r = tc_order_id x" using get_oms_order_SomeD[OF r0(1)] r0(2) by simp
  then show ?thesis using c db' keeps_rows_update[of db "tc_order_id x" "tc_expected_from x" "tc_to_status x" now]
    by (intro that[of "''oms_order.transition''" "''oms.order.transitioned''" "next_transition digest now x"
          "transition_fingerprint digest x" "update_status (tc_order_id x) (tc_expected_from x) (tc_to_status x) now (db_orders db)"
          "tc_payload x"])
      (simp_all add: command_key_def transition_identity_def next_transition_def)
qed

lemma claimed_command:
  assumes "run_command digest now c db = Inr (db', r)" "get_claim (command_key c) db \<noteq> None"
  shows "db' = db"
  using assms create_claimed transition_claimed
  by (cases c) (auto simp: run_command_def bind_res_eq_Inr command_key_def)

text \<open>The evidence of a claimed command survives every later command.\<close>

definition evidence_kept :: "string \<Rightarrow> oms_db \<Rightarrow> oms_db \<Rightarrow> bool" where
  "evidence_kept key db db' = (get_claim key db' = get_claim key db \<and> keeps_rows db db' \<and>
     (\<forall>oid. find_transition_command oid key db' = find_transition_command oid key db) \<and>
     (\<forall>et oid fp. require_event_command et oid key fp db' = require_event_command et oid key fp db))"

lemma command_keeps_evidence:
  assumes "run_command digest now c db = Inr (db', r)" "get_claim key db \<noteq> None" "lifecycle_ok db"
  shows "evidence_kept key db db'"
proof (cases "get_claim (command_key c) db")
  case (Some claim)
  then show ?thesis using claimed_command[OF assms(1)] by (auto simp: evidence_kept_def keeps_rows_def intro: restatused_refl)
next
  case None
  have ids: "ids_ok db" "ids_ok db'" using assms(3) command_step[OF assms(3,1)] by (auto simp: lifecycle_ok_def)
  obtain rows t ct et fp p where db': "db' = add_claim ct et now r t (command_identity ct (command_key c) fp) (command_key c) fp (db\<lparr>db_orders := rows\<rparr>)"
    and t: "ot_payload t = with_identity p (command_identity ct (command_key c) fp)" "ot_order_id t = oo_order_id r"
    and rows: "keeps_rows db (db\<lparr>db_orders := rows\<rparr>)" by (rule fresh_command[OF assms(1) None ids(1)])
  have key: "command_key c \<noteq> key" using None assms(2) by auto
  have "get_claim key db' = get_claim key db"
    using key by (auto simp: get_claim_def db' add_claim_def find_append split: option.splits)
  moreover have "keeps_rows db db'" using rows by (simp add: keeps_rows_def db')
  moreover have "find_transition_command oid key db' = find_transition_command oid key db" for oid
  proof -
    have "history_of oid db' = history_of oid db @ (if ot_order_id t = oid then [t\<lparr>ot_id := db_sequence db + 1\<rparr>] else [])"
      by (simp add: db')
    then show ?thesis using key
      by (simp add: find_transition_command_def list_transitions_history ids t(1) stored_identity_has_key)
  qed
  moreover have "require_event_command ev oid key fp' db' = require_event_command ev oid key fp' db" for ev oid fp'
    using key by (simp add: require_event_command_def db' events_of_def event_identity_has_key)
  ultimately show ?thesis by (simp add: evidence_kept_def)
qed

lemma replay_after_command:
  assumes "evidence_kept (command_key c) db db'" "get_claim (command_key c) db \<noteq> None"
    and "run_command digest now c db = Inr (db, r)"
  shows "\<exists>r'. run_command digest now' c db' = Inr (db', r') \<and> restatused r r'"
proof (cases c)
  case c: (CreateOrder x)
  obtain claim where claim: "get_claim (oc_idempotency_key x) db = Some claim" using assms(2) c by (auto simp: command_key_def)
  have run: "check_order_command x = Inr ()" "create_oms_order digest now x db = Inr (db, r)"
    using assms(3) c by (simp_all add: run_command_def bind_res_eq_Inr)
  then have r: "get_oms_order (oc_order_id x) db = Some r" using create_claimed claim by auto
  with assms(1) obtain r' where r': "get_oms_order (oc_order_id x) db' = Some r'" "restatused r r'"
    unfolding evidence_kept_def keeps_rows_def by blast
  have "require_create_replay digest r' x db' = require_create_replay digest r x db"
  proof -
    obtain s u where su: "r' = r\<lparr>oo_status := s, oo_updated_at := u\<rparr>" using r'(2) unfolding restatused_def by blast
    have f: "find_transition_command oid (oc_idempotency_key x) db' = find_transition_command oid (oc_idempotency_key x) db"
      "require_event_command et oid (oc_idempotency_key x) fp db' = require_event_command et oid (oc_idempotency_key x) fp db"
      for oid et fp using assms(1) c by (simp_all add: evidence_kept_def command_key_def)
    have price: "oo_limit_price (r\<lparr>oo_status := s, oo_updated_at := u\<rparr>) = oo_limit_price r" by simp
    show ?thesis unfolding require_create_replay_def Let_def su f price by simp
  qed
  then have "create_oms_order digest now' x db' = Inr (db', r')"
    using run(2) claim r r'(1) assms(1) c
    by (auto simp: create_oms_order_def Let_def bind_res_eq_Inr require_oms_order_def evidence_kept_def command_key_def)
  then show ?thesis using c run(1) r'(2) by (simp add: run_command_def)
next
  case c: (TransitionOrder x)
  obtain claim where claim: "get_claim (tc_idempotency_key x) db = Some claim" using assms(2) c by (auto simp: command_key_def)
  have run: "check_transition_command x = Inr ()" "transition_oms_order digest now x db = Inr (db, r)"
    using assms(3) c by (simp_all add: run_command_def bind_res_eq_Inr)
  then have r: "get_oms_order (tc_order_id x) db = Some r" using transition_claimed claim by auto
  with assms(1) obtain r' where r': "get_oms_order (tc_order_id x) db' = Some r'" "restatused r r'"
    unfolding evidence_kept_def keeps_rows_def by blast
  have "require_transition_replay digest t x db' = require_transition_replay digest t x db" for t
    using assms(1) c by (simp add: require_transition_replay_def evidence_kept_def command_key_def Let_def)
  then have "transition_oms_order digest now' x db' = Inr (db', r')"
    using run(2) claim r r'(1) assms(1) c
    by (auto simp: transition_oms_order_def Let_def bind_res_eq_Inr require_oms_order_def evidence_kept_def command_key_def
        split: option.splits)
  then show ?thesis using c run(1) r'(2) by (simp add: run_command_def)
qed

lemma replay_after_history:
  assumes "lifecycle_ok db" "get_claim (command_key c) db \<noteq> None" "run_command digest now c db = Inr (db, r)"
  shows "\<exists>r'. run_command digest now' c (run_commands digest cmds db) = Inr (run_commands digest cmds db, r') \<and> restatused r r'"
  using assms
proof (induction cmds arbitrary: db r now)
  case Nil
  have "evidence_kept (command_key c) db db" by (auto simp: evidence_kept_def keeps_rows_def)
  from replay_after_command[OF this Nil.prems(2,3)] show ?case by simp
next
  case (Cons cmd cmds)
  obtain n a where cmd: "cmd = (n, a)" by (cases cmd)
  show ?case
  proof (cases "run_command digest n a db")
    case (Inl e)
    then show ?thesis using Cons cmd by simp
  next
    case (Inr res)
    obtain db1 ra where run: "run_command digest n a db = Inr (db1, ra)" using Inr by (cases res) auto
    note ev = command_keeps_evidence[OF run Cons.prems(2,1)]
    obtain r1 where r1: "run_command digest now c db1 = Inr (db1, r1)" "restatused r r1"
      using replay_after_command[OF ev Cons.prems(2,3)] by blast
    have "get_claim (command_key c) db1 \<noteq> None" using ev Cons.prems(2) by (simp add: evidence_kept_def)
    from Cons.IH[OF _ this r1(1)] command_step[OF Cons.prems(1) run] r1(2) restatused_trans cmd run
    show ?thesis by fastforce
  qed
qed

section \<open>A fresh command can be repeated\<close>

definition replayable :: "jobject \<Rightarrow> bool" where
  "replayable p = (wf_doc (JMap p) \<and> ''command_identity'' \<notin> set (dict_keys p))"

lemma with_identity_payload:
  assumes "replayable p"
  shows "py_eq (dict_del ''command_identity'' (with_identity p idn)) p"
proof -
  let ?k = "''command_identity''"
  have absent: "dict_put ?k idn p = p @ [(?k, idn)]"
    using assms by (intro dict_put_absent) (simp add: replayable_def map_of_eq_None_iff)
  have "filter (\<lambda>q. fst q \<noteq> ?k) (map (map_prod id canon) (p @ [(?k, idn)])) = map (map_prod id canon) p"
    using assms by (force simp: replayable_def filter_id_conv)
  then have "dict_del ?k (with_identity p idn) = canon_object p"
    unfolding dict_del_def with_identity_def absent canon_object_def filter_sort by simp
  then show ?thesis using py_eq_canon_object assms by (simp add: replayable_def)
qed

definition replayable_command :: "oms_command \<Rightarrow> bool" where
  "replayable_command c = (case c of CreateOrder x \<Rightarrow> replayable (oc_payload x) \<and> replayable (oc_transition_payload x)
     | TransitionOrder x \<Rightarrow> replayable (tc_payload x))"

lemma stored_value_same:
  assumes "decimal_text field allow_none v = Inr q"
  shows "\<exists>d. decimal_from_column field allow_none q = Inr d \<and> same_decimal d v"
proof (cases v)
  case None
  then show ?thesis using assms
    by (auto simp: decimal_text_def decimal_value_def decimal_from_column_def same_decimal_def split: if_splits)
next
  case (Some n)
  then obtain x t where x: "n = Num x" "q = Some t" using assms
    by (cases n) (auto simp: decimal_text_def decimal_value_def bind_res_eq_Inr Let_def split: if_splits)
  from stored_decimal_read[of field allow_none x t] assms x Some show ?thesis
    by (auto simp: same_decimal_def deq_val)
qed

lemma own_transition_found:
  assumes "ids_ok (add_claim ct et now r t idn key fp db)" "ot_order_id t = oid" "ids_ok db \<or> True"
    and "identity_has_key (dict_get (ot_payload t) ''command_identity'') key"
  shows "find_transition_command oid key (add_claim ct et now r t idn key fp db) = Some (t\<lparr>ot_id := db_sequence db + 1\<rparr>)"
  using assms by (simp add: find_transition_command_def list_transitions_history)

lemma own_event_found:
  assumes "oo_order_id r = oid" "idn = command_identity ct key fp"
  shows "require_event_command et oid key fp (add_claim ct et now r t idn key fp db) = Inr ()"
  using assms by (simp add: require_event_command_def events_of_def event_identity_has_key require_own_identity)

lemma own_claim_found:
  assumes "get_claim key db = None"
  shows "\<exists>claim. get_claim key (add_claim ct et now r t idn key fp (db\<lparr>db_orders := rows\<rparr>)) = Some claim \<and>
    require_matching_claim claim ct key fp (oo_order_id r) = Inr ()"
  using assms by (simp add: get_claim_def add_claim_def find_append require_matching_claim_def)

lemma create_replays:
  assumes "check_order_command x = Inr ()" "create_oms_order digest now x db = Inr (db', r)"
    and "get_claim (oc_idempotency_key x) db = None" "lifecycle_ok db" "replayable_command (CreateOrder x)"
  shows "create_oms_order digest now' x db' = Inr (db', r)"
proof -
  let ?key = "oc_idempotency_key x" and ?fp = "order_fingerprint digest x" and ?oid = "oc_order_id x"
  have ids: "ids_ok db" "ids_ok db'" using assms(4) create_step[OF assms(4,1,2)] by (auto simp: lifecycle_ok_def)
  obtain q p where qp: "decimal_text ''quantity'' False (Some (oc_quantity x)) = Inr q"
    "decimal_text ''limit_price'' True (oc_limit_price x) = Inr p" and r: "r = new_order_row digest now x (the q) p"
    and new: "get_oms_order ?oid db = None"
    and db': "db' = add_claim ''oms_order.create'' ''oms.order.created'' now r (initial_transition digest now x)
      (order_identity digest x) ?key ?fp (db\<lparr>db_orders := db_orders db @ [r]\<rparr>)"
    by (rule create_fresh[OF assms(2,3) ids(1)])
  have rid: "oo_order_id r = ?oid" by (simp add: r new_order_row_def)
  obtain claim where claim: "get_claim ?key db' = Some claim" "require_matching_claim claim ''oms_order.create'' ?key ?fp ?oid = Inr ()"
    using own_claim_found[OF assms(3)] unfolding db' rid[symmetric] by blast
  have order: "get_oms_order ?oid db' = Some r"
    using new rid by (simp add: db' get_oms_order_def find_append)
  let ?t = "(initial_transition digest now x)\<lparr>ot_id := db_sequence db + 1\<rparr>"
  have found: "find_transition_command ?oid ?key db' = Some ?t"
    using own_transition_found[OF ids(2)[unfolded db'], of ?oid, folded db']
    by (simp add: initial_transition_def order_identity_def stored_identity_has_key)
  have event: "require_event_command ''oms.order.created'' ?oid ?key ?fp db' = Inr ()"
    unfolding db' by (rule own_event_found[OF rid]) (simp add: order_identity_def)
  obtain dq dp where d: "decimal_from_column ''quantity'' False q = Inr dq" "same_decimal dq (Some (oc_quantity x))"
    "decimal_from_column ''limit_price'' True p = Inr dp" "same_decimal dp (oc_limit_price x)"
    using stored_value_same[OF qp(1)] stored_value_same[OF qp(2)] by blast
  have q: "Some (the q) = q" using qp(1)
    by (cases "oc_quantity x") (auto simp: decimal_text_def decimal_value_def bind_res_eq_Inr Let_def split: if_splits)
  have row: "oo_intent_key r = ?key" "oo_symbol r = oc_symbol x" "oo_side r = str_lower (oc_side x)" "oo_asset_class r = oc_asset_class x"
    "oo_order_type r = str_lower (oc_order_type x)" "oo_source r = oc_source x" "oo_source_ref r = oc_source_ref x"
    "Some (oo_quantity r) = q" "oo_limit_price r = p" "oo_broker_submission_enabled r = oc_broker_submission_enabled x"
    "oo_payload r = with_identity (oc_payload x) (order_identity digest x)" by (simp_all add: r new_order_row_def q)
  have t: "ot_order_id ?t = ?oid" "ot_from_status ?t = ''created''" "ot_to_status ?t = oc_initial_status x"
    "ot_reason ?t = oc_transition_reason x" "ot_actor ?t = oc_transition_actor x"
    "ot_payload ?t = with_identity (oc_transition_payload x) (order_identity digest x)" by (simp_all add: initial_transition_def)
  have pay: "py_eq (dict_del ''command_identity'' (with_identity (oc_payload x) (order_identity digest x))) (oc_payload x)"
    "py_eq (dict_del ''command_identity'' (with_identity (oc_transition_payload x) (order_identity digest x))) (oc_transition_payload x)"
    using assms(5) with_identity_payload by (simp_all add: replayable_command_def)
  have idn: "require_command_identity (dict_get (with_identity w (order_identity digest x)) ''command_identity'') ?key ?fp = Inr ()" for w
    by (simp add: order_identity_def require_own_identity)
  have ok: "guard_res True e = Inr ()" for e by simp
  have "require_create_replay digest r x db' = Inr ()"
    unfolding require_create_replay_def Let_def found option.case row rid t idn bind_res_simps d(1,3) event
    by (simp add: d(2,4) pay ok)
  then show ?thesis
    by (simp add: create_oms_order_def Let_def claim require_oms_order_def order)
qed

lemma transition_replays:
  assumes "check_transition_command x = Inr ()" "transition_oms_order digest now x db = Inr (db', r)"
    and "get_claim (tc_idempotency_key x) db = None" "lifecycle_ok db" "replayable_command (TransitionOrder x)"
  shows "transition_oms_order digest now' x db' = Inr (db', r)"
proof -
  let ?key = "tc_idempotency_key x" and ?fp = "transition_fingerprint digest x" and ?oid = "tc_order_id x"
  have ids: "ids_ok db" "ids_ok db'" using assms(4) transition_step[OF assms(4,1,2)] by (auto simp: lifecycle_ok_def)
  obtain r0 where r0: "get_oms_order ?oid db = Some r0" "oo_status r0 = tc_expected_from x"
    "r = r0\<lparr>oo_status := tc_to_status x, oo_updated_at := now\<rparr>"
    and db': "db' = add_claim ''oms_order.transition'' ''oms.order.transitioned'' now r (next_transition digest now x)
      (transition_identity digest x) ?key ?fp
      (db\<lparr>db_orders := update_status ?oid (tc_expected_from x) (tc_to_status x) now (db_orders db)\<rparr>)"
    by (rule transition_fresh[OF assms(2,3) ids(1)])
  have rid: "oo_order_id r = ?oid" using get_oms_order_SomeD[OF r0(1)] r0(3) by simp
  obtain claim where claim: "get_claim ?key db' = Some claim" "require_matching_claim claim ''oms_order.transition'' ?key ?fp ?oid = Inr ()"
    using own_claim_found[OF assms(3)] unfolding db' rid[symmetric] by blast
  have order: "get_oms_order ?oid db' = Some r"
    using r0 find_update_status[of ?oid "db_orders db" r0 "tc_expected_from x"] by (simp add: db' get_oms_order_def)
  let ?t = "(next_transition digest now x)\<lparr>ot_id := db_sequence db + 1\<rparr>"
  have found: "find_transition_command ?oid ?key db' = Some ?t"
    using own_transition_found[OF ids(2)[unfolded db'], of ?oid, folded db']
    by (simp add: next_transition_def transition_identity_def stored_identity_has_key)
  have event: "require_event_command ''oms.order.transitioned'' ?oid ?key ?fp db' = Inr ()"
    unfolding db' by (rule own_event_found[OF rid]) (simp add: transition_identity_def)
  have t: "ot_order_id ?t = ?oid" "ot_from_status ?t = tc_expected_from x" "ot_to_status ?t = tc_to_status x"
    "ot_reason ?t = tc_reason x" "ot_actor ?t = tc_actor x"
    "ot_payload ?t = with_identity (tc_payload x) (transition_identity digest x)" by (simp_all add: next_transition_def)
  have pay: "py_eq (dict_del ''command_identity'' (with_identity (tc_payload x) (transition_identity digest x))) (tc_payload x)"
    using assms(5) with_identity_payload by (simp add: replayable_command_def)
  have idn: "require_command_identity (dict_get (with_identity w (transition_identity digest x)) ''command_identity'') ?key ?fp = Inr ()" for w
    by (simp add: transition_identity_def require_own_identity)
  have ok: "guard_res True e = Inr ()" for e by simp
  have "require_transition_replay digest ?t x db' = Inr ()"
    unfolding require_transition_replay_def Let_def t idn bind_res_simps event by (simp add: pay ok)
  then show ?thesis
    by (simp add: transition_oms_order_def Let_def claim found require_oms_order_def order)
qed

lemma fresh_command_claims:
  assumes "run_command digest now c db = Inr (db', r)" "get_claim (command_key c) db = None" "ids_ok db"
  shows "get_claim (command_key c) db' \<noteq> None"
proof -
  obtain rows t ct et fp where "db' = add_claim ct et now r t (command_identity ct (command_key c) fp) (command_key c) fp (db\<lparr>db_orders := rows\<rparr>)"
    by (rule fresh_command[OF assms]) blast
  then have "map ol_command_key (db_claims db') = map ol_command_key (db_claims db) @ [command_key c]"
    by (simp only: add_claim_sel) simp
  then have "command_key c \<in> set (map ol_command_key (db_claims db'))" by simp
  then show ?thesis unfolding get_claim_None by blast
qed

lemma fresh_command_replays:
  assumes "run_command digest now c db = Inr (db', r)" "get_claim (command_key c) db = None" "lifecycle_ok db" "replayable_command c"
  shows "run_command digest now' c db' = Inr (db', r)"
proof (cases c)
  case c: (CreateOrder x)
  then have x: "check_order_command x = Inr ()" "create_oms_order digest now x db = Inr (db', r)" "get_claim (oc_idempotency_key x) db = None"
    using assms(1,2) by (simp_all add: run_command_def bind_res_eq_Inr command_key_def)
  from create_replays[OF x assms(3) assms(4)[unfolded c]] x(1) show ?thesis by (simp add: run_command_def c)
next
  case c: (TransitionOrder x)
  then have x: "check_transition_command x = Inr ()" "transition_oms_order digest now x db = Inr (db', r)" "get_claim (tc_idempotency_key x) db = None"
    using assms(1,2) by (simp_all add: run_command_def bind_res_eq_Inr command_key_def)
  from transition_replays[OF x assms(3) assms(4)[unfolded c]] x(1) show ?thesis by (simp add: run_command_def c)
qed

text \<open>C23: a command can be repeated. Once a command has succeeded, running it again after any further history of
  commands, successful or not, succeeds, changes nothing, and returns the same order with its current
  status. The payload of the command must not use the reserved member \<open>command_identity\<close>.\<close>

theorem repeated_command_has_no_effect:
  assumes "db_reachable digest db" "run_command digest now c db = Inr (db', r)" "replayable_command c"
  shows "\<exists>r'. run_command digest now' c (run_commands digest cmds db') = Inr (run_commands digest cmds db', r') \<and>
    r' = r\<lparr>oo_status := oo_status r', oo_updated_at := oo_updated_at r'\<rparr>"
proof -
  have ok: "lifecycle_ok db" "lifecycle_ok db'"
    using lifecycle_ok_reachable[OF assms(1)] command_step[OF _ assms(2)] by auto
  obtain n where "run_command digest n c db' = Inr (db', r)" "get_claim (command_key c) db' \<noteq> None"
  proof (cases "get_claim (command_key c) db")
    case None
    then show ?thesis
      using that fresh_command_replays[OF assms(2) None ok(1) assms(3)] fresh_command_claims[OF assms(2) None] ok(1)
      unfolding lifecycle_ok_def by blast
  next
    case (Some claim)
    then show ?thesis using that claimed_command[OF assms(2)] assms(2) by auto
  qed
  from replay_after_history[OF ok(2) this(2,1)] show ?thesis unfolding restatused_def .
qed

lemma repeated_command_has_no_effect_witness:
  "\<exists>db r. run_command sample_digest ''t2'' (TransitionOrder sample_submit) sample_db = Inr (db, r) \<and>
    (\<exists>r'. run_command sample_digest ''t9'' (CreateOrder sample_order) db = Inr (db, r') \<and> oo_symbol r' = ''600000'')"
proof -
  obtain db r where s: "run_command sample_digest ''t2'' (TransitionOrder sample_submit) sample_db = Inr (db, r)"
    using sample_submitted by blast
  have empty: "db_reachable sample_digest empty_db" unfolding db_reachable_def by (rule exI[of _ "[]"]) simp
  have "replayable_command (CreateOrder sample_order)" by (simp add: replayable_command_def replayable_def sample_order_def)
  from repeated_command_has_no_effect[OF empty sample_created this, of "''t9''" "[(''t2'', TransitionOrder sample_submit)]"] s
  obtain r' where r': "run_command sample_digest ''t9'' (CreateOrder sample_order) db = Inr (db, r')"
    "r' = sample_row\<lparr>oo_status := oo_status r', oo_updated_at := oo_updated_at r'\<rparr>" by auto
  have "oo_symbol r' = ''600000''"
    by (subst r'(2)) (simp add: sample_row_def new_order_row_def sample_order_def)
  with s r'(1) show ?thesis by blast
qed

section \<open>A different command under the same key\<close>

definition command_type :: "oms_command \<Rightarrow> string" where
  "command_type c = (case c of CreateOrder x \<Rightarrow> ''oms_order.create'' | TransitionOrder x \<Rightarrow> ''oms_order.transition'')"

definition identity_payload :: "oms_command \<Rightarrow> jdoc" where
  "identity_payload c = JMap (case c of CreateOrder x \<Rightarrow> order_identity_payload x | TransitionOrder x \<Rightarrow> transition_identity_payload x)"

definition command_fingerprint :: "(string \<Rightarrow> string) \<Rightarrow> oms_command \<Rightarrow> string" where
  "command_fingerprint digest c = content_fingerprint digest (identity_payload c)"

lemma success_matches_claim:
  assumes "run_command digest now c db = Inr (db', r)" "lifecycle_ok db"
  shows "\<exists>claim. get_claim (command_key c) db' = Some claim \<and> ol_command_type claim = command_type c \<and>
    ol_fingerprint claim = command_fingerprint digest c"
proof (cases "get_claim (command_key c) db")
  case (Some claim)
  then have "require_matching_claim claim (command_type c) (command_key c) (command_fingerprint digest c)
      (case c of CreateOrder x \<Rightarrow> oc_order_id x | TransitionOrder x \<Rightarrow> tc_order_id x) = Inr ()"
    using assms(1)
    by (cases c) (auto simp: run_command_def bind_res_eq_Inr command_key_def command_type_def command_fingerprint_def
        identity_payload_def create_oms_order_def transition_oms_order_def order_fingerprint_def transition_fingerprint_def Let_def)
  then have "ol_command_type claim = command_type c" "ol_fingerprint claim = command_fingerprint digest c"
    by (auto simp: require_matching_claim_def split: if_splits)
  then show ?thesis using Some claimed_command[OF assms(1)] by auto
next
  case None
  have ids: "ids_ok db" using assms(2) by (simp add: lifecycle_ok_def)
  show ?thesis
  proof (cases c)
    case c: (CreateOrder x)
    then have x: "create_oms_order digest now x db = Inr (db', r)" "get_claim (oc_idempotency_key x) db = None"
      using assms(1) None by (simp_all add: run_command_def bind_res_eq_Inr command_key_def)
    show ?thesis by (rule create_fresh[OF x ids]) (use x(2) c in \<open>simp add: get_claim_def add_claim_def find_append command_key_def
          command_type_def command_fingerprint_def identity_payload_def order_fingerprint_def\<close>)
  next
    case c: (TransitionOrder x)
    then have x: "transition_oms_order digest now x db = Inr (db', r)" "get_claim (tc_idempotency_key x) db = None"
      using assms(1) None by (simp_all add: run_command_def bind_res_eq_Inr command_key_def)
    show ?thesis by (rule transition_fresh[OF x ids]) (use x(2) c in \<open>simp add: get_claim_def add_claim_def find_append command_key_def
          command_type_def command_fingerprint_def identity_payload_def transition_fingerprint_def\<close>)
  qed
qed

lemma claim_kept:
  "lifecycle_ok db \<Longrightarrow> get_claim key db = Some claim \<Longrightarrow> get_claim key (run_commands digest cmds db) = Some claim"
proof (induction digest cmds db rule: run_commands.induct)
  case (2 digest now c cs db)
  show ?case
  proof (cases "run_command digest now c db")
    case (Inr res)
    obtain db1 r where res: "res = (db1, r)" by (cases res)
    then have "evidence_kept key db db1" "lifecycle_ok db1"
      using command_keeps_evidence[of digest now c db db1 r key] command_step[of db digest now c db1 r] 2 Inr by auto
    then show ?thesis using 2 Inr res by (simp add: evidence_kept_def)
  qed (use 2 in simp)
qed simp

lemma command_needs_matching_claim:
  assumes "get_claim (command_key c) db = Some claim" "run_command digest now c db = Inr (db', r)"
  shows "ol_command_type claim = command_type c \<and> ol_fingerprint claim = command_fingerprint digest c"
  using assms
  by (cases c) (auto simp: run_command_def bind_res_eq_Inr command_key_def command_type_def command_fingerprint_def
      identity_payload_def create_oms_order_def transition_oms_order_def order_fingerprint_def transition_fingerprint_def Let_def
      require_matching_claim_def split: if_splits)

text \<open>C24: a key names one command. After a command has succeeded, and after any further history, a command with the
  same key but another content is refused and changes nothing, provided the hash does not collide on the two
  contents. The contents are compared as documents: the order of their members does not matter.\<close>

theorem key_is_bound_to_content:
  assumes "db_reachable digest db" "run_command digest now a db = Inr (db', r)" "command_key b = command_key a"
    and "wf_doc (identity_payload a)" "wf_doc (identity_payload b)" "\<not> same_doc (identity_payload a) (identity_payload b)"
    and "digest (canonical_json (identity_payload a)) = digest (canonical_json (identity_payload b)) \<longrightarrow>
      canonical_json (identity_payload a) = canonical_json (identity_payload b)"
  shows "\<exists>e. run_command digest now' b (run_commands digest cmds db') = Inl e"
proof (rule ccontr)
  assume "\<nexists>e. run_command digest now' b (run_commands digest cmds db') = Inl e"
  then obtain db'' r' where b: "run_command digest now' b (run_commands digest cmds db') = Inr (db'', r')"
    by (cases "run_command digest now' b (run_commands digest cmds db')") auto
  have ok: "lifecycle_ok db" "lifecycle_ok db'"
    using lifecycle_ok_reachable[OF assms(1)] command_step[OF _ assms(2)] by auto
  obtain claim where c: "get_claim (command_key a) db' = Some claim" "ol_fingerprint claim = command_fingerprint digest a"
    using success_matches_claim[OF assms(2) ok(1)] by blast
  from claim_kept[OF ok(2) c(1)] have "get_claim (command_key b) (run_commands digest cmds db') = Some claim"
    using assms(3) by simp
  from command_needs_matching_claim[OF this b] c(2)
  have "command_fingerprint digest a = command_fingerprint digest b" by simp
  then have "canonical_json (identity_payload a) = canonical_json (identity_payload b)"
    using assms(7) by (simp add: command_fingerprint_def content_fingerprint_def)
  then show False using assms(4-6) canonical_json_inj canon_eq_iff by blast
qed

lemma key_is_bound_to_content_witness:
  "\<exists>e. run_command sample_digest ''t9'' (CreateOrder (sample_order\<lparr>oc_symbol := ''600001''\<rparr>)) sample_db = Inl e"
proof -
  let ?a = "CreateOrder sample_order" and ?b = "CreateOrder (sample_order\<lparr>oc_symbol := ''600001''\<rparr>)"
  have empty: "db_reachable sample_digest empty_db" unfolding db_reachable_def by (rule exI[of _ "[]"]) simp
  have key: "command_key ?b = command_key ?a" by (simp add: command_key_def)
  have wf: "wf_doc (identity_payload ?a)" "wf_doc (identity_payload ?b)"
    by (auto simp: identity_payload_def order_identity_payload_def sample_order_def identity_text_def opt_doc_def
        split: sum.splits option.splits)
  have diff: "\<not> same_doc (identity_payload ?a) (identity_payload ?b)"
    by (simp add: identity_payload_def order_identity_payload_def sample_order_def)
  have coll: "sample_digest (canonical_json (identity_payload ?a)) = sample_digest (canonical_json (identity_payload ?b)) \<longrightarrow>
      canonical_json (identity_payload ?a) = canonical_json (identity_payload ?b)"
    by (simp add: sample_digest_def identity_payload_def)
  from key_is_bound_to_content[OF empty sample_created key wf diff coll, of "''t9''" "[]"] show ?thesis by simp
qed

end
