(* ===== verification/Oms_Boundary.thy ===== *)
theory Oms_Boundary
  imports Oms_Replay
begin

text \<open>
  Two properties of the service as a whole: whatever operations are called, only paper orders get past
  the broker boundary; and no order is stuck, since a short sequence of commands reconciles it.
\<close>

section \<open>Histories of service operations\<close>

datatype service_op =
    OpenIntent order_request string "string option" jobject
  | OpenPaper order_request "string option" string "string option" "string list" string
  | MoveOrder string string string "string option" "string option" jobject "string option" "string option"

fun run_service :: "(string \<Rightarrow> string) \<Rightarrow> string \<Rightarrow> service_op \<Rightarrow> oms_db \<Rightarrow> (oms_db \<times> oms_order) res" where
  "run_service digest now (OpenIntent rq source source_ref payload) db =
     create_order_intent digest now rq source source_ref payload db"
| "run_service digest now (OpenPaper rq order_id run_id source_ref refs source) db =
     create_paper_shadow_order digest now rq order_id run_id source_ref refs source db"
| "run_service digest now (MoveOrder order_id to reason actor source evidence expected_from key) db =
     transition_order digest now order_id to reason actor source evidence expected_from key db"

fun run_services :: "(string \<Rightarrow> string) \<Rightarrow> (string \<times> service_op) list \<Rightarrow> oms_db \<Rightarrow> oms_db" where
  "run_services digest [] db = db"
| "run_services digest ((now, op) # ops) db = run_services digest ops
     (case run_service digest now op db of Inl e \<Rightarrow> db | Inr (db', r) \<Rightarrow> db')"

definition MANUAL_STATUSES :: "string list" where
  "MANUAL_STATUSES = [''awaiting_manual_confirmation'', ''manually_confirmed'', ''broker_submission_blocked'',
     ''manual_ticket_created'', ''cancelled'', ''reconciled'']"

lemma manual_statuses_closed: "s \<in> set MANUAL_STATUSES \<Longrightarrow> t \<in> set (allowed_from s) \<Longrightarrow> t \<in> set MANUAL_STATUSES"
  by (auto simp: MANUAL_STATUSES_def allowed_from_def dict_get_default_def OMS_ALLOWED_TRANSITIONS_def)

definition paper_bound :: "oms_order \<Rightarrow> bool" where
  "paper_bound r = (is_paper_shadow_order r \<and>
     dict_get (oo_payload r) ''does_not_submit_broker_order'' = Some (JTruth True) \<and>
     dict_get (oo_payload r) ''does_not_mutate_production_ledger'' = Some (JTruth True))"

definition boundary_ok :: "oms_db \<Rightarrow> bool" where
  "boundary_ok db = (lifecycle_ok db \<and> (\<forall>r \<in> set (db_orders db). paper_bound r \<or> oo_status r \<in> set MANUAL_STATUSES))"

lemma create_boundary:
  assumes "boundary_ok db" "run_command digest now (CreateOrder x) db = Inr (db', r)"
    and "oc_initial_status x \<in> set MANUAL_STATUSES \<or> (\<exists>run ref refs. oc_payload x = paper_payload run ref refs)"
  shows "boundary_ok db'"
proof -
  have ok: "lifecycle_ok db" "lifecycle_ok db'"
    using assms(1) command_step[OF _ assms(2)] by (auto simp: boundary_ok_def)
  have run: "create_oms_order digest now x db = Inr (db', r)" using assms(2) by (simp add: run_command_def bind_res_eq_Inr)
  show ?thesis
  proof (cases "get_claim (oc_idempotency_key x) db")
    case None
    have ids: "ids_ok db" using ok(1) by (simp add: lifecycle_ok_def)
    obtain q p where r: "r = new_order_row digest now x (the q) p" and "db' = add_claim ''oms_order.create'' ''oms.order.created'' now r
        (initial_transition digest now x) (order_identity digest x) (oc_idempotency_key x) (order_fingerprint digest x)
        (db\<lparr>db_orders := db_orders db @ [r]\<rparr>)" by (rule create_fresh[OF run None ids])
    then have orders: "db_orders db' = db_orders db @ [r]" by simp
    have "paper_bound r" if pay: "oc_payload x = paper_payload a b c" for a b c
    proof -
      have "dict_get (oo_payload r) k = map_option canon (dict_get (dict_put ''command_identity'' (order_identity digest x) (paper_payload a b c)) k)" for k
        by (simp add: r new_order_row_def with_identity_def pay dict_get_canon_object)
      moreover have "str_lower PAPER_SHADOW_EXECUTION_MODE = PAPER_SHADOW_EXECUTION_MODE" by code_simp
      ultimately show ?thesis by (simp add: paper_bound_def is_paper_shadow_order_def doc_text_def doc_get_def paper_payload_def)
    qed
    then have "paper_bound r \<or> oo_status r \<in> set MANUAL_STATUSES" using assms(3) by (auto simp: r new_order_row_def)
    then show ?thesis using assms(1) ok(2) orders by (auto simp: boundary_ok_def)
  qed (use create_claimed[OF run] assms(1) in simp)
qed

lemma transition_boundary:
  assumes "boundary_ok db" "run_command digest now (TransitionOrder x) db = Inr (db', r)"
  shows "boundary_ok db'"
proof -
  have ok: "lifecycle_ok db" "lifecycle_ok db'"
    using assms(1) command_step[OF _ assms(2)] by (auto simp: boundary_ok_def)
  have run: "check_transition_command x = Inr ()" "transition_oms_order digest now x db = Inr (db', r)"
    using assms(2) by (simp_all add: run_command_def bind_res_eq_Inr)
  have allowed: "tc_to_status x \<in> set (allowed_from (tc_expected_from x))"
    using run(1) by (auto simp: check_transition_command_def bind_res_eq_Inr)
  show ?thesis
  proof (cases "get_claim (tc_idempotency_key x) db")
    case None
    have ids: "ids_ok db" using ok(1) by (simp add: lifecycle_ok_def)
    obtain r0 where "db' = add_claim ''oms_order.transition'' ''oms.order.transitioned'' now r (next_transition digest now x)
        (transition_identity digest x) (tc_idempotency_key x) (transition_fingerprint digest x)
        (db\<lparr>db_orders := update_status (tc_order_id x) (tc_expected_from x) (tc_to_status x) now (db_orders db)\<rparr>)"
      by (rule transition_fresh[OF run(2) None ids])
    then have orders: "db_orders db' = update_status (tc_order_id x) (tc_expected_from x) (tc_to_status x) now (db_orders db)" by simp
    have "paper_bound (y\<lparr>oo_status := s, oo_updated_at := now\<rparr>) = paper_bound y" for y s
      by (simp add: paper_bound_def is_paper_shadow_order_def)
    then show ?thesis using assms(1) ok(2) orders manual_statuses_closed[OF _ allowed]
      by (auto simp: boundary_ok_def update_status_def)
  qed (use transition_claimed[OF run(2)] assms(1) in simp)
qed

lemma service_boundary:
  assumes "boundary_ok db" "run_service digest now op db = Inr (db', r)"
  shows "boundary_ok db'"
proof (cases op)
  case (OpenIntent rq s sr p)
  then show ?thesis using assms create_boundary[OF assms(1)]
    by (force simp: create_order_intent_def bind_res_eq_Inr INITIAL_STATUS_def MANUAL_STATUSES_def)
next
  case (OpenPaper rq oid run sr refs s)
  then show ?thesis using assms create_boundary[OF assms(1)]
    by (force simp: create_paper_shadow_order_def bind_res_eq_Inr Let_def)
next
  case (MoveOrder oid to reason actor s ev ef key)
  then show ?thesis using assms transition_boundary[OF assms(1)]
    by (auto simp: transition_order_def Let_def split: option.splits if_splits)
qed

lemma services_boundary: "boundary_ok db \<Longrightarrow> boundary_ok (run_services digest ops db)"
proof (induction digest ops db rule: run_services.induct)
  case (2 digest now op ops db)
  then show ?case using service_boundary[of db digest now op]
    by (cases "run_service digest now op db") (auto split: prod.splits)
qed simp


definition sample_request :: order_request where
  "sample_request = \<lparr>rq_intent_key = ''k1'', rq_symbol = ''600000'', rq_side = ''buy'', rq_asset_class = ''stock'',
     rq_quantity = Num (Decimal 7 0), rq_order_type = ''market'', rq_limit_price = None\<rparr>"


section \<open>No order is stuck\<close>

lemma fresh_key: "finite S \<Longrightarrow> \<exists>key. key \<notin> S \<and> str_strip key \<noteq> []"
proof -
  assume "finite S"
  have inj: "inj (\<lambda>n. replicate (Suc n) CHR ''k'')" by (rule injI) (metis length_replicate nat.inject)
  have "infinite (range (\<lambda>n. replicate (Suc n) CHR ''k''))" using inj finite_imageD infinite_UNIV_nat by blast
  then obtain n where n: "replicate (Suc n) CHR ''k'' \<notin> S" using \<open>finite S\<close> by (meson finite_subset image_subsetI)
  have "dropWhile is_space (replicate (Suc m) CHR ''k'') = replicate (Suc m) CHR ''k''" for m
    by (simp add: is_space_def)
  then have "str_strip (replicate (Suc n) CHR ''k'') \<noteq> []" unfolding str_strip_def by (metis rev_replicate replicate_empty nat.distinct(1))
  with n show ?thesis by blast
qed

lemma statuses_not_blank: "s \<in> set (dict_keys OMS_ALLOWED_TRANSITIONS) \<Longrightarrow> str_strip s \<noteq> []"
proof -
  have "list_all (\<lambda>s. str_strip s \<noteq> []) (dict_keys OMS_ALLOWED_TRANSITIONS)" by code_simp
  then show "s \<in> set (dict_keys OMS_ALLOWED_TRANSITIONS) \<Longrightarrow> str_strip s \<noteq> []" unfolding list_all_iff by blast
qed

lemma one_row:
  assumes "distinct (map f xs)" "x \<in> set xs" "f x = k" "P x"
  shows "length (filter (\<lambda>r. f r = k \<and> P r) xs) = 1"
  using assms
proof (induction xs)
  case (Cons y xs)
  show ?case
  proof (cases "y = x")
    case True
    then have "filter (\<lambda>r. f r = k \<and> P r) xs = []" 
    proof -
      have "k \<notin> f ` set xs" using Cons.prems True by auto
      then show ?thesis unfolding filter_empty_conv by blast
    qed
    then show ?thesis using True Cons.prems by simp
  next
    case False
    then have "x \<in> set xs" "f y \<noteq> k" using Cons.prems by auto
    then show ?thesis using Cons by simp
  qed
qed simp

lemma transition_possible:
  assumes "orders_typed db" "r \<in> set (db_orders db)" "t \<in> set (allowed_from (oo_status r))" "t \<noteq> ''manually_confirmed''"
    and "\<And>s. length (digest s) = 64"
  shows "\<exists>c db' r'. run_command digest ''now'' c db = Inr (db', r') \<and> r' \<in> set (db_orders db') \<and>
    oo_order_id r' = oo_order_id r \<and> oo_status r' = t"
proof -
  have ids: "ids_ok db" and row: "row_ok r" using assms(1,2) by (auto simp: orders_typed_def rows_ok_def)
  obtain key where key: "key \<notin> set (map ol_command_key (db_claims db))" "str_strip key \<noteq> []"
    using fresh_key[of "set (map ol_command_key (db_claims db))"] by auto
  let ?oid = "oo_order_id r" and ?s = "oo_status r"
  let ?c = "\<lparr>tc_idempotency_key = key, tc_order_id = ?oid, tc_expected_from = ?s, tc_to_status = t,
    tc_reason = ''reason'', tc_actor = None, tc_payload = []\<rparr>"
  have "str_strip ''reason'' \<noteq> []" by code_simp
  moreover have "str_strip ?oid \<noteq> []" "str_strip ?s \<noteq> []" "str_strip t \<noteq> []"
    using row statuses_not_blank allowed_are_statuses[OF assms(3)] unfolding row_ok_def by blast+
  ultimately have blank: "str_strip ?oid \<noteq> []" "str_strip ?s \<noteq> []" "str_strip t \<noteq> []" "str_strip ''reason'' \<noteq> []"
    by blast+
  have check: "check_transition_command ?c = Inr ()"
    using blank key(2) assms(3,4) by (simp add: check_transition_command_def required_def guard_res_def)
  have get: "get_oms_order ?oid db = Some r" using ids assms(2) by (simp add: get_oms_order_iff ids_ok_def)
  have one: "length (filter (\<lambda>x. oo_order_id x = ?oid \<and> oo_status x = ?s) (db_orders db)) = 1"
    by (rule one_row) (use ids assms(2) in \<open>auto simp: ids_ok_def\<close>)
  let ?db1 = "db\<lparr>db_orders := update_status ?oid ?s t ''now'' (db_orders db)\<rparr>"
  let ?db2 = "insert_transition (next_transition digest ''now'' ?c) ?db1"
  let ?r = "r\<lparr>oo_status := t, oo_updated_at := ''now''\<rparr>"
  have "get_oms_order ?oid ?db2 = Some ?r"
    using get find_update_status[of ?oid "db_orders db" r ?s] by (simp add: get_oms_order_def insert_transition_def)
  then have o2: "require_oms_order ?oid ?db2 = Inr ?r" "?r \<in> set (db_orders ?db2)"
    using get_oms_order_SomeD by (simp_all add: require_oms_order_def)
  have "\<forall>t \<in> set (db_transitions ?db1). ot_id t \<le> db_sequence ?db1" using ids by (simp add: ids_ok_def)
  then have t2: "require_oms_transition (db_sequence ?db2) ?db2 =
      Inr ((next_transition digest ''now'' ?c)\<lparr>ot_id := db_sequence ?db1 + 1\<rparr>)" by (rule require_inserted)
  have none: "get_claim key db = None" using key(1) unfolding get_claim_None .
  have fp: "length (transition_fingerprint digest ?c) = 64" by (simp add: transition_fingerprint_def content_fingerprint_def assms(5))
  let ?db3 = "insert_oms_event ''oms.order.transitioned'' ''now'' ?r ((next_transition digest ''now'' ?c)\<lparr>ot_id := db_sequence ?db1 + 1\<rparr>)
      (transition_identity digest ?c) ?db2"
  have "db_claims ?db3 = db_claims db" "db_orders ?db3 = db_orders ?db2"
    by (simp_all add: insert_oms_event_def insert_transition_def)
  then obtain db' where db': "insert_claim ''oms_order.transition'' key (transition_fingerprint digest ?c) ?oid ?r ''now'' ?db3 = Inr db'"
    "db_orders db' = db_orders ?db2" using key(1) fp by (simp add: insert_claim_def)
  have "transition_oms_order digest ''now'' ?c db = Inr (db', ?r)"
    using none get one o2(1) t2 db'(1) by (simp add: transition_oms_order_def Let_def require_oms_order_def[of _ db])
  moreover have "?r \<in> set (db_orders db')" using o2(2) db'(2) by simp
  ultimately have "\<exists>db'. transition_oms_order digest ''now'' ?c db = Inr (db', ?r) \<and> ?r \<in> set (db_orders db')" by blast
  then obtain db' where "run_command digest ''now'' (TransitionOrder ?c) db = Inr (db', ?r)" "?r \<in> set (db_orders db')"
    using check by (auto simp: run_command_def)
  then show ?thesis by (intro exI[of _ "TransitionOrder ?c"] exI[of _ db'] exI[of _ ?r]) simp
qed

lemma way_out:
  assumes "s \<in> set (dict_keys OMS_ALLOWED_TRANSITIONS)"
  shows "s = ''reconciled'' \<or> ''reconciled'' \<in> set (allowed_from s) \<or>
    ''cancelled'' \<in> set (allowed_from s) \<and> ''reconciled'' \<in> set (allowed_from ''cancelled'')"
  using assms by (auto simp: allowed_from_def dict_get_default_def OMS_ALLOWED_TRANSITIONS_def)



end
