(* ===== verification/Ledger.thy ===== *)
theory Ledger
  imports Order_Contracts Positions
begin

text \<open>
  The account ledger and its replay (\<open>server/ledger/models.py\<close>, \<open>server/projections/service.py\<close>,
  \<open>models.py\<close>, \<open>portfolio_projection_values.py\<close>): entries with their exact and legacy numbers, the
  projected positions, and one operation per kind of entry. An entry holds the columns the replay
  reads; its JSON columns are parsed, a timestamp is the instant its text denotes, and texts of numbers
  are in plain notation. A raise abandons the projection, so an operation is a result; messages leave
  out the numbers they quote.
\<close>

section \<open>Entries\<close>

datatype stamp = NoStamp | BadStamp | Stamp timestamp

text \<open>A number is stored twice: as a binary one (given as \<open>Decimal(str(value))\<close>) and as an exact text.\<close>

record stored_number =
  sn_legacy :: "pynum option"
  sn_exact :: "string option"

record ledger_entry =
  le_id :: "int option"
  le_type :: string
  le_timestamp :: stamp
  le_symbol :: "string option"
  le_direction :: "string option"
  le_amount :: stored_number
  le_quantity :: stored_number
  le_price :: stored_number
  le_commission :: stored_number
  le_provenance :: "string option"
  le_fees :: "json_object option"
  le_correction :: "jobject option"
  le_asset_class :: string
  le_source :: string

definition LEGACY_REAL_BACKFILL_PROVENANCE :: string where
  "LEGACY_REAL_BACKFILL_PROVENANCE = ''legacy_real_backfill_v1''"

definition or_empty :: "string option \<Rightarrow> string" where
  "or_empty s = (case s of None \<Rightarrow> [] | Some t \<Rightarrow> t)"

definition normalized :: "string \<Rightarrow> string" where
  "normalized s = str_lower (str_strip s)"

definition entry_decimal :: "ledger_entry \<Rightarrow> string \<Rightarrow> stored_number \<Rightarrow> bool \<Rightarrow> decimal option res" where
  "entry_decimal e field n allow_none =
     (if le_provenance e \<noteq> Some LEGACY_REAL_BACKFILL_PROVENANCE \<and> or_empty (sn_exact n) \<noteq> []
      then decimal_value field allow_none (Some (plain_decimal (or_empty (sn_exact n))))
      else decimal_value field allow_none (sn_legacy n))"

definition require_entry_decimal :: "ledger_entry \<Rightarrow> string \<Rightarrow> stored_number \<Rightarrow> decimal res" where
  "require_entry_decimal e field n = bind_res (entry_decimal e field n False) (\<lambda>v. case v of
       None \<Rightarrow> Inl (ValueError (''Missing '' @ field @ '' on ledger entry'')) | Some d \<Rightarrow> Inr d)"

definition require_text :: "string option \<Rightarrow> string \<Rightarrow> string res" where
  "require_text value field = (if or_empty value = []
     then Inl (ValueError (''Missing '' @ field @ '' on ledger entry'')) else Inr (or_empty value))"

definition str_endswith :: "string \<Rightarrow> string \<Rightarrow> bool" where
  "str_endswith s suffix = (drop (length s - length suffix) s = suffix)"

definition trade_side :: "ledger_entry \<Rightarrow> string" where
  "trade_side e = (let direction = normalized (or_empty (le_direction e)); kind = normalized (le_type e) in
     if direction \<in> {''buy'', ''sell''} then direction
     else if str_endswith kind ''_buy'' \<or> kind = ''buy'' then ''buy''
     else if str_endswith kind ''_sell'' \<or> kind = ''sell'' then ''sell'' else [])"

definition trade_total_fee :: "ledger_entry \<Rightarrow> decimal res" where
  "trade_total_fee e = bind_res (entry_decimal e ''commission'' (le_commission e) False) (\<lambda>c.
     total_trade_fee (case c of Some d \<Rightarrow> d | None \<Rightarrow> DZERO) (le_fees e))"

section \<open>Projected positions\<close>

record projected_position =
  lp_symbol :: string
  lp_quantity :: decimal
  lp_available :: decimal
  lp_frozen :: decimal
  lp_avg_cost :: decimal
  lp_market_value :: decimal
  lp_unrealized :: decimal
  lp_valuation_available :: bool
  lp_valuation_price :: "decimal option"
  lp_realized :: decimal
  lp_commission_paid :: decimal
  lp_broker_basis :: decimal
  lp_broker_unit_cost :: decimal
  lp_broker_difference :: decimal
  lp_broker_method :: "string option"
  lp_broker_status :: "string option"
  lp_closed_at :: "stamp option"

definition new_projected :: "string \<Rightarrow> projected_position" where
  "new_projected s = \<lparr>lp_symbol = s, lp_quantity = DZERO, lp_available = DZERO, lp_frozen = DZERO,
     lp_avg_cost = DZERO, lp_market_value = DZERO, lp_unrealized = DZERO, lp_valuation_available = False,
     lp_valuation_price = None, lp_realized = DZERO, lp_commission_paid = DZERO, lp_broker_basis = DZERO,
     lp_broker_unit_cost = DZERO, lp_broker_difference = DZERO, lp_broker_method = None,
     lp_broker_status = None, lp_closed_at = None\<rparr>"

definition sync_available :: "projected_position \<Rightarrow> projected_position" where
  "sync_available p = p\<lparr>lp_available := dsub (lp_quantity p) (lp_frozen p)\<rparr>"

record projection =
  pj_cash :: decimal
  pj_total_equity :: "decimal option"
  pj_total_deposits :: decimal
  pj_positions :: "(string, projected_position) dict"
  pj_valuation_status :: string
  pj_missing :: "string list"

definition new_projection :: "decimal \<Rightarrow> projection" where
  "new_projection cash = \<lparr>pj_cash = cash, pj_total_equity = Some DZERO, pj_total_deposits = DZERO,
     pj_positions = [], pj_valuation_status = ''complete'', pj_missing = []\<rparr>"

definition position_at :: "projection \<Rightarrow> string \<Rightarrow> projected_position" where
  "position_at pj s = dict_get_default (pj_positions pj) s (new_projected s)"

definition put_position :: "string \<Rightarrow> projected_position \<Rightarrow> projection \<Rightarrow> projection" where
  "put_position s p pj = pj\<lparr>pj_positions := dict_put s p (pj_positions pj)\<rparr>"

definition add_cash :: "decimal \<Rightarrow> projection \<Rightarrow> projection" where
  "add_cash d pj = pj\<lparr>pj_cash := dadd (pj_cash pj) d\<rparr>"

definition sub_cash :: "decimal \<Rightarrow> projection \<Rightarrow> projection" where
  "sub_cash d pj = pj\<lparr>pj_cash := dsub (pj_cash pj) d\<rparr>"

section \<open>Trades\<close>

definition sync_broker_cost_basis :: "projected_position \<Rightarrow> projected_position res" where
  "sync_broker_cost_basis p =
     (if deq (lp_quantity p) DZERO
      then Inr (p\<lparr>lp_broker_unit_cost := DZERO, lp_broker_difference := DZERO, lp_broker_method := None,
        lp_broker_status := None\<rparr>)
      else bind_res (ddiv (lp_broker_basis p) (lp_quantity p)) (\<lambda>unit_cost.
        Inr (p\<lparr>lp_broker_unit_cost := unit_cost,
          lp_broker_difference := dsub (lp_broker_basis p) (dmul (lp_quantity p) (lp_avg_cost p)),
          lp_broker_method := Some ''broker_remaining_cost'',
          lp_broker_status := Some ''projected_from_ledger''\<rparr>)))"

definition apply_buy :: "decimal \<Rightarrow> decimal \<Rightarrow> decimal \<Rightarrow> projected_position \<Rightarrow> projected_position res" where
  "apply_buy quantity price commission p =
     (let added_cost = dadd (dmul quantity price) commission in
      bind_res (moving_average_cost_after_buy (lp_quantity p) (lp_avg_cost p) quantity price commission) (\<lambda>avg.
      bind_res (sync_broker_cost_basis
        (p\<lparr>lp_closed_at := (if deq (lp_quantity p) DZERO then None else lp_closed_at p),
           lp_avg_cost := avg, lp_broker_basis := dadd (lp_broker_basis p) added_cost,
           lp_quantity := dadd (lp_quantity p) quantity,
           lp_commission_paid := dadd (lp_commission_paid p) commission\<rparr>)) (\<lambda>p'.
      Inr (sync_available p'))))"

definition apply_sell ::
  "decimal \<Rightarrow> decimal \<Rightarrow> decimal \<Rightarrow> stamp \<Rightarrow> projected_position \<Rightarrow> projected_position res" where
  "apply_sell quantity price commission closed_at p =
     (if dlt (lp_quantity p) quantity then Inl (ValueError (''Sell quantity exceeds position for '' @ lp_symbol p))
      else
        let net_proceeds = dsub (dmul quantity price) commission;
            sold = p\<lparr>lp_realized := dadd (lp_realized p)
                       (realized_pnl_after_sell (lp_avg_cost p) quantity price commission),
                     lp_commission_paid := dadd (lp_commission_paid p) commission,
                     lp_broker_basis := dsub (lp_broker_basis p) net_proceeds,
                     lp_quantity := dsub (lp_quantity p) quantity\<rparr>;
            flat = (if deq (lp_quantity sold) DZERO
                    then sold\<lparr>lp_avg_cost := DZERO, lp_broker_basis := DZERO, lp_closed_at := Some closed_at\<rparr>
                    else sold)
        in bind_res (sync_broker_cost_basis flat) (\<lambda>p'. Inr (sync_available p')))"

definition apply_trade_entry :: "projection \<Rightarrow> ledger_entry \<Rightarrow> projection res" where
  "apply_trade_entry pj e =
     bind_res (require_text (le_symbol e) ''symbol'') (\<lambda>symbol.
     bind_res (require_entry_decimal e ''quantity'' (le_quantity e)) (\<lambda>quantity.
     bind_res (require_entry_decimal e ''price'' (le_price e)) (\<lambda>price.
     bind_res (trade_total_fee e) (\<lambda>commission.
       if trade_side e = ''buy''
       then bind_res (apply_buy quantity price commission (position_at pj symbol)) (\<lambda>p.
         Inr (put_position symbol p (sub_cash (dadd (dmul quantity price) commission) pj)))
       else if trade_side e = ''sell''
       then bind_res (apply_sell quantity price commission (le_timestamp e) (position_at pj symbol)) (\<lambda>p.
         Inr (put_position symbol p (add_cash (dsub (dmul quantity price) commission) pj)))
       else Inl (ValueError ''Unknown trade direction'')))))"

section \<open>Income, expenses and adjustments\<close>

definition book_realized :: "string \<Rightarrow> (decimal \<Rightarrow> decimal) \<Rightarrow> projection \<Rightarrow> projection" where
  "book_realized symbol f pj = (if symbol = [] then pj
     else let p = position_at pj symbol in put_position symbol (p\<lparr>lp_realized := f (lp_realized p)\<rparr>) pj)"

definition entry_symbol :: "ledger_entry \<Rightarrow> string" where
  "entry_symbol e = str_strip (or_empty (le_symbol e))"

definition apply_cash_income :: "projection \<Rightarrow> ledger_entry \<Rightarrow> projection res" where
  "apply_cash_income pj e = bind_res (require_entry_decimal e ''amount'' (le_amount e)) (\<lambda>amount.
     Inr (book_realized (entry_symbol e) (\<lambda>r. dadd r amount) (add_cash amount pj)))"

definition apply_cash_expense :: "projection \<Rightarrow> ledger_entry \<Rightarrow> projection res" where
  "apply_cash_expense pj e = bind_res (require_entry_decimal e ''amount'' (le_amount e)) (\<lambda>amount.
     Inr (book_realized (entry_symbol e) (\<lambda>r. dsub r amount) (sub_cash amount pj)))"

text \<open>The quantity and the average cost after an adjustment of a position.\<close>

definition adjust_position ::
  "stamp \<Rightarrow> decimal \<Rightarrow> decimal option \<Rightarrow> projected_position \<Rightarrow> projected_position res" where
  "adjust_position now delta price p =
     (let previous = lp_quantity p in
      bind_res (if dlt DZERO delta then
          (case price of
             None \<Rightarrow> Inr (lp_avg_cost p)
           | Some d \<Rightarrow>
               if dlt DZERO previous
               then ddiv (dadd (dmul previous (lp_avg_cost p)) (dmul delta d)) (dadd previous delta)
               else if deq previous DZERO then Inr d else Inr (lp_avg_cost p))
        else Inr (lp_avg_cost p)) (\<lambda>avg.
      let q = dadd previous delta; p1 = p\<lparr>lp_avg_cost := avg, lp_quantity := q\<rparr> in
      Inr (sync_available
        (if deq q DZERO
         then p1\<lparr>lp_avg_cost := DZERO,
           lp_closed_at := (if deq previous DZERO then lp_closed_at p else Some now)\<rparr>
         else if deq previous DZERO then p1\<lparr>lp_closed_at := None\<rparr> else p1))))"

definition apply_manual_adjustment :: "projection \<Rightarrow> ledger_entry \<Rightarrow> projection res" where
  "apply_manual_adjustment pj e =
     bind_res (entry_decimal e ''amount'' (le_amount e) True) (\<lambda>amount.
     let pj1 = (case amount of None \<Rightarrow> pj | Some a \<Rightarrow> add_cash a pj); symbol = entry_symbol e in
     bind_res (entry_decimal e ''quantity'' (le_quantity e) True) (\<lambda>quantity.
       case quantity of
         None \<Rightarrow> Inr pj1
       | Some delta \<Rightarrow>
           if symbol = [] then Inr pj1
           else let p = position_at pj1 symbol in
             if dlt delta DZERO \<and> dlt (lp_quantity p) (dabs delta)
             then Inl (ValueError (''Manual adjustment quantity exceeds position for '' @ symbol))
             else bind_res (entry_decimal e ''price'' (le_price e) True) (\<lambda>price.
               bind_res (adjust_position (le_timestamp e) delta price p) (\<lambda>p'.
                 Inr (put_position symbol p' pj1)))))"

end
