(* ===== verification/Ledger_Replay.thy ===== *)
theory Ledger_Replay
  imports Ledger
begin

text \<open>
  The replay of the ledger: corrections (\<open>server/projections/ledger_projection_correction.py\<close>), the
  order of entries and the dispatch on their kinds, the valuation of positions by quotes
  (\<open>portfolio_projection_values.py\<close>, \<open>quote_status.py\<close>, \<open>server/valuation/service.py\<close>) and the four
  ways the replay is used: the projection, the incremental accumulator, the equity curve and the
  equity series (\<open>server/projections/service.py\<close>). A quote is a bare price or a row; a number in a row
  is \<open>JDec\<close>. The Python text of a container is taken to be its JSON text.
\<close>

section \<open>Corrections\<close>

definition doc_text :: "jdoc \<Rightarrow> string" where
  "doc_text d = (case d of JNil \<Rightarrow> ''None'' | JTruth b \<Rightarrow> if b then ''True'' else ''False''
     | JNum i \<Rightarrow> int_text i | JStr s \<Rightarrow> s | _ \<Rightarrow> jtext d)"

definition doc_truthy :: "jdoc \<Rightarrow> bool" where
  "doc_truthy d = (case d of JNil \<Rightarrow> False | JTruth b \<Rightarrow> b | JNum i \<Rightarrow> i \<noteq> 0 | JStr s \<Rightarrow> s \<noteq> []
     | JArr ds \<Rightarrow> ds \<noteq> [] | JMap ms \<Rightarrow> ms \<noteq> [])"

text \<open>\<open>as_decimal(payload.get(key))\<close>: \<open>Decimal(str(value))\<close>, also for a missing value.\<close>

definition text_decimal :: "string \<Rightarrow> decimal res" where
  "text_decimal t = (case plain_decimal t of Num d \<Rightarrow> Inr d | _ \<Rightarrow> Inl InvalidOperation)"

definition doc_decimal :: "jdoc \<Rightarrow> decimal res" where
  "doc_decimal d = text_decimal (doc_text d)"

definition doc_get :: "jobject \<Rightarrow> string \<Rightarrow> jdoc" where
  "doc_get m k = dict_get_default m k JNil"

definition position_decimal_fields :: "string list" where
  "position_decimal_fields = [''quantity'', ''available_qty'', ''frozen_qty'', ''avg_cost'', ''realized_pnl'',
     ''commission_paid'', ''broker_displayed_cost_basis'', ''broker_displayed_unit_cost'',
     ''broker_cost_basis_difference'']"

text \<open>The accounting state of a position: its nine numbers in that order, and the two labels.\<close>

type_synonym accounting_state = "decimal list \<times> string option \<times> string option"

definition accounting_state :: "projected_position \<Rightarrow> accounting_state" where
  "accounting_state p = ([lp_quantity p, lp_available p, lp_frozen p, lp_avg_cost p, lp_realized p,
     lp_commission_paid p, lp_broker_basis p, lp_broker_unit_cost p, lp_broker_difference p],
     lp_broker_method p, lp_broker_status p)"

definition same_state :: "accounting_state \<Rightarrow> accounting_state \<Rightarrow> bool" where
  "same_state a b = (list_all2 deq (fst a) (fst b) \<and> snd a = snd b)"

definition label_of :: "jdoc \<Rightarrow> string option" where
  "label_of d = (if d = JNil then None else Some (doc_text d))"

definition normalized_position_state :: "jobject \<Rightarrow> accounting_state res" where
  "normalized_position_state raw =
     (if set (dict_keys raw) \<noteq>
         set (''broker_cost_basis_method'' # ''broker_cost_basis_status'' # position_decimal_fields)
      then Inl (ValueError ''Ledger correction position fields are invalid'')
      else bind_res (map_res (\<lambda>k. doc_decimal (doc_get raw k)) position_decimal_fields) (\<lambda>ds.
        Inr (ds, label_of (doc_get raw ''broker_cost_basis_method''),
                 label_of (doc_get raw ''broker_cost_basis_status''))))"

definition set_accounting_state :: "accounting_state \<Rightarrow> projected_position \<Rightarrow> projected_position" where
  "set_accounting_state st p = (case st of (ds, m, s) \<Rightarrow>
     p\<lparr>lp_quantity := ds ! 0, lp_available := ds ! 1, lp_frozen := ds ! 2, lp_avg_cost := ds ! 3,
       lp_realized := ds ! 4, lp_commission_paid := ds ! 5, lp_broker_basis := ds ! 6,
       lp_broker_unit_cost := ds ! 7, lp_broker_difference := ds ! 8, lp_broker_method := m,
       lp_broker_status := s\<rparr>)"

definition LEGACY_DUPLICATE_TYPE :: string where
  "LEGACY_DUPLICATE_TYPE = ''legacy_fund_trade_duplicate_projection_correction''"

definition PROJECTION_CORRECTION_CONTRACTS :: "(string, string \<times> string \<times> string) dict" where
  "PROJECTION_CORRECTION_CONTRACTS =
    [(''controlled_projection_correction'', ''controlled_submission_ledger_correction'',
        ''karkinos.controlled_submission_ledger_correction_plan.v1'', ''Controlled ledger correction''),
     (''manual_trade_projection_correction'', ''manual_trade_correction'',
        ''karkinos.manual_trade_correction_plan.v1'', ''Manual trade correction''),
     (LEGACY_DUPLICATE_TYPE, ''legacy_fund_trade_duplicate_repair'',
        ''karkinos.legacy_fund_trade_duplicate_correction_plan.v1'', ''Legacy fund trade duplicate correction'')]"

definition correction_cash :: "string \<Rightarrow> string \<Rightarrow> jobject \<Rightarrow> decimal \<Rightarrow> decimal res" where
  "correction_cash kind label payload cash =
     bind_res (doc_decimal (dict_get_default payload ''cash_delta'' (JStr ''0''))) (\<lambda>delta.
       if kind = LEGACY_DUPLICATE_TYPE
       then bind_res (doc_decimal (doc_get payload ''cash_before'')) (\<lambda>before.
         bind_res (doc_decimal (doc_get payload ''cash_after'')) (\<lambda>after.
           if doc_get payload ''cash_allocation'' \<noteq> JStr ''ordered_batch_absolute_cash_state_v1''
           then Inl (ValueError (label @ '' cash allocation is invalid''))
           else if \<not> deq cash before then Inl (ValueError (label @ '' cash evidence drifted''))
           else if \<not> deq (dsub after before) delta then Inl (ValueError (label @ '' cash delta is invalid''))
           else Inr after))
       else Inr (dadd cash delta))"

definition correction_closing :: "stamp \<Rightarrow> decimal \<Rightarrow> projected_position \<Rightarrow> projected_position" where
  "correction_closing now previous p =
     (if deq (lp_quantity p) DZERO \<and> \<not> deq previous DZERO then p\<lparr>lp_closed_at := Some now\<rparr>
      else if \<not> deq (lp_quantity p) DZERO \<and> deq previous DZERO then p\<lparr>lp_closed_at := None\<rparr> else p)"

text \<open>The position a correction leaves, from the states its payload names.\<close>

definition correct_position ::
  "stamp \<Rightarrow> string \<Rightarrow> accounting_state \<Rightarrow> projected_position \<Rightarrow> projected_position res" where
  "correct_position now label after p =
     (let p' = correction_closing now (lp_quantity p) (set_accounting_state after p) in
      if \<not> deq (lp_available p') (dsub (lp_quantity p') (lp_frozen p'))
      then Inl (ValueError (label @ '' availability is invalid'')) else Inr p')"

definition apply_correction_payload ::
  "string \<Rightarrow> string \<Rightarrow> stamp \<Rightarrow> string \<Rightarrow> jobject \<Rightarrow> jobject \<Rightarrow> jobject \<Rightarrow> projection \<Rightarrow> projection res" where
  "apply_correction_payload kind label now symbol payload before after pj =
     (let p = position_at pj symbol in
      bind_res (normalized_position_state before) (\<lambda>st.
        if \<not> same_state (accounting_state p) st
        then Inl (ValueError (label @ '' position evidence drifted for '' @ symbol))
        else bind_res (correction_cash kind label payload (pj_cash pj)) (\<lambda>cash.
          bind_res (doc_decimal (dict_get_default payload ''total_deposits_delta'' (JStr ''0''))) (\<lambda>deposits.
            if \<not> deq deposits DZERO then Inl (ValueError (label @ '' cannot change deposits''))
            else bind_res (normalized_position_state after) (\<lambda>target.
              bind_res (correct_position now label target p) (\<lambda>p'.
                Inr (put_position symbol p' (pj\<lparr>pj_cash := cash,
                  pj_total_deposits := dadd (pj_total_deposits pj) deposits\<rparr>))))))))"

definition apply_projection_correction :: "projection \<Rightarrow> ledger_entry \<Rightarrow> string \<Rightarrow> projection res" where
  "apply_projection_correction pj e kind = (case dict_get PROJECTION_CORRECTION_CONTRACTS kind of
       None \<Rightarrow> Inl (KeyError kind)
     | Some (source, schema, label) \<Rightarrow>
         if le_source e \<noteq> source then Inl (ValueError (label @ '' source is invalid''))
         else (case le_correction e of
             None \<Rightarrow> Inl (ValueError (label @ '' payload is missing''))
           | Some payload \<Rightarrow>
               if doc_get payload ''schema_version'' \<noteq> JStr schema
               then Inl (ValueError (label @ '' schema is invalid''))
               else if doc_get payload ''arbitrary_financial_input_used'' \<noteq> JTruth False
               then Inl (ValueError (label @ '' derivation is invalid''))
               else let named = doc_get payload ''symbol'' in
                 bind_res (require_text (Some (if doc_truthy named then doc_text named else [])) ''symbol'') (\<lambda>symbol.
                   if or_empty (le_symbol e) \<noteq> symbol then Inl (ValueError (label @ '' symbol is invalid''))
                   else (case (doc_get payload ''position_before'', doc_get payload ''position_after'') of
                       (JMap before, JMap after) \<Rightarrow>
                         apply_correction_payload kind label (le_timestamp e) symbol payload before after pj
                     | _ \<Rightarrow> Inl (ValueError (label @ '' position state is invalid''))))))"

section \<open>One entry\<close>

definition apply_ledger_entry :: "ledger_entry \<Rightarrow> projection \<Rightarrow> projection res" where
  "apply_ledger_entry e pj =
     (let kind = normalized (le_type e) in
      if kind \<in> {''cash_deposit'', ''deposit''}
      then bind_res (require_entry_decimal e ''amount'' (le_amount e)) (\<lambda>amount.
        Inr ((add_cash amount pj)\<lparr>pj_total_deposits := dadd (pj_total_deposits pj) amount\<rparr>))
      else if kind \<in> {''cash_withdraw'', ''cash_withdrawal'', ''withdraw''}
      then bind_res (require_entry_decimal e ''amount'' (le_amount e)) (\<lambda>amount.
        Inr ((sub_cash amount pj)\<lparr>pj_total_deposits := dsub (pj_total_deposits pj) amount\<rparr>))
      else if kind \<in> {''trade_buy'', ''buy'', ''trade'', ''trade_sell'', ''sell''} then apply_trade_entry pj e
      else if kind \<in> {''dividend'', ''cash_interest'', ''interest_income''} then apply_cash_income pj e
      else if kind = ''fee'' then apply_cash_expense pj e
      else if kind = ''manual_adjustment'' then apply_manual_adjustment pj e
      else if kind \<in> set (dict_keys PROJECTION_CORRECTION_CONTRACTS) then apply_projection_correction pj e kind
      else Inl (ValueError ''Unsupported ledger entry_type''))"

definition entry_sort_key :: "ledger_entry \<Rightarrow> (timestamp \<times> int) res" where
  "entry_sort_key e = (case le_timestamp e of
       NoStamp \<Rightarrow> Inl (ValueError ''Ledger entry timestamp is missing'')
     | BadStamp \<Rightarrow> Inl (ValueError ''Ledger entry timestamp is invalid'')
     | Stamp t \<Rightarrow> Inr (t, case le_id e of None \<Rightarrow> 0 | Some i \<Rightarrow> i))"

definition replay_key :: "ledger_entry \<Rightarrow> timestamp \<times> int" where
  "replay_key e = (case entry_sort_key e of Inr k \<Rightarrow> k | Inl _ \<Rightarrow> (0, 0))"

definition sorted_entries :: "ledger_entry list \<Rightarrow> ledger_entry list res" where
  "sorted_entries es = bind_res (map_res entry_sort_key es) (\<lambda>_. Inr (sort_key replay_key es))"

definition replay_ledger :: "decimal \<Rightarrow> ledger_entry list \<Rightarrow> projection res" where
  "replay_ledger cash es = bind_res (sorted_entries es) (\<lambda>es'. fold_res apply_ledger_entry es' (new_projection cash))"

end
