(* ===== verification/Ledger_Valuation.thy ===== *)
theory Ledger_Valuation
  imports Ledger_Replay
begin

text \<open>
  The valuation of replayed positions (\<open>server/projections/portfolio_projection_values.py\<close>,
  \<open>quote_status.py\<close>, \<open>server/valuation/service.py\<close>, \<open>position_presence.py\<close>) and the uses of the replay
  in \<open>server/projections/service.py\<close>: the projection, the incremental accumulator, the equity curve and
  the equity series. A quote is a bare price or a row (\<open>JObject\<close>); a binary number is \<open>JDec\<close>. The kind
  and the date of a price do not enter its authority and are left out.
\<close>

section \<open>Quotes\<close>

definition json_truthy :: "json \<Rightarrow> bool" where
  "json_truthy v = (case v of JNull \<Rightarrow> False | JText s \<Rightarrow> s \<noteq> [] | JDec d \<Rightarrow> coeff d \<noteq> 0 | JInt n \<Rightarrow> n \<noteq> 0
     | JBool b \<Rightarrow> b | JTexts ts \<Rightarrow> ts \<noteq> [] | JObject m \<Rightarrow> m \<noteq> [])"

text \<open>\<open>str(value or "")\<close>; the text of a value that is no text is none of the labels that are compared.\<close>

definition json_label :: "json \<Rightarrow> string" where
  "json_label v = (case v of JText s \<Rightarrow> s | _ \<Rightarrow> if json_truthy v then ''?'' else [])"

definition quote_field :: "json_object \<Rightarrow> string \<Rightarrow> json" where
  "quote_field q k = dict_get_default q k JNull"

fun first_truthy :: "json list \<Rightarrow> json" where
  "first_truthy [] = JNull"
| "first_truthy (v # vs) = (if json_truthy v \<or> vs = [] then v else first_truthy vs)"

definition MISSING_VALUATION_STATUSES :: "string list" where
  "MISSING_VALUATION_STATUSES = [''missing'', ''error'', ''conflicting'', ''conflict'', ''unknown'']"

definition DEGRADED_VALUATION_STATUSES :: "string list" where
  "DEGRADED_VALUATION_STATUSES =
    [''stale'', ''estimated'', ''confirmed_nav_missing'', ''confirmed_fund_nav_missing_estimate_only'']"

definition KNOWN_QUOTE_STATUSES :: "string list" where
  "KNOWN_QUOTE_STATUSES =
    [''live'', ''confirmed'', ''fresh'', ''healthy'', ''cache'', ''cached'', ''cache_only'',
     ''cache_only_after_market_data_permission_fallback''] @ DEGRADED_VALUATION_STATUSES"

definition FUND_ESTIMATE_QUOTE_SOURCES :: "string list" where
  "FUND_ESTIMATE_QUOTE_SOURCES = [''eastmoney_fund_estimate'', ''sina_fund_estimate'']"

definition PUBLISHED_FUND_NAV_QUOTE_SOURCES :: "string list" where
  "PUBLISHED_FUND_NAV_QUOTE_SOURCES = [''eastmoney_fund_page'', ''tushare_fund_nav'']"

definition is_fund_estimate_quote_source :: "string \<Rightarrow> bool" where
  "is_fund_estimate_quote_source s = (normalized s \<in> set FUND_ESTIMATE_QUOTE_SOURCES)"

definition quote_source_name :: "json_object \<Rightarrow> string" where
  "quote_source_name q = normalized (json_label (first_truthy
     [quote_field q ''quote_source'', quote_field q ''source'', quote_field q ''provider_name'', quote_field q ''provider'']))"

definition quote_asset_class :: "json_object \<Rightarrow> string" where
  "quote_asset_class q = normalized (json_label (first_truthy [quote_field q ''asset_class'', quote_field q ''asset_type'']))"

text \<open>\<open>price in {None, "", 0, 0.0}\<close>: a list or an object cannot be hashed.\<close>

definition no_price :: "json \<Rightarrow> bool res" where
  "no_price v = (case v of JTexts _ \<Rightarrow> Inl (TypeError ''unhashable type: list'')
     | JObject _ \<Rightarrow> Inl (TypeError ''unhashable type: dict'') | _ \<Rightarrow> Inr (\<not> json_truthy v))"

definition pricing_authority :: "json_object \<Rightarrow> string res" where
  "pricing_authority q =
     (let status = normalized (json_label (quote_field q ''quote_status'')); source = quote_source_name q;
          raw_type = (if json_truthy (quote_field q ''instrument_type'') then json_label (quote_field q ''instrument_type'')
                      else quote_asset_class q);
          kind = str_replace_char CHR ''-'' CHR ''_'' (str_lower raw_type);
          is_fund = (kind \<in> {''fund'', ''open_end_fund'', ''openend_fund''})
      in if status \<in> {''conflict'', ''conflicting''} then Inr ''conflicting''
         else bind_res (no_price (quote_field q ''price'')) (\<lambda>absent.
           if absent \<or> status \<in> set MISSING_VALUATION_STATUSES then Inr ''missing''
           else if source \<in> {''manual'', ''manual_mark'', ''manual_valuation''} then Inr ''non_authoritative''
           else if is_fund \<and> (is_fund_estimate_quote_source source \<or> status = ''estimated'')
           then Inr ''non_authoritative''
           else if is_fund \<and> status \<in> {''confirmed_nav_missing'', ''confirmed_fund_nav_missing_estimate_only''}
           then Inr ''missing''
           else if is_fund
           then (let observed = str_lower (if json_truthy (quote_field q ''observed_quote_status'')
                   then json_label (quote_field q ''observed_quote_status'') else status) in
             Inr (if source \<in> set PUBLISHED_FUND_NAV_QUOTE_SOURCES \<or> observed = ''confirmed''
                  then ''authoritative'' else ''missing''))
           else Inr (if kind \<in> {''stock'', ''etf''} then ''authoritative'' else ''unknown'')))"

definition quote_valuation_status :: "json_object \<Rightarrow> string res" where
  "quote_valuation_status q =
     (let raw = json_label (quote_field q ''quote_status'');
          status = normalized (if raw = [] then ''live'' else raw)
      in if status \<in> set MISSING_VALUATION_STATUSES \<or> status \<notin> set KNOWN_QUOTE_STATUSES then Inr ''missing''
         else if status \<in> set DEGRADED_VALUATION_STATUSES \<or> is_fund_estimate_quote_source (quote_source_name q)
         then Inr ''degraded''
         else bind_res (pricing_authority q) (\<lambda>a.
           Inr (if a \<in> {''missing'', ''non_authoritative'', ''conflicting''} then ''degraded'' else ''complete'')))"

definition json_decimal :: "json \<Rightarrow> decimal res" where
  "json_decimal v = (case v of JDec d \<Rightarrow> Inr d | JInt n \<Rightarrow> Inr (dec_of_int n) | JText t \<Rightarrow> text_decimal t
     | _ \<Rightarrow> Inl InvalidOperation)"

type_synonym quotes = "(string, json) dict"

definition priced :: "json \<Rightarrow> decimal option res" where
  "priced v = bind_res (no_price v) (\<lambda>absent.
     if absent then Inr None else bind_res (json_decimal v) (\<lambda>d. Inr (Some d)))"

definition quote_price :: "quotes \<Rightarrow> string \<Rightarrow> decimal option res" where
  "quote_price quotes symbol = (case dict_get quotes symbol of
       None \<Rightarrow> Inr None
     | Some (JObject q) \<Rightarrow> bind_res (quote_valuation_status q) (\<lambda>status.
         if status \<noteq> ''complete'' then Inr None else priced (quote_field q ''price''))
     | Some v \<Rightarrow> priced v)"

section \<open>Valuation\<close>

definition value_position :: "decimal \<Rightarrow> decimal \<Rightarrow> decimal \<Rightarrow> decimal \<times> decimal" where
  "value_position quantity avg_cost price =
     (let market_value = dmul quantity price in (market_value, dsub market_value (dmul quantity avg_cost)))"

definition value_one :: "quotes \<Rightarrow> string \<times> projected_position \<Rightarrow> (string \<times> projected_position) res" where
  "value_one quotes = (\<lambda>(s, p). bind_res (quote_price quotes s) (\<lambda>price. Inr (s, case price of
       None \<Rightarrow> p\<lparr>lp_market_value := DZERO, lp_unrealized := DZERO,
         lp_valuation_available := deq (lp_quantity p) DZERO, lp_valuation_price := None\<rparr>
     | Some d \<Rightarrow> (case value_position (lp_quantity p) (lp_avg_cost p) d of (mv, unrealized) \<Rightarrow>
         p\<lparr>lp_market_value := mv, lp_unrealized := unrealized, lp_valuation_available := True,
           lp_valuation_price := Some d\<rparr>))))"

definition missing_symbols :: "(string, projected_position) dict \<Rightarrow> string list" where
  "missing_symbols ps = sort (remdups (map fst (filter (\<lambda>(s, p). \<not> lp_valuation_available p) ps)))"

definition apply_valuations :: "quotes \<Rightarrow> projection \<Rightarrow> projection res" where
  "apply_valuations quotes pj = bind_res (map_res (value_one quotes) (pj_positions pj)) (\<lambda>ps.
     let missing = missing_symbols ps in
     Inr (pj\<lparr>pj_positions := ps, pj_missing := missing,
       pj_valuation_status := (if missing = [] then ''complete'' else ''blocked'')\<rparr>))"

definition market_values :: "projection \<Rightarrow> decimal list" where
  "market_values pj = map lp_market_value (dict_values (pj_positions pj))"

definition build_portfolio_projection :: "decimal \<Rightarrow> quotes \<Rightarrow> ledger_entry list \<Rightarrow> projection res" where
  "build_portfolio_projection cash quotes es =
     bind_res (replay_ledger cash es) (\<lambda>pj.
     bind_res (apply_valuations quotes pj) (\<lambda>pj'.
     Inr (pj'\<lparr>pj_total_equity := (if pj_missing pj' \<noteq> [] then None
       else Some (dadd (pj_cash pj') (dsum (market_values pj'))))\<rparr>)))"

section \<open>Buckets\<close>

definition POSITION_QUANTITY_ZERO_TOLERANCE :: decimal where
  "POSITION_QUANTITY_ZERO_TOLERANCE = Decimal 5 (- 7)"

definition is_economically_zero_quantity :: "decimal \<Rightarrow> bool" where
  "is_economically_zero_quantity q = dle (dabs q) POSITION_QUANTITY_ZERO_TOLERANCE"

datatype bucket = Stocks | Funds | Others

definition equity_bucket :: "string option \<Rightarrow> bucket option" where
  "equity_bucket asset_class =
     (let t = normalized (if or_empty asset_class = [] then ''stock'' else or_empty asset_class) in
      if t = ''stock'' then Some Stocks
      else if t \<in> {''fund'', ''etf'', ''open_end_fund''} then Some Funds
      else if t \<in> {''bond'', ''gold''} then Some Others else None)"

type_synonym buckets = "bucket \<Rightarrow> decimal option"

definition add_to_bucket ::
  "(string, string) dict \<Rightarrow> string \<times> projected_position \<Rightarrow> (bucket \<Rightarrow> decimal) \<Rightarrow> bucket \<Rightarrow> decimal" where
  "add_to_bucket classes = (\<lambda>(s, p) totals.
     if is_economically_zero_quantity (lp_quantity p) then totals
     else (case equity_bucket (dict_get classes s) of
         None \<Rightarrow> totals | Some b \<Rightarrow> totals(b := dadd (totals b) (lp_market_value p))))"

definition bucket_position_values :: "projection \<Rightarrow> (string, string) dict \<Rightarrow> bucket \<Rightarrow> decimal" where
  "bucket_position_values pj classes = fold (add_to_bucket classes) (pj_positions pj) (\<lambda>_. DZERO)"

definition bucket_availability :: "projection \<Rightarrow> (string, string) dict \<Rightarrow> buckets" where
  "bucket_availability pj classes =
     (if \<exists>s \<in> set (pj_missing pj). equity_bucket (dict_get classes s) = None then (\<lambda>_. None)
      else (\<lambda>b. if \<exists>s \<in> set (pj_missing pj). equity_bucket (dict_get classes s) = Some b then None
        else Some (bucket_position_values pj classes b)))"

section \<open>The accumulator\<close>

record accumulator =
  ac_projection :: projection
  ac_classes :: "(string, string) dict"
  ac_count :: nat

record replay_valuation =
  rv_cash :: decimal
  rv_total :: "decimal option"
  rv_buckets :: buckets
  rv_unrealized :: "decimal option"
  rv_missing :: "string list"

definition new_accumulator :: "decimal \<Rightarrow> accumulator" where
  "new_accumulator cash = \<lparr>ac_projection = new_projection cash, ac_classes = [], ac_count = 0\<rparr>"

definition active_symbols :: "accumulator \<Rightarrow> string list" where
  "active_symbols a = sort (map fst (filter (\<lambda>(s, p). \<not> is_economically_zero_quantity (lp_quantity p))
     (pj_positions (ac_projection a))))"

definition accumulate :: "ledger_entry \<Rightarrow> accumulator \<Rightarrow> accumulator res" where
  "accumulate e a =
     bind_res (if entry_symbol e = [] then Inr (ac_classes a)
       else bind_res (from_persisted (PText (le_asset_class e))) (\<lambda>t.
         Inr (dict_put (entry_symbol e) (instrument_type_value t) (ac_classes a)))) (\<lambda>classes.
     bind_res (apply_ledger_entry e (ac_projection a)) (\<lambda>pj.
     Inr \<lparr>ac_projection = pj, ac_classes = classes, ac_count = Suc (ac_count a)\<rparr>))"

definition bucket_total :: "decimal \<Rightarrow> (bucket \<Rightarrow> decimal) \<Rightarrow> decimal" where
  "bucket_total cash b = dadd (dadd (dadd cash (b Stocks)) (b Funds)) (b Others)"

definition accumulator_value :: "quotes \<Rightarrow> accumulator \<Rightarrow> (accumulator \<times> replay_valuation) res" where
  "accumulator_value quotes a = bind_res (apply_valuations quotes (ac_projection a)) (\<lambda>pj.
     let values = bucket_availability pj (ac_classes a) in
     if pj_missing pj \<noteq> []
     then Inr (a\<lparr>ac_projection := pj\<lparr>pj_total_equity := None\<rparr>\<rparr>,
       \<lparr>rv_cash = pj_cash pj, rv_total = None, rv_buckets = values, rv_unrealized = None,
        rv_missing = pj_missing pj\<rparr>)
     else (let total = bucket_total (pj_cash pj) (bucket_position_values pj (ac_classes a)) in
       Inr (a\<lparr>ac_projection := pj\<lparr>pj_total_equity := Some total\<rparr>\<rparr>,
         \<lparr>rv_cash = pj_cash pj, rv_total = Some total, rv_buckets = values,
          rv_unrealized = Some (dsum (map lp_unrealized (filter (\<lambda>p. \<not> is_economically_zero_quantity (lp_quantity p))
            (dict_values (pj_positions pj))))), rv_missing = []\<rparr>)))"

section \<open>Curves\<close>

definition instant_of :: "ledger_entry \<Rightarrow> timestamp" where
  "instant_of e = fst (replay_key e)"

definition curve_step ::
  "quotes \<Rightarrow> ledger_entry \<Rightarrow> projection \<times> (timestamp \<times> decimal) list
    \<Rightarrow> (projection \<times> (timestamp \<times> decimal) list) res" where
  "curve_step quotes e = (\<lambda>(pj, points).
     bind_res (apply_ledger_entry e pj) (\<lambda>pj1. bind_res (apply_valuations quotes pj1) (\<lambda>pj2.
       Inr (pj2, if pj_missing pj2 \<noteq> [] then points
         else points @ [(instant_of e, dadd (pj_cash pj2) (dsum (market_values pj2)))]))))"

definition build_equity_curve :: "decimal \<Rightarrow> quotes \<Rightarrow> ledger_entry list \<Rightarrow> (timestamp \<times> decimal) list res" where
  "build_equity_curve cash quotes es = bind_res (sorted_entries es) (\<lambda>es'.
     bind_res (fold_res (curve_step quotes) es' (new_projection cash, [])) (\<lambda>st. Inr (snd st)))"

record equity_point =
  ep_timestamp :: timestamp
  ep_total :: "decimal option"
  ep_buckets :: buckets
  ep_cash :: decimal
  ep_missing :: "string list"

definition record_asset_class :: "ledger_entry \<Rightarrow> (string, string) dict \<Rightarrow> (string, string) dict" where
  "record_asset_class e classes = (if entry_symbol e = [] then classes
     else dict_put (entry_symbol e)
       (normalized (if le_asset_class e = [] then ''stock'' else le_asset_class e)) classes)"

definition series_step ::
  "quotes \<Rightarrow> ledger_entry \<Rightarrow> projection \<times> (string, string) dict \<times> equity_point list
    \<Rightarrow> (projection \<times> (string, string) dict \<times> equity_point list) res" where
  "series_step quotes e = (\<lambda>(pj, classes, points).
     let classes' = record_asset_class e classes in
     bind_res (apply_ledger_entry e pj) (\<lambda>pj1. bind_res (apply_valuations quotes pj1) (\<lambda>pj2.
       Inr (pj2, classes', points @ [\<lparr>ep_timestamp = instant_of e,
         ep_total = (if pj_missing pj2 \<noteq> [] then None
           else Some (bucket_total (pj_cash pj2) (bucket_position_values pj2 classes'))),
         ep_buckets = bucket_availability pj2 classes', ep_cash = pj_cash pj2, ep_missing = pj_missing pj2\<rparr>]))))"

definition build_equity_series :: "decimal \<Rightarrow> quotes \<Rightarrow> ledger_entry list \<Rightarrow> equity_point list res" where
  "build_equity_series cash quotes es = bind_res (sorted_entries es) (\<lambda>es'.
     bind_res (fold_res (series_step quotes) es' (new_projection cash, [], [])) (\<lambda>st. Inr (snd (snd st))))"

text \<open>
  Reading the whole ledger in pages of \<open>batch_size\<close> rows: \<open>page limit offset\<close> is what the database
  returns. The loop spends fuel; a ledger of \<open>n\<close> rows needs \<open>n + 1\<close> pages at most.
\<close>

fun load_pages :: "nat \<Rightarrow> (nat \<Rightarrow> nat \<Rightarrow> 'r list) \<Rightarrow> nat \<Rightarrow> nat \<Rightarrow> 'r list option" where
  "load_pages 0 page batch offset = None"
| "load_pages (Suc fuel) page batch offset =
     (let rows = page batch offset in
      if rows = [] then Some []
      else if length rows < batch then Some rows
      else map_option (\<lambda>rest. rows @ rest) (load_pages fuel page batch (offset + batch)))"

end
