(* ===== verification/Ledger_Facts.thy ===== *)
theory Ledger_Facts
  imports Ledger_Valuation
begin

text \<open>
  What the replay of the ledger guarantees: it does not depend on the order in which entries are read
  nor on whether they are applied one by one or all at once; its positions stay consistent; and its
  cash is the sum of the cash flows of the entries.
\<close>

section \<open>Reading order\<close>

lemma map_res_total: "(\<exists>ys. map_res f xs = Inr ys) \<longleftrightarrow> (\<forall>x \<in> set xs. \<exists>y. f x = Inr y)"
  by (induction xs) (auto simp: bind_res_eq_Inr)

lemma sorted_entries_Inr:
  "sorted_entries es = Inr ss \<longleftrightarrow> (\<forall>e \<in> set es. \<exists>k. entry_sort_key e = Inr k) \<and> ss = sort_key replay_key es"
  unfolding sorted_entries_def bind_res_eq_Inr map_res_total [symmetric] by auto

lemma sorted_entries_mset:
  assumes "mset es = mset es'" "distinct (map replay_key es)" "sorted_entries es = Inr ss"
  shows "sorted_entries es' = Inr ss"
proof -
  have "inj_on replay_key (set es)" using assms(2) by (simp add: distinct_map)
  then have "sort_key replay_key es = sort_key replay_key es'"
    using sort_key_inj_key_eq [of es "sort_key replay_key es'" replay_key] assms(1) by simp
  moreover have "set es = set es'" using assms(1) by (metis set_mset_mset)
  ultimately show ?thesis using assms(3) unfolding sorted_entries_Inr by simp
qed

lemma replay_ledger_permuted:
  assumes "mset es = mset es'" "distinct (map replay_key es)" "replay_ledger cash es = Inr pj"
  shows "replay_ledger cash es' = Inr pj"
  using assms(3) sorted_entries_mset [OF assms(1,2)] by (auto simp: replay_ledger_def bind_res_eq_Inr)

section \<open>One by one\<close>

lemma accumulate_projection:
  "fold_res accumulate es a = Inr b \<Longrightarrow>
    fold_res apply_ledger_entry es (ac_projection a) = Inr (ac_projection b) \<and> ac_count b = ac_count a + length es"
  by (induction es arbitrary: a) (force simp: accumulate_def bind_res_eq_Inr)+

definition known_class :: "ledger_entry \<Rightarrow> bool" where
  "known_class e = (entry_symbol e = [] \<or>
     (case from_persisted (PText (le_asset_class e)) of Inr _ \<Rightarrow> True | Inl _ \<Rightarrow> False))"

lemma accumulate_total:
  "\<lbrakk>fold_res apply_ledger_entry es (ac_projection a) = Inr pj; \<forall>e \<in> set es. known_class e\<rbrakk> \<Longrightarrow>
    \<exists>b. fold_res accumulate es a = Inr b \<and> ac_projection b = pj"
proof (induction es arbitrary: a)
  case (Cons e es)
  obtain pj1 where pj1: "apply_ledger_entry e (ac_projection a) = Inr pj1"
    "fold_res apply_ledger_entry es pj1 = Inr pj"
    using Cons.prems(1) by (auto simp: bind_res_eq_Inr)
  obtain classes where "(if entry_symbol e = [] then Inr (ac_classes a)
       else bind_res (from_persisted (PText (le_asset_class e))) (\<lambda>t.
         Inr (dict_put (entry_symbol e) (instrument_type_value t) (ac_classes a)))) = Inr classes"
    using Cons.prems(2) by (cases "entry_symbol e = []") (auto simp: known_class_def split: sum.splits)
  then obtain a1 where "accumulate e a = Inr a1" "ac_projection a1 = pj1"
    using pj1(1) by (simp add: accumulate_def)
  then show ?case using Cons.IH [of a1] Cons.prems(2) pj1(2) by auto
qed auto

text \<open>C30: the account does not depend on how its ledger is read. The replay of a ledger whose entries have
  different sort keys gives the same projection for every order of its rows, and applying the sorted
  entries one by one to an accumulator (when every asset class is known) gives that projection too.\<close>

theorem replay_is_order_independent:
  assumes "build_portfolio_projection cash quotes es = Inr pj" "mset es = mset es'" "distinct (map replay_key es)"
  shows "build_portfolio_projection cash quotes es' = Inr pj \<and>
    (\<exists>ss. sorted_entries es' = Inr ss \<and> mset ss = mset es \<and> sorted (map replay_key ss) \<and>
      ((\<forall>e \<in> set es. known_class e) \<longrightarrow>
        (\<exists>a. fold_res accumulate ss (new_accumulator cash) = Inr a \<and> ac_count a = length es \<and>
          replay_ledger cash es = Inr (ac_projection a))))"
proof -
  obtain ps where ps: "replay_ledger cash es = Inr ps" using assms(1)
    by (auto simp: build_portfolio_projection_def bind_res_eq_Inr)
  note same = replay_ledger_permuted [OF assms(2,3) ps]
  obtain ss where ss: "sorted_entries es = Inr ss" "fold_res apply_ledger_entry ss (new_projection cash) = Inr ps"
    using ps by (auto simp: replay_ledger_def bind_res_eq_Inr)
  note ss' = sorted_entries_mset [OF assms(2,3) ss(1)]
  have s: "ss = sort_key replay_key es" using ss(1) by (simp add: sorted_entries_Inr)
  have acc: "\<exists>a. fold_res accumulate ss (new_accumulator cash) = Inr a \<and> ac_count a = length es \<and>
      replay_ledger cash es = Inr (ac_projection a)" if k: "\<forall>e \<in> set es. known_class e"
  proof -
    obtain a where a: "fold_res accumulate ss (new_accumulator cash) = Inr a" "ac_projection a = ps"
      using accumulate_total [of ss "new_accumulator cash" ps] ss(2) k by (auto simp: new_accumulator_def s)
    have "ac_count a = length es"
      using accumulate_projection [OF a(1)] by (simp add: new_accumulator_def s)
    with a ps show ?thesis by blast
  qed
  have "build_portfolio_projection cash quotes es' = Inr pj"
    using assms(1) unfolding build_portfolio_projection_def ps same .
  then show ?thesis using ss' acc s by (intro conjI exI [of _ ss]) simp_all
qed

section \<open>Reading in pages\<close>

lemma load_pages_complete:
  assumes "0 < batch" "length rows < offset + fuel * batch" "offset \<le> length rows"
  shows "load_pages fuel (\<lambda>l o'. take l (drop o' rows)) batch offset = Some (drop offset rows)"
  using assms(2,3)
proof (induction fuel arbitrary: offset)
  case (Suc fuel)
  show ?case
  proof (cases "length rows < offset + batch")
    case True
    then show ?thesis using assms(1) by (auto simp: Let_def)
  next
    case False
    have "load_pages fuel (\<lambda>l o'. take l (drop o' rows)) batch (offset + batch) = Some (drop (offset + batch) rows)"
      using Suc False by simp
    moreover have "take batch (drop offset rows) @ drop (offset + batch) rows = drop offset rows"
      by (metis add.commute append_take_drop_id drop_drop)
    moreover have "drop offset rows \<noteq> []" "length (take batch (drop offset rows)) = batch"
      using False assms(1) by auto
    ultimately show ?thesis using assms(1) by (auto simp: Let_def)
  qed
qed simp

section \<open>Positions stay consistent\<close>

definition position_ok :: "projected_position \<Rightarrow> bool" where
  "position_ok p = (dle DZERO (lp_quantity p) \<and> dle DZERO (lp_avg_cost p) \<and>
     (deq (lp_quantity p) DZERO \<longrightarrow> deq (lp_avg_cost p) DZERO) \<and>
     deq (lp_available p) (dsub (lp_quantity p) (lp_frozen p)))"

definition projection_ok :: "projection \<Rightarrow> bool" where
  "projection_ok pj = (\<forall>p \<in> set (dict_values (pj_positions pj)). position_ok p)"

lemma position_ok_val:
  "position_ok p \<longleftrightarrow> 0 \<le> val (lp_quantity p) \<and> 0 \<le> val (lp_avg_cost p) \<and>
    (val (lp_quantity p) = 0 \<longrightarrow> val (lp_avg_cost p) = 0) \<and>
    val (lp_available p) = cr (val (lp_quantity p) - val (lp_frozen p))"
  by (simp add: position_ok_def val_simps)

lemma new_projected_ok: "position_ok (new_projected s)"
  by (simp add: position_ok_val new_projected_def)

lemma position_at_ok: "projection_ok pj \<Longrightarrow> position_ok (position_at pj s)"
  unfolding projection_ok_def position_at_def dict_get_default_def
  by (cases "dict_get (pj_positions pj) s") (auto simp only: option.case new_projected_ok dest!: dict_values_get)

lemma positions_of_put [simp]: "pj_positions (put_position s p pj) = dict_put s p (pj_positions pj)"
  by (simp add: put_position_def)

lemma put_position_ok: "projection_ok pj \<Longrightarrow> position_ok p \<Longrightarrow> projection_ok (put_position s p pj)"
  unfolding projection_ok_def positions_of_put by (rule dict_put_all)

lemma positions_of_cash [simp]:
  "pj_positions (add_cash d pj) = pj_positions pj" "pj_positions (sub_cash d pj) = pj_positions pj"
  by (simp_all add: add_cash_def sub_cash_def)

lemma projection_ok_cash [simp]:
  "projection_ok (add_cash d pj) = projection_ok pj" "projection_ok (sub_cash d pj) = projection_ok pj"
  "projection_ok (pj\<lparr>pj_total_deposits := x\<rparr>) = projection_ok pj"
  "projection_ok (pj\<lparr>pj_cash := x\<rparr>) = projection_ok pj"
  by (simp_all add: projection_ok_def)

lemma sync_broker_keeps:
  assumes "sync_broker_cost_basis p = Inr p'"
  shows "lp_quantity p' = lp_quantity p \<and> lp_avg_cost p' = lp_avg_cost p \<and> lp_frozen p' = lp_frozen p"
  using assms by (auto simp: sync_broker_cost_basis_def bind_res_eq_Inr split: if_splits)

lemma sync_available_ok:
  "position_ok (sync_available p) \<longleftrightarrow> 0 \<le> val (lp_quantity p) \<and> 0 \<le> val (lp_avg_cost p) \<and>
    (val (lp_quantity p) = 0 \<longrightarrow> val (lp_avg_cost p) = 0)"
  by (simp add: position_ok_val sync_available_def val_simps)

lemma apply_buy_ok:
  assumes "apply_buy q price c p = Inr p'" "position_ok p" "0 \<le> val q" "0 \<le> val price" "0 \<le> val c"
  shows "position_ok p'"
proof -
  obtain avg p1 where avg: "moving_average_cost_after_buy (lp_quantity p) (lp_avg_cost p) q price c = Inr avg"
    and p1: "lp_quantity p1 = dadd (lp_quantity p) q" "lp_avg_cost p1 = avg" "p' = sync_available p1"
    using assms(1) by (fastforce simp: apply_buy_def bind_res_eq_Inr Let_def dest!: sync_broker_keeps)
  have "val (dadd (lp_quantity p) q) \<noteq> 0" "0 \<le> val avg"
    using ddiv_Inr [OF avg [unfolded moving_average_cost_after_buy_def Let_def]] assms(2-5)
    by (auto simp: val_simps position_ok_val intro!: rnd_nonneg divide_nonneg_nonneg add_nonneg_nonneg)
  moreover have "0 \<le> val (dadd (lp_quantity p) q)" using assms(2,3) by (simp add: val_simps position_ok_val rnd_nonneg)
  ultimately show ?thesis by (simp add: p1 sync_available_ok)
qed

lemma apply_sell_ok:
  assumes "apply_sell q price c now p = Inr p'" "position_ok p"
  shows "position_ok p'"
proof -
  let ?q = "dsub (lp_quantity p) q"
  have le: "val q \<le> val (lp_quantity p)" using assms(1) by (auto simp: apply_sell_def dlt_val split: if_splits)
  obtain p1 where p1: "lp_quantity p1 = ?q" "lp_avg_cost p1 = (if deq ?q DZERO then DZERO else lp_avg_cost p)"
    "p' = sync_available p1"
    using assms(1) by (fastforce simp: apply_sell_def bind_res_eq_Inr Let_def dest!: sync_broker_keeps split: if_splits)
  have "0 \<le> val ?q" using le by (simp add: val_simps rnd_nonneg)
  then show ?thesis using assms(2)
    unfolding p1(3) sync_available_ok p1(1,2) by (simp add: position_ok_val deq_val)
qed

lemma adjust_position_ok:
  assumes "adjust_position now delta price p = Inr p'" "position_ok p"
    "\<And>d. price = Some d \<Longrightarrow> 0 \<le> val d" "0 \<le> val (lp_quantity p) + val delta"
  shows "position_ok p'"
proof -
  let ?q = "dadd (lp_quantity p) delta"
  have q: "0 \<le> val ?q" using assms(4) by (simp add: val_simps rnd_nonneg)
  obtain avg where avg: "(if dlt DZERO delta then
          (case price of None \<Rightarrow> Inr (lp_avg_cost p)
           | Some d \<Rightarrow> if dlt DZERO (lp_quantity p)
               then ddiv (dadd (dmul (lp_quantity p) (lp_avg_cost p)) (dmul delta d)) (dadd (lp_quantity p) delta)
               else if deq (lp_quantity p) DZERO then Inr d else Inr (lp_avg_cost p))
        else Inr (lp_avg_cost p)) = Inr avg"
    and p': "p' = sync_available
        (if deq ?q DZERO
         then p\<lparr>lp_avg_cost := avg, lp_quantity := ?q, lp_avg_cost := DZERO,
           lp_closed_at := (if deq (lp_quantity p) DZERO then lp_closed_at p else Some now)\<rparr>
         else if deq (lp_quantity p) DZERO then p\<lparr>lp_avg_cost := avg, lp_quantity := ?q, lp_closed_at := None\<rparr>
         else p\<lparr>lp_avg_cost := avg, lp_quantity := ?q\<rparr>)"
    using assms(1) unfolding adjust_position_def bind_res_eq_Inr Let_def by blast
  have "0 \<le> val avg"
    using avg assms(2,3) q
    by (auto simp: val_simps position_ok_val dest!: ddiv_Inr split: if_splits option.splits
        intro!: rnd_nonneg divide_nonneg_nonneg add_nonneg_nonneg)
  then show ?thesis using q unfolding p' sync_available_ok by (simp add: deq_val)
qed

text \<open>
  What the writers of the ledger see to: quantities and prices of trades are not negative, a reduction
  has no more digits than the context keeps, and a correction names a position of that kind.
\<close>

definition stored_ok :: "(decimal \<Rightarrow> bool) \<Rightarrow> ledger_entry \<Rightarrow> string \<Rightarrow> stored_number \<Rightarrow> bool" where
  "stored_ok P e field n = (case entry_decimal e field n True of Inr (Some d) \<Rightarrow> P d | _ \<Rightarrow> True)"

definition state_ok :: "accounting_state \<Rightarrow> bool" where
  "state_ok st = (dle DZERO (fst st ! 0) \<and> dle DZERO (fst st ! 3) \<and>
     (deq (fst st ! 0) DZERO \<longrightarrow> deq (fst st ! 3) DZERO))"

definition correction_ok :: "ledger_entry \<Rightarrow> bool" where
  "correction_ok e = (case le_correction e of None \<Rightarrow> True
     | Some payload \<Rightarrow> (case doc_get payload ''position_after'' of
         JMap after \<Rightarrow> (case normalized_position_state after of Inr st \<Rightarrow> state_ok st | Inl _ \<Rightarrow> True)
       | _ \<Rightarrow> True))"

definition sound_entry :: "ledger_entry \<Rightarrow> bool" where
  "sound_entry e = (stored_ok (dle DZERO) e ''price'' (le_price e) \<and>
     (normalized (le_type e) \<noteq> ''manual_adjustment'' \<longrightarrow> stored_ok (dle DZERO) e ''quantity'' (le_quantity e)) \<and>
     stored_ok (\<lambda>d. deq (fix_prec 28 d) d) e ''quantity'' (le_quantity e) \<and> correction_ok e)"

lemma decimal_value_allow: "decimal_value f False v = Inr r \<Longrightarrow> decimal_value f True v = Inr r"
  by (cases v) (simp_all add: decimal_value_def)

lemma entry_decimal_allow: "entry_decimal e f n False = Inr v \<Longrightarrow> entry_decimal e f n True = Inr v"
  unfolding entry_decimal_def by (auto simp: decimal_value_allow split: if_splits)

lemma require_entry_decimal_allow:
  assumes "require_entry_decimal e f n = Inr d"
  shows "entry_decimal e f n True = Inr (Some d)"
proof -
  have "entry_decimal e f n False = Inr (Some d)"
    using assms unfolding require_entry_decimal_def bind_res_eq_Inr by (fastforce split: option.splits)
  then show ?thesis by (rule entry_decimal_allow)
qed

lemma require_stored: "require_entry_decimal e f n = Inr d \<Longrightarrow> stored_ok P e f n \<Longrightarrow> P d"
  by (drule require_entry_decimal_allow) (simp add: stored_ok_def)

lemma apply_trade_cases:
  assumes "apply_trade_entry pj e = Inr pj'"
  obtains (buy) s q price c p where "require_entry_decimal e ''quantity'' (le_quantity e) = Inr q"
      "require_entry_decimal e ''price'' (le_price e) = Inr price" "trade_total_fee e = Inr c"
      "trade_side e = ''buy''" "require_text (le_symbol e) ''symbol'' = Inr s"
      "apply_buy q price c (position_at pj s) = Inr p"
      "pj' = put_position s p (sub_cash (dadd (dmul q price) c) pj)"
  | (sell) s q price c p where "require_entry_decimal e ''quantity'' (le_quantity e) = Inr q"
      "require_entry_decimal e ''price'' (le_price e) = Inr price" "trade_total_fee e = Inr c"
      "trade_side e = ''sell''" "require_text (le_symbol e) ''symbol'' = Inr s"
      "apply_sell q price c (le_timestamp e) (position_at pj s) = Inr p"
      "pj' = put_position s p (add_cash (dsub (dmul q price) c) pj)"
proof -
  obtain s q price c where r: "require_text (le_symbol e) ''symbol'' = Inr s"
    "require_entry_decimal e ''quantity'' (le_quantity e) = Inr q"
    "require_entry_decimal e ''price'' (le_price e) = Inr price" "trade_total_fee e = Inr c"
    and t: "(if trade_side e = ''buy''
       then bind_res (apply_buy q price c (position_at pj s)) (\<lambda>p.
         Inr (put_position s p (sub_cash (dadd (dmul q price) c) pj)))
       else if trade_side e = ''sell''
       then bind_res (apply_sell q price c (le_timestamp e) (position_at pj s)) (\<lambda>p.
         Inr (put_position s p (add_cash (dsub (dmul q price) c) pj)))
       else Inl (ValueError ''Unknown trade direction'')) = Inr pj'"
    using assms unfolding apply_trade_entry_def bind_res_eq_Inr by blast
  consider "trade_side e = ''buy''" | "trade_side e \<noteq> ''buy''" "trade_side e = ''sell''"
    using t by (cases "trade_side e = ''buy''"; cases "trade_side e = ''sell''") simp_all
  then show thesis
  proof cases
    case 1
    obtain p where "apply_buy q price c (position_at pj s) = Inr p"
      "pj' = put_position s p (sub_cash (dadd (dmul q price) c) pj)"
      using t unfolding if_P [OF 1] bind_res_eq_Inr by blast
    then show thesis by (rule buy [OF r(2-4) 1 r(1)])
  next
    case 2
    obtain p where "apply_sell q price c (le_timestamp e) (position_at pj s) = Inr p"
      "pj' = put_position s p (add_cash (dsub (dmul q price) c) pj)"
      using t unfolding if_not_P [OF 2(1)] if_P [OF 2(2)] bind_res_eq_Inr by blast
    then show thesis by (rule sell [OF r(2-4) 2(2) r(1)])
  qed
qed

lemma apply_trade_ok:
  assumes "apply_trade_entry pj e = Inr pj'" "projection_ok pj" "stored_ok (dle DZERO) e ''price'' (le_price e)"
    "stored_ok (dle DZERO) e ''quantity'' (le_quantity e)"
  shows "projection_ok pj'"
proof -
  have fee: "0 \<le> val c" if "trade_total_fee e = Inr c" for c
    using that by (auto simp: trade_total_fee_def bind_res_eq_Inr fee_nonneg)
  show ?thesis
    using assms(1)
  proof (cases rule: apply_trade_cases)
    case (buy s q price c p)
    have "0 \<le> val q" "0 \<le> val price"
      using require_stored [OF buy(1) assms(4)] require_stored [OF buy(2) assms(3)] by (simp_all add: val_simps)
    then have "position_ok p"
      using apply_buy_ok [OF buy(6) position_at_ok [OF assms(2)]] fee [OF buy(3)] by blast
    then show ?thesis using assms(2) by (simp add: buy(7) put_position_ok)
  next
    case (sell s q price c p)
    have "position_ok p" by (rule apply_sell_ok [OF sell(6) position_at_ok [OF assms(2)]])
    then show ?thesis using assms(2) by (simp add: sell(7) put_position_ok)
  qed
qed

lemma book_realized_ok: "projection_ok pj \<Longrightarrow> projection_ok (book_realized s f pj)"
  using position_at_ok [of pj s] by (auto simp: book_realized_def Let_def position_ok_def intro!: put_position_ok)

lemma apply_manual_cases:
  assumes "apply_manual_adjustment pj e = Inr pj'"
  obtains amount pj1 where "entry_decimal e ''amount'' (le_amount e) True = Inr amount"
    "pj1 = (case amount of None \<Rightarrow> pj | Some a \<Rightarrow> add_cash a pj)"
    "pj' = pj1 \<or> (\<exists>delta price p'. entry_decimal e ''quantity'' (le_quantity e) True = Inr (Some delta) \<and>
      entry_decimal e ''price'' (le_price e) True = Inr price \<and> entry_symbol e \<noteq> [] \<and>
      \<not> (dlt delta DZERO \<and> dlt (lp_quantity (position_at pj1 (entry_symbol e))) (dabs delta)) \<and>
      adjust_position (le_timestamp e) delta price (position_at pj1 (entry_symbol e)) = Inr p' \<and>
      pj' = put_position (entry_symbol e) p' pj1)"
proof -
  obtain amount where amount: "entry_decimal e ''amount'' (le_amount e) True = Inr amount"
    using assms by (auto simp: apply_manual_adjustment_def bind_res_eq_Inr)
  define pj1 where "pj1 = (case amount of None \<Rightarrow> pj | Some a \<Rightarrow> add_cash a pj)"
  obtain quantity where q: "entry_decimal e ''quantity'' (le_quantity e) True = Inr quantity"
    and run: "(case quantity of None \<Rightarrow> Inr pj1
       | Some delta \<Rightarrow> if entry_symbol e = [] then Inr pj1
           else let p = position_at pj1 (entry_symbol e) in
             if dlt delta DZERO \<and> dlt (lp_quantity p) (dabs delta)
             then Inl (ValueError (''Manual adjustment quantity exceeds position for '' @ entry_symbol e))
             else bind_res (entry_decimal e ''price'' (le_price e) True) (\<lambda>price.
               bind_res (adjust_position (le_timestamp e) delta price p) (\<lambda>p'.
                 Inr (put_position (entry_symbol e) p' pj1)))) = Inr pj'"
    using assms amount unfolding apply_manual_adjustment_def pj1_def Let_def by (auto elim: bind_res_InrE)
  show thesis
  proof (cases "quantity = None \<or> entry_symbol e = []")
    case True
    then have "pj' = pj1" using run by (auto split: option.splits)
    then show thesis by (intro that [OF amount pj1_def] disjI1)
  next
    case False
    then obtain delta where d: "quantity = Some delta" by (cases quantity) auto
    have "\<not> (dlt delta DZERO \<and> dlt (lp_quantity (position_at pj1 (entry_symbol e))) (dabs delta)) \<and>
        (\<exists>price p'. entry_decimal e ''price'' (le_price e) True = Inr price \<and>
          adjust_position (le_timestamp e) delta price (position_at pj1 (entry_symbol e)) = Inr p' \<and>
          pj' = put_position (entry_symbol e) p' pj1)"
      using run False unfolding d Let_def by (simp add: bind_res_eq_Inr split: if_split_asm) blast
    then show thesis using q d False by (intro that [OF amount pj1_def] disjI2) blast
  qed
qed

lemma apply_manual_ok:
  assumes "apply_manual_adjustment pj e = Inr pj'" "projection_ok pj" "stored_ok (dle DZERO) e ''price'' (le_price e)"
    "stored_ok (\<lambda>d. deq (fix_prec 28 d) d) e ''quantity'' (le_quantity e)"
  shows "projection_ok pj'"
  using assms(1)
proof (cases rule: apply_manual_cases)
  case (1 amount pj1)
  have ok1: "projection_ok pj1" using assms(2) by (simp add: 1(2) split: option.splits)
  from 1(3) show ?thesis
  proof (elim disjE exE conjE)
    fix delta price p'
    let ?p = "position_at pj1 (entry_symbol e)"
    assume d: "entry_decimal e ''quantity'' (le_quantity e) True = Inr (Some delta)"
      "entry_decimal e ''price'' (le_price e) True = Inr price" "\<not> (dlt delta DZERO \<and> dlt (lp_quantity ?p) (dabs delta))"
      "adjust_position (le_timestamp e) delta price ?p = Inr p'" "pj' = put_position (entry_symbol e) p' pj1"
    note ok = position_at_ok [OF ok1, of "entry_symbol e"]
    have "cr (val delta) = val delta" using d(1) assms(4) by (simp add: stored_ok_def val_simps)
    then have "0 \<le> val (lp_quantity ?p) + val delta" using d(3) ok by (auto simp: val_simps position_ok_val)
    moreover have "0 \<le> val x" if "price = Some x" for x
      using d(2) assms(3) that by (simp add: stored_ok_def val_simps)
    ultimately have "position_ok p'" using adjust_position_ok [OF d(4) ok] by blast
    then show ?thesis using ok1 by (simp add: d(5) put_position_ok)
  qed (simp add: ok1)
qed

lemma apply_correction_ok:
  assumes "apply_projection_correction pj e kind = Inr pj'" "projection_ok pj" "correction_ok e"
  shows "projection_ok pj'"
proof -
  obtain label symbol payload before after where payload: "le_correction e = Some payload"
    "doc_get payload ''position_after'' = JMap after"
    and run: "apply_correction_payload kind label (le_timestamp e) symbol payload before after pj = Inr pj'"
    using assms(1)
    by (auto simp: apply_projection_correction_def bind_res_eq_Inr Let_def split: option.splits if_splits jdoc.splits)
  obtain st p' cash deposits where st: "normalized_position_state after = Inr st"
    and p': "correct_position (le_timestamp e) label st (position_at pj symbol) = Inr p'"
    and pj': "pj' = put_position symbol p' (pj\<lparr>pj_cash := cash, pj_total_deposits := deposits\<rparr>)"
    using run by (auto simp: apply_correction_payload_def bind_res_eq_Inr Let_def split: if_splits)
  have "state_ok st" using assms(3) payload st by (simp add: correction_ok_def)
  then have "position_ok p'"
    using p' by (auto simp: correct_position_def Let_def state_ok_def position_ok_def correction_closing_def
        set_accounting_state_def split: if_splits prod.splits)
  then show ?thesis using assms(2) by (simp add: pj' put_position_ok)
qed

text \<open>The kinds of entries, with what each does.\<close>

lemma if_elim: "\<lbrakk>(if b then x else y) = z; \<lbrakk>b; x = z\<rbrakk> \<Longrightarrow> P; \<lbrakk>\<not> b; y = z\<rbrakk> \<Longrightarrow> P\<rbrakk> \<Longrightarrow> P"
  by (cases b) simp_all

lemma apply_ledger_entry_cases:
  assumes "apply_ledger_entry e pj = Inr pj'"
  obtains (deposit) amount where "normalized (le_type e) \<in> {''cash_deposit'', ''deposit''}"
      "require_entry_decimal e ''amount'' (le_amount e) = Inr amount"
      "pj' = (add_cash amount pj)\<lparr>pj_total_deposits := dadd (pj_total_deposits pj) amount\<rparr>"
  | (withdraw) amount where "normalized (le_type e) \<in> {''cash_withdraw'', ''cash_withdrawal'', ''withdraw''}"
      "require_entry_decimal e ''amount'' (le_amount e) = Inr amount"
      "pj' = (sub_cash amount pj)\<lparr>pj_total_deposits := dsub (pj_total_deposits pj) amount\<rparr>"
  | (trade) "normalized (le_type e) \<in> {''trade_buy'', ''buy'', ''trade'', ''trade_sell'', ''sell''}"
      "apply_trade_entry pj e = Inr pj'"
  | (income) "normalized (le_type e) \<in> {''dividend'', ''cash_interest'', ''interest_income''}"
      "apply_cash_income pj e = Inr pj'"
  | (expense) "normalized (le_type e) = ''fee''" "apply_cash_expense pj e = Inr pj'"
  | (manual) "normalized (le_type e) = ''manual_adjustment''" "apply_manual_adjustment pj e = Inr pj'"
  | (correction) "normalized (le_type e) \<in> set (dict_keys PROJECTION_CORRECTION_CONTRACTS)"
      "apply_projection_correction pj e (normalized (le_type e)) = Inr pj'"
proof -
  let ?k = "normalized (le_type e)"
  note run = assms [unfolded apply_ledger_entry_def Let_def]
  show thesis
    using run
    apply (elim if_elim)
           apply (elim bind_res_InrE, rule deposit, assumption, assumption, simp)
          apply (elim bind_res_InrE, rule withdraw, assumption, assumption, simp)
         apply (erule (1) trade)
        apply (erule (1) income)
       apply (erule (1) expense)
      apply (erule (1) manual)
     apply (erule (1) correction)
    apply simp
    done
qed

lemma apply_ledger_entry_ok:
  assumes "apply_ledger_entry e pj = Inr pj'" "projection_ok pj" "sound_entry e"
  shows "projection_ok pj'"
  using assms(1)
proof (cases rule: apply_ledger_entry_cases)
  case trade
  have "normalized (le_type e) \<noteq> ''manual_adjustment''" using trade(1) by auto
  then show ?thesis using apply_trade_ok [OF trade(2) assms(2)] assms(3) by (simp add: sound_entry_def)
next
  case manual
  then show ?thesis using apply_manual_ok [OF manual(2) assms(2)] assms(3) by (simp add: sound_entry_def)
next
  case correction
  then show ?thesis using apply_correction_ok [OF correction(2) assms(2)] assms(3) by (simp add: sound_entry_def)
qed (use assms(2) in \<open>auto simp: apply_cash_income_def apply_cash_expense_def bind_res_eq_Inr book_realized_ok\<close>)

lemma value_one_keeps:
  assumes "value_one quotes (s, p) = Inr (s', p')"
  shows "s' = s \<and> accounting_state p' = accounting_state p \<and> lp_closed_at p' = lp_closed_at p"
  using assms
  by (auto simp: value_one_def bind_res_eq_Inr value_position_def Let_def accounting_state_def split: option.splits)

lemma position_ok_state:
  "accounting_state p' = accounting_state p \<Longrightarrow> position_ok p' \<longleftrightarrow> position_ok p"
  by (simp add: accounting_state_def position_ok_def)

lemma apply_valuations_positions:
  assumes "apply_valuations quotes pj = Inr pj'"
  shows "list_all2 (\<lambda>x y. fst y = fst x \<and> accounting_state (snd y) = accounting_state (snd x))
      (pj_positions pj) (pj_positions pj') \<and> pj_cash pj' = pj_cash pj \<and> pj_total_deposits pj' = pj_total_deposits pj"
proof -
  obtain ps where ps: "list_all2 (\<lambda>x y. value_one quotes x = Inr y) (pj_positions pj) ps"
    "pj_positions pj' = ps" "pj_cash pj' = pj_cash pj" "pj_total_deposits pj' = pj_total_deposits pj"
    using assms by (auto simp: apply_valuations_def bind_res_eq_Inr map_res_Inr_iff Let_def)
  have "list_all2 (\<lambda>x y. fst y = fst x \<and> accounting_state (snd y) = accounting_state (snd x)) (pj_positions pj) ps"
    by (rule list_all2_mono [OF ps(1)]) (metis prod.collapse value_one_keeps)
  with ps show ?thesis by simp
qed

lemma list_all2_all:
  "\<lbrakk>list_all2 R xs ys; \<forall>x \<in> set xs. P x; \<And>x y. R x y \<Longrightarrow> P x \<Longrightarrow> Q y\<rbrakk> \<Longrightarrow> \<forall>y \<in> set ys. Q y"
  by (induction rule: list_all2_induct) auto

lemma apply_valuations_ok:
  assumes "apply_valuations quotes pj = Inr pj'" "projection_ok pj"
  shows "projection_ok pj'"
proof -
  have "\<forall>x \<in> set (pj_positions pj). position_ok (snd x)" using assms(2) by (auto simp: projection_ok_def)
  then have "\<forall>y \<in> set (pj_positions pj'). position_ok (snd y)"
    by (rule list_all2_all [OF conjunct1 [OF apply_valuations_positions [OF assms(1)]]]) (metis position_ok_state)
  then show ?thesis by (auto simp: projection_ok_def)
qed

lemma replay_ledger_ok:
  assumes "replay_ledger cash es = Inr pj" "\<forall>e \<in> set es. sound_entry e"
  shows "projection_ok pj"
proof -
  have run: "fold_res apply_ledger_entry (sort_key replay_key es) (new_projection cash) = Inr pj"
    using assms(1) by (auto simp: replay_ledger_def bind_res_eq_Inr sorted_entries_Inr)
  show ?thesis
    using run
    by (rule fold_res_invariant [where P = projection_ok])
      (use assms(2) apply_ledger_entry_ok in \<open>auto simp: projection_ok_def new_projection_def\<close>)
qed

text \<open>C31: the replayed account is consistent. Whatever sound entries the ledger holds, in whatever order they
  are stored, a replay that is accepted gives positions whose quantities and average costs are not negative,
  whose available quantity is the quantity less the frozen one, and whose average cost is zero when they are
  flat. In particular no sale and no manual reduction ever exceeds the holding.\<close>

theorem replayed_positions_are_consistent:
  assumes "build_portfolio_projection cash quotes es = Inr pj" "\<forall>e \<in> set es. sound_entry e"
  shows "\<forall>(s, p) \<in> set (pj_positions pj). dle DZERO (lp_quantity p) \<and> dle DZERO (lp_avg_cost p) \<and>
    (deq (lp_quantity p) DZERO \<longrightarrow> deq (lp_avg_cost p) DZERO) \<and>
    deq (lp_available p) (dsub (lp_quantity p) (lp_frozen p))"
proof -
  obtain ps pv where r: "replay_ledger cash es = Inr ps" "apply_valuations quotes ps = Inr pv"
    "pj_positions pj = pj_positions pv"
    using assms(1) by (auto simp: build_portfolio_projection_def bind_res_eq_Inr)
  have "projection_ok pv" by (rule apply_valuations_ok [OF r(2) replay_ledger_ok [OF r(1) assms(2)]])
  then show ?thesis by (auto simp: projection_ok_def position_ok_def r(3))
qed

section \<open>A sample ledger\<close>

definition no_number :: stored_number where
  "no_number = \<lparr>sn_legacy = None, sn_exact = None\<rparr>"

definition exact_number :: "string \<Rightarrow> stored_number" where
  "exact_number t = \<lparr>sn_legacy = None, sn_exact = Some t\<rparr>"

definition sample_ledger_entry :: "int \<Rightarrow> timestamp \<Rightarrow> string \<Rightarrow> ledger_entry" where
  "sample_ledger_entry i t kind = \<lparr>le_id = Some i, le_type = kind, le_timestamp = Stamp t, le_symbol = None,
     le_direction = None, le_amount = no_number, le_quantity = no_number, le_price = no_number,
     le_commission = \<lparr>sn_legacy = Some (Num DZERO), sn_exact = None\<rparr>, le_provenance = None, le_fees = None,
     le_correction = None, le_asset_class = ''stock'', le_source = ''manual''\<rparr>"

definition sample_trade :: "int \<Rightarrow> timestamp \<Rightarrow> string \<Rightarrow> string \<Rightarrow> string \<Rightarrow> ledger_entry" where
  "sample_trade i t kind q price = (sample_ledger_entry i t kind)\<lparr>le_symbol := Some ''600000'',
     le_quantity := exact_number q, le_price := exact_number price, le_commission := exact_number ''5'',
     le_source := ''portfolio_trade''\<rparr>"

definition sample_deposit :: ledger_entry where
  "sample_deposit = (sample_ledger_entry 1 10 ''cash_deposit'')\<lparr>le_amount := exact_number ''2000''\<rparr>"

definition sample_buy :: ledger_entry where
  "sample_buy = sample_trade 2 20 ''trade_buy'' ''100'' ''10''"

definition sample_sell :: ledger_entry where
  "sample_sell = sample_trade 3 30 ''trade_sell'' ''40'' ''12.5''"

definition sample_ledger :: "ledger_entry list" where
  "sample_ledger = [sample_sell, sample_deposit, sample_buy]"

definition bought_position :: projected_position where
  "bought_position = \<lparr>lp_symbol = ''600000'', lp_quantity = Decimal 100 0, lp_available = Decimal 100 0,
     lp_frozen = DZERO, lp_avg_cost = Decimal 1005 (- 2), lp_market_value = DZERO, lp_unrealized = DZERO,
     lp_valuation_available = False, lp_valuation_price = None, lp_realized = DZERO,
     lp_commission_paid = Decimal 5 0, lp_broker_basis = Decimal 1005 0, lp_broker_unit_cost = Decimal 1005 (- 2),
     lp_broker_difference = Decimal 0 (- 2), lp_broker_method = Some ''broker_remaining_cost'',
     lp_broker_status = Some ''projected_from_ledger'', lp_closed_at = None\<rparr>"

definition sold_position :: projected_position where
  "sold_position = bought_position\<lparr>lp_quantity := Decimal 60 0, lp_available := Decimal 60 0,
     lp_realized := Decimal 9300 (- 2), lp_commission_paid := Decimal 10 0, lp_broker_basis := Decimal 5100 (- 1),
     lp_broker_unit_cost := Decimal 85 (- 1), lp_broker_difference := Decimal (- 9300) (- 2)\<rparr>"

lemma sample_apply_buy:
  "apply_buy (Decimal 100 0) (Decimal 10 0) (Decimal 5 0) (new_projected ''600000'') = Inr bought_position"
  by code_simp

text \<open>
  A manual adjustment that closes a position keeps the cost basis the broker displays, which a closing sale resets: after
  the next purchase the displayed unit cost is twice the average cost.
\<close>

lemma manual_closing_keeps_broker_basis:
  "case adjust_position (Stamp 40) (Decimal (- 100) 0) None bought_position of
     Inl e \<Rightarrow> False
   | Inr flat \<Rightarrow> lp_quantity flat = Decimal 0 0 \<and> lp_broker_basis flat = Decimal 1005 0 \<and>
      (case apply_buy (Decimal 100 0) (Decimal 10 0) (Decimal 5 0) flat of
         Inl e \<Rightarrow> False
       | Inr again \<Rightarrow> deq (lp_broker_basis again) (Decimal 2010 0) \<and> deq (lp_broker_unit_cost again) (Decimal 2010 (- 2)) \<and>
           deq (lp_avg_cost again) (Decimal 1005 (- 2)))"
  by code_simp

lemma sample_apply_sell:
  "apply_sell (Decimal 40 0) (Decimal 125 (- 1)) (Decimal 5 0) (Stamp 30) bought_position = Inr sold_position"
  by code_simp

lemma sample_reads:
  "require_entry_decimal sample_deposit ''amount'' (le_amount sample_deposit) = Inr (Decimal 2000 0)"
  "require_entry_decimal sample_buy ''quantity'' (le_quantity sample_buy) = Inr (Decimal 100 0)"
  "require_entry_decimal sample_buy ''price'' (le_price sample_buy) = Inr (Decimal 10 0)"
  "trade_total_fee sample_buy = Inr (Decimal 5 0)" "trade_side sample_buy = ''buy''"
  "require_entry_decimal sample_sell ''quantity'' (le_quantity sample_sell) = Inr (Decimal 40 0)"
  "require_entry_decimal sample_sell ''price'' (le_price sample_sell) = Inr (Decimal 125 (- 1))"
  "trade_total_fee sample_sell = Inr (Decimal 5 0)" "trade_side sample_sell = ''sell''"
  "normalized (le_type sample_deposit) = ''cash_deposit''" "normalized (le_type sample_buy) = ''trade_buy''"
  "normalized (le_type sample_sell) = ''trade_sell''"
  by code_simp+

lemma sample_sorted: "sorted_entries sample_ledger = Inr [sample_deposit, sample_buy, sample_sell]"
proof -
  have s: "\<forall>e \<in> set sample_ledger. case entry_sort_key e of Inr _ \<Rightarrow> True | Inl _ \<Rightarrow> False" by code_simp
  have k: "replay_key sample_deposit = (10, 1)" "replay_key sample_buy = (20, 2)" "replay_key sample_sell = (30, 3)"
    by code_simp+
  show ?thesis unfolding sorted_entries_Inr using s by (auto simp: sample_ledger_def k split: sum.splits)
qed

definition sample_projection :: projection where
  "sample_projection = \<lparr>pj_cash = Decimal 14900 (- 1), pj_total_equity = Some DZERO,
     pj_total_deposits = Decimal 2000 0, pj_positions = [(''600000'', sold_position)],
     pj_valuation_status = ''complete'', pj_missing = []\<rparr>"

text \<open>The account after the deposit, and after the purchase.\<close>

definition sample_funded :: projection where
  "sample_funded = (add_cash (Decimal 2000 0) (new_projection DZERO))\<lparr>pj_total_deposits := Decimal 2000 0\<rparr>"

definition sample_holding :: projection where
  "sample_holding = put_position ''600000'' bought_position (sub_cash (Decimal 1005 0) sample_funded)"

lemma sample_steps:
  "apply_ledger_entry sample_deposit (new_projection DZERO) = Inr sample_funded"
  "apply_ledger_entry sample_buy sample_funded = Inr sample_holding"
  "apply_ledger_entry sample_sell sample_holding = Inr sample_projection"
proof -
  have d: "dadd DZERO (Decimal 2000 0) = Decimal 2000 0"
    "dadd (dmul (Decimal 100 0) (Decimal 10 0)) (Decimal 5 0) = Decimal 1005 0" by code_simp+
  have names: "require_text (le_symbol sample_buy) ''symbol'' = Inr ''600000''"
    "require_text (le_symbol sample_sell) ''symbol'' = Inr ''600000''" "le_timestamp sample_sell = Stamp 30"
    by code_simp+
  show "apply_ledger_entry sample_deposit (new_projection DZERO) = Inr sample_funded"
    by (simp add: apply_ledger_entry_def sample_reads d) (simp add: sample_funded_def new_projection_def d)
  have "position_at sample_funded ''600000'' = new_projected ''600000''"
    by (simp add: sample_funded_def position_at_def dict_get_default_def new_projection_def)
  then show "apply_ledger_entry sample_buy sample_funded = Inr sample_holding"
    by (simp add: apply_ledger_entry_def apply_trade_entry_def sample_reads names sample_apply_buy d sample_holding_def)
  have "position_at sample_holding ''600000'' = bought_position"
    by (simp add: sample_holding_def sample_funded_def position_at_def dict_get_default_def new_projection_def)
  then have "apply_ledger_entry sample_sell sample_holding = Inr (put_position ''600000'' sold_position
      (add_cash (dsub (dmul (Decimal 40 0) (Decimal 125 (- 1))) (Decimal 5 0)) sample_holding))"
    by (simp add: apply_ledger_entry_def apply_trade_entry_def sample_reads names sample_apply_sell)
  moreover have "put_position ''600000'' sold_position
      (add_cash (dsub (dmul (Decimal 40 0) (Decimal 125 (- 1))) (Decimal 5 0)) sample_holding) = sample_projection"
    by code_simp
  ultimately show "apply_ledger_entry sample_sell sample_holding = Inr sample_projection" by simp
qed

lemma sample_replay: "replay_ledger DZERO sample_ledger = Inr sample_projection"
  by (simp add: replay_ledger_def sample_sorted sample_steps)

definition sample_valued :: projection where
  "sample_valued = sample_projection\<lparr>pj_total_equity := Some (Decimal 20900 (- 1)),
     pj_positions := [(''600000'', sold_position\<lparr>lp_market_value := Decimal 600 0, lp_unrealized := Decimal (- 300) (- 2),
       lp_valuation_available := True, lp_valuation_price := Some (Decimal 10 0)\<rparr>)]\<rparr>"

lemma sample_build:
  "build_portfolio_projection DZERO [(''600000'', JInt 10)] sample_ledger = Inr sample_valued"
proof -
  have "apply_valuations [(''600000'', JInt 10)] sample_projection = Inr (sample_valued\<lparr>pj_total_equity := Some DZERO\<rparr>)"
    by code_simp
  moreover have "dadd (pj_cash sample_valued) (dsum (market_values sample_valued)) = Decimal 20900 (- 1)" by code_simp
  moreover have "pj_missing sample_valued = []" "market_values (sample_valued\<lparr>pj_total_equity := Some DZERO\<rparr>) = market_values sample_valued"
    by (simp_all add: sample_valued_def sample_projection_def market_values_def)
  ultimately show ?thesis
    by (simp add: build_portfolio_projection_def sample_replay) (simp add: sample_valued_def)
qed

lemma sample_sound: "\<forall>e \<in> set sample_ledger. sound_entry e"
  by code_simp

lemma replayed_positions_are_consistent_witness:
  "build_portfolio_projection DZERO [(''600000'', JInt 10)] sample_ledger = Inr sample_valued \<and>
    map lp_quantity (dict_values (pj_positions sample_valued)) = [Decimal 60 0] \<and>
    list_all position_ok (dict_values (pj_positions sample_valued))"
  using replayed_positions_are_consistent [OF sample_build sample_sound] sample_build
  by (auto simp: sample_valued_def sold_position_def position_ok_def)

lemma replay_is_order_independent_witness:
  "build_portfolio_projection DZERO [(''600000'', JInt 10)] (rev sample_ledger) = Inr sample_valued \<and>
    (\<exists>ss a. sorted_entries (rev sample_ledger) = Inr ss \<and> fold_res accumulate ss (new_accumulator DZERO) = Inr a \<and>
      ac_count a = 3)"
proof -
  have d: "distinct (map replay_key sample_ledger)" by code_simp
  have k: "\<forall>e \<in> set sample_ledger. known_class e" by code_simp
  have "length sample_ledger = 3" by (simp add: sample_ledger_def)
  with replay_is_order_independent [OF sample_build mset_rev [symmetric] d] k show ?thesis by auto
qed

end
