(* ===== verification/Ledger_Cash.thy ===== *)
theory Ledger_Cash
  imports Ledger_Facts
begin

text \<open>
  The cash of the replayed account, as a sum over the ledger: every entry has a cash flow, a function of
  its own numbers, and on amounts of a common grid the replay adds exactly these flows. The grid is any
  power of ten (cents, say) on which the amounts lie and whose \<open>10 ^ 28\<close>-fold bounds their total.
\<close>

section \<open>Cash flows\<close>

definition read_or_zero :: "decimal option res \<Rightarrow> decimal" where
  "read_or_zero r = (case r of Inr (Some d) \<Rightarrow> d | _ \<Rightarrow> DZERO)"

definition entry_amount :: "ledger_entry \<Rightarrow> decimal" where
  "entry_amount e = read_or_zero (entry_decimal e ''amount'' (le_amount e) True)"

definition entry_gross :: "ledger_entry \<Rightarrow> rat" where
  "entry_gross e = val (read_or_zero (entry_decimal e ''quantity'' (le_quantity e) True)) *
     val (read_or_zero (entry_decimal e ''price'' (le_price e) True))"

definition entry_fee :: "ledger_entry \<Rightarrow> decimal" where
  "entry_fee e = (case trade_total_fee e of Inr d \<Rightarrow> d | Inl _ \<Rightarrow> DZERO)"

definition correction_delta :: "ledger_entry \<Rightarrow> decimal" where
  "correction_delta e = (case le_correction e of None \<Rightarrow> DZERO
     | Some payload \<Rightarrow> (case doc_decimal (dict_get_default payload ''cash_delta'' (JStr ''0'')) of
         Inr d \<Rightarrow> d | Inl _ \<Rightarrow> DZERO))"

definition trade_kinds :: "string list" where
  "trade_kinds = [''trade_buy'', ''buy'', ''trade'', ''trade_sell'', ''sell'']"

definition cash_flow :: "ledger_entry \<Rightarrow> rat" where
  "cash_flow e = (let kind = normalized (le_type e) in
     if kind \<in> {''cash_withdraw'', ''cash_withdrawal'', ''withdraw'', ''fee''} then - val (entry_amount e)
     else if kind \<in> set trade_kinds
     then (if trade_side e = ''buy'' then - (entry_gross e + val (entry_fee e)) else entry_gross e - val (entry_fee e))
     else if kind \<in> set (dict_keys PROJECTION_CORRECTION_CONTRACTS) then val (correction_delta e)
     else val (entry_amount e))"

text \<open>The amounts of an entry lie on the grid, and how much cash it moves at most.\<close>

definition cash_weight :: "ledger_entry \<Rightarrow> rat" where
  "cash_weight e = (if normalized (le_type e) \<in> set trade_kinds then \<bar>entry_gross e\<bar> + \<bar>val (entry_fee e)\<bar>
     else \<bar>cash_flow e\<bar>)"

definition on_grid :: "int \<Rightarrow> ledger_entry \<Rightarrow> bool" where
  "on_grid k e = (normalized (le_type e) \<noteq> LEGACY_DUPLICATE_TYPE \<and> grid k (entry_amount e) \<and>
     gridv k (entry_gross e) \<and> grid k (entry_fee e) \<and> grid k (correction_delta e))"

section \<open>One entry\<close>

lemma entry_amount_required: "require_entry_decimal e ''amount'' (le_amount e) = Inr d \<Longrightarrow> entry_amount e = d"
  by (drule require_entry_decimal_allow) (simp add: entry_amount_def read_or_zero_def)

lemma entry_gross_required:
  assumes "require_entry_decimal e ''quantity'' (le_quantity e) = Inr q" "require_entry_decimal e ''price'' (le_price e) = Inr p"
  shows "entry_gross e = val q * val p"
  using assms [THEN require_entry_decimal_allow] by (simp add: entry_gross_def read_or_zero_def)

lemma cash_of_put [simp]: "pj_cash (put_position s p pj) = pj_cash pj"
  by (simp add: put_position_def)

lemma cash_of_book [simp]: "pj_cash (book_realized s f pj) = pj_cash pj"
  by (simp add: book_realized_def Let_def)

lemma cash_of_add [simp]: "pj_cash (add_cash d pj) = dadd (pj_cash pj) d" "pj_cash (sub_cash d pj) = dsub (pj_cash pj) d"
  by (simp_all add: add_cash_def sub_cash_def)

lemma grid_add_exact:
  assumes "grid k c" "gridv k x" "\<bar>val c\<bar> + \<bar>x\<bar> \<le> 10 ^ 28 * 10 powi k"
  shows "gridv k (val c + x) \<and> gridv k (val c - x)"
  using gridv_add [OF assms(1,2)] gridv_add [OF assms(1) gridv_minus [OF assms(2)]] assms(3) by auto

lemma correction_cash_delta:
  assumes "apply_projection_correction pj e kind = Inr pj'" "kind \<noteq> LEGACY_DUPLICATE_TYPE"
  shows "pj_cash pj' = dadd (pj_cash pj) (correction_delta e)"
proof -
  obtain label symbol payload before after where payload: "le_correction e = Some payload"
    and run: "apply_correction_payload kind label (le_timestamp e) symbol payload before after pj = Inr pj'"
    using assms(1)
    by (auto simp: apply_projection_correction_def bind_res_eq_Inr Let_def split: option.splits if_splits jdoc.splits)
  obtain cash where "correction_cash kind label payload (pj_cash pj) = Inr cash" "pj_cash pj' = cash"
    using run by (auto simp: apply_correction_payload_def bind_res_eq_Inr Let_def split: if_splits)
  then show ?thesis
    using assms(2) by (auto simp: correction_cash_def bind_res_eq_Inr correction_delta_def payload)
qed

lemma kinds_apart:
  "k \<in> {''cash_deposit'', ''deposit''} \<Longrightarrow> k \<notin> set trade_kinds \<and> k \<notin> set (dict_keys PROJECTION_CORRECTION_CONTRACTS) \<and>
    k \<notin> {''cash_withdraw'', ''cash_withdrawal'', ''withdraw'', ''fee''}"
  "k \<in> {''dividend'', ''cash_interest'', ''interest_income'', ''manual_adjustment''} \<Longrightarrow>
    k \<notin> set trade_kinds \<and> k \<notin> set (dict_keys PROJECTION_CORRECTION_CONTRACTS) \<and>
    k \<notin> {''cash_withdraw'', ''cash_withdrawal'', ''withdraw'', ''fee''}"
  "k \<in> {''cash_withdraw'', ''cash_withdrawal'', ''withdraw'', ''fee''} \<Longrightarrow> k \<notin> set trade_kinds"
  "k \<in> set trade_kinds \<Longrightarrow> k \<notin> {''cash_withdraw'', ''cash_withdrawal'', ''withdraw'', ''fee''}"
  "k \<in> set (dict_keys PROJECTION_CORRECTION_CONTRACTS) \<Longrightarrow> k \<notin> set trade_kinds \<and>
    k \<notin> {''cash_withdraw'', ''cash_withdrawal'', ''withdraw'', ''fee''}"
  by (auto simp: trade_kinds_def PROJECTION_CORRECTION_CONTRACTS_def LEGACY_DUPLICATE_TYPE_def)

lemma trade_cash:
  assumes "apply_trade_entry pj e = Inr pj'" "on_grid k e" "grid k (pj_cash pj)"
    "\<bar>val (pj_cash pj)\<bar> + (\<bar>entry_gross e\<bar> + \<bar>val (entry_fee e)\<bar>) \<le> 10 ^ 28 * 10 powi k"
  shows "val (pj_cash pj') = val (pj_cash pj) +
    (if trade_side e = ''buy'' then - (entry_gross e + val (entry_fee e)) else entry_gross e - val (entry_fee e))"
proof -
  have g: "gridv k (entry_gross e)" "gridv k (val (entry_fee e))" using assms(2) by (simp_all add: on_grid_def)
  have sum: "gridv k (entry_gross e + val (entry_fee e))" "gridv k (entry_gross e - val (entry_fee e))"
    using gridv_add [OF g] gridv_add [OF g(1) gridv_minus [OF g(2)]] assms(4) by auto
  have both: "gridv k (val (pj_cash pj) - (entry_gross e + val (entry_fee e)))"
    "gridv k (val (pj_cash pj) + (entry_gross e - val (entry_fee e)))"
    using grid_add_exact [OF assms(3) sum(1)] grid_add_exact [OF assms(3) sum(2)] assms(4) by auto
  show ?thesis
    using assms(1)
  proof (cases rule: apply_trade_cases)
    case (buy s q price c p)
    have "entry_gross e = val q * val price" "entry_fee e = c"
      using entry_gross_required [OF buy(1,2)] buy(3) by (simp_all add: entry_fee_def)
    then show ?thesis using g(1) sum(1) both(1) by (simp add: buy(4,7) val_simps)
  next
    case (sell s q price c p)
    have "entry_gross e = val q * val price" "entry_fee e = c"
      using entry_gross_required [OF sell(1,2)] sell(3) by (simp_all add: entry_fee_def)
    then show ?thesis using g(1) sum(2) both(2) by (simp add: sell(4,7) val_simps)
  qed
qed

lemma entry_cash:
  assumes "apply_ledger_entry e pj = Inr pj'" "on_grid k e" "grid k (pj_cash pj)"
    "\<bar>val (pj_cash pj)\<bar> + cash_weight e \<le> 10 ^ 28 * 10 powi k"
  shows "val (pj_cash pj') = val (pj_cash pj) + cash_flow e \<and> grid k (pj_cash pj')"
proof -
  let ?c = "pj_cash pj" and ?k = "normalized (le_type e)"
  note g = assms(2) [unfolded on_grid_def]
  have add: "val (dadd ?c d) = val ?c + val d \<and> val (dsub ?c d) = val ?c - val d"
    if "grid k d" "\<bar>val ?c\<bar> + \<bar>val d\<bar> \<le> 10 ^ 28 * 10 powi k" for d
    using grid_add_exact [OF assms(3) that] gridv_rnd by (metis val_dadd val_dsub)
  have "val (pj_cash pj') = val ?c + cash_flow e"
    using assms(1)
  proof (cases rule: apply_ledger_entry_cases)
    case (deposit amount)
    have "cash_flow e = val amount" "entry_amount e = amount"
      using kinds_apart(1) [OF deposit(1)] entry_amount_required [OF deposit(2)] by (simp_all add: cash_flow_def Let_def)
    then show ?thesis using add [of amount] g assms(4) kinds_apart(1) [OF deposit(1)]
      by (simp add: deposit(3) cash_weight_def)
  next
    case (withdraw amount)
    have w: "?k \<in> {''cash_withdraw'', ''cash_withdrawal'', ''withdraw'', ''fee''}" using withdraw(1) by blast
    have "cash_flow e = - val amount" "entry_amount e = amount"
      using w entry_amount_required [OF withdraw(2)] by (simp_all add: cash_flow_def Let_def)
    then show ?thesis using add [of amount] g assms(4) kinds_apart(3) [OF w]
      by (simp add: withdraw(3) cash_weight_def)
  next
    case trade
    have t: "?k \<in> set trade_kinds" using trade(1) by (simp add: trade_kinds_def)
    show ?thesis
      using trade_cash [OF trade(2) assms(2,3)] assms(4) kinds_apart(4) [OF t] t
      by (simp add: cash_flow_def cash_weight_def Let_def)
  next
    case income
    have w: "?k \<in> {''dividend'', ''cash_interest'', ''interest_income'', ''manual_adjustment''}" using income(1) by blast
    obtain amount where a: "require_entry_decimal e ''amount'' (le_amount e) = Inr amount"
      "pj_cash pj' = dadd ?c amount" using income(2) by (auto simp: apply_cash_income_def bind_res_eq_Inr)
    have "cash_flow e = val amount" "entry_amount e = amount"
      using kinds_apart(2) [OF w] entry_amount_required [OF a(1)] by (simp_all add: cash_flow_def Let_def)
    then show ?thesis using add [of amount] g assms(4) kinds_apart(2) [OF w] by (simp add: a(2) cash_weight_def)
  next
    case expense
    have w: "?k \<in> {''cash_withdraw'', ''cash_withdrawal'', ''withdraw'', ''fee''}" using expense(1) by blast
    obtain amount where a: "require_entry_decimal e ''amount'' (le_amount e) = Inr amount"
      "pj_cash pj' = dsub ?c amount" using expense(2) by (auto simp: apply_cash_expense_def bind_res_eq_Inr)
    have "cash_flow e = - val amount" "entry_amount e = amount"
      using w entry_amount_required [OF a(1)] by (simp_all add: cash_flow_def Let_def)
    then show ?thesis using add [of amount] g assms(4) kinds_apart(3) [OF w] by (simp add: a(2) cash_weight_def)
  next
    case manual
    have w: "?k \<in> {''dividend'', ''cash_interest'', ''interest_income'', ''manual_adjustment''}" using manual(1) by blast
    have f: "cash_flow e = val (entry_amount e)" "cash_weight e = \<bar>val (entry_amount e)\<bar>"
      using kinds_apart(2) [OF w] by (simp_all add: cash_flow_def cash_weight_def Let_def)
    show ?thesis
      using manual(2)
    proof (cases rule: apply_manual_cases)
      case (1 amount pj1)
      have c: "pj_cash pj' = pj_cash pj1" using 1(3) by auto
      show ?thesis
        using 1(1,2) add [of "entry_amount e"] g assms(4)
        by (cases amount) (simp_all add: c f, simp_all add: entry_amount_def read_or_zero_def)
    qed
  next
    case correction
    have f: "cash_flow e = val (correction_delta e)" "cash_weight e = \<bar>val (correction_delta e)\<bar>"
      using kinds_apart(5) [OF correction(1)] correction(1) by (simp_all add: cash_flow_def cash_weight_def Let_def)
    show ?thesis
      using correction_cash_delta [OF correction(2)] add [of "correction_delta e"] g assms(4) by (simp add: f)
  qed
  moreover have "gridv k (cash_flow e) \<and> \<bar>cash_flow e\<bar> \<le> cash_weight e"
  proof (cases "?k \<in> set trade_kinds")
    case True
    then have w: "\<bar>entry_gross e\<bar> + \<bar>val (entry_fee e)\<bar> \<le> 10 ^ 28 * 10 powi k" "cash_weight e = \<bar>entry_gross e\<bar> + \<bar>val (entry_fee e)\<bar>"
      using assms(4) by (auto simp: cash_weight_def)
    have "gridv k (entry_gross e + val (entry_fee e))" "gridv k (entry_gross e + - val (entry_fee e))"
      using g gridv_add [of k "entry_gross e" "val (entry_fee e)"] gridv_add [of k "entry_gross e" "- val (entry_fee e)"]
        gridv_minus w(1) by auto
    then show ?thesis
      using gridv_minus [of k "entry_gross e + val (entry_fee e)"] kinds_apart(4) [OF True] True
      by (auto simp: cash_flow_def Let_def w(2))
  next
    case False
    then show ?thesis using g by (auto simp: cash_flow_def cash_weight_def Let_def gridv_minus)
  qed
  ultimately show ?thesis using grid_add_exact [OF assms(3), of "cash_flow e"] assms(4) by simp
qed

section \<open>The whole ledger\<close>

lemma fold_cash:
  assumes "fold_res apply_ledger_entry es pj = Inr pj'" "\<forall>e \<in> set es. on_grid k e" "grid k (pj_cash pj)"
    "\<bar>val (pj_cash pj)\<bar> + sum_list (map cash_weight es) \<le> 10 ^ 28 * 10 powi k"
  shows "val (pj_cash pj') = val (pj_cash pj) + sum_list (map cash_flow es)"
  using assms
proof (induction es arbitrary: pj)
  case (Cons e es)
  obtain pj1 where pj1: "apply_ledger_entry e pj = Inr pj1" "fold_res apply_ledger_entry es pj1 = Inr pj'"
    using Cons.prems(1) by (auto simp: bind_res_eq_Inr)
  have nonneg: "0 \<le> sum_list (map cash_weight es)" by (rule sum_list_nonneg) (auto simp: cash_weight_def)
  have w: "\<bar>cash_flow e\<bar> \<le> cash_weight e"
    by (auto simp: cash_weight_def cash_flow_def Let_def kinds_apart abs_le_iff)
  have step: "val (pj_cash pj1) = val (pj_cash pj) + cash_flow e \<and> grid k (pj_cash pj1)"
    using entry_cash [OF pj1(1) _ Cons.prems(3)] Cons.prems(2,4) nonneg by auto
  then have "\<bar>val (pj_cash pj1)\<bar> + sum_list (map cash_weight es) \<le> 10 ^ 28 * 10 powi k"
    using Cons.prems(4) w by auto
  then show ?case using Cons.IH [OF pj1(2)] Cons.prems(2) step by auto
qed simp


lemma sample_amounts:
  "entry_amount sample_deposit = Decimal 2000 0" "entry_amount sample_buy = DZERO" "entry_amount sample_sell = DZERO"
  "entry_fee sample_deposit = DZERO" "entry_fee sample_buy = Decimal 5 0" "entry_fee sample_sell = Decimal 5 0"
  "correction_delta sample_deposit = DZERO" "correction_delta sample_buy = DZERO" "correction_delta sample_sell = DZERO"
  by code_simp+

lemma sample_gross: "entry_gross sample_deposit = 0" "entry_gross sample_buy = 1000" "entry_gross sample_sell = 500"
proof -
  have "read_or_zero (entry_decimal sample_deposit ''quantity'' (le_quantity sample_deposit) True) = DZERO" by code_simp
  then show "entry_gross sample_deposit = 0" by (simp add: entry_gross_def)
  show "entry_gross sample_buy = 1000" "entry_gross sample_sell = 500"
    using entry_gross_required [OF sample_reads(2,3)] entry_gross_required [OF sample_reads(6,7)]
    by (simp_all add: val_def powi10_neg)
qed

lemma sample_kinds:
  "normalized (le_type sample_deposit) \<notin> set trade_kinds" "normalized (le_type sample_buy) \<in> set trade_kinds"
  "normalized (le_type sample_sell) \<in> set trade_kinds"
  by (simp_all add: sample_reads trade_kinds_def)


end
