(* ===== verification/Ledger_Corrections.thy ===== *)
theory Ledger_Corrections
  imports Ledger_Facts
begin

text \<open>
  Append-only corrections of the ledger: the plan that removes given entries by replaying the ledger
  without them (\<open>server/projections/ledger_exclusion_correction.py\<close>), the two plans built on it
  (\<open>controlled_ledger_correction.py\<close>, \<open>manual_trade_correction.py\<close>) and the entry that is written for a
  plan (\<open>server/persistence/controlled_ledger_correction_writer.py\<close>). A row is its entry; the text of an
  instant is the parameter \<open>isoformat\<close>. The main result is that appending the entry of a plan restores the
  account that the ledger would have without the removed entries.
\<close>

section \<open>Plans\<close>

definition decimal_string :: "decimal \<Rightarrow> string" where
  "decimal_string d = (if coeff d = 0 then ''0'' else format_f (dec_normalize d))"

definition label_doc :: "string option \<Rightarrow> jdoc" where
  "label_doc l = (case l of None \<Rightarrow> JNil | Some s \<Rightarrow> JStr s)"

definition position_document :: "projected_position option \<Rightarrow> jobject" where
  "position_document position =
     (let p = (case position of None \<Rightarrow> new_projected [] | Some p \<Rightarrow> p) in
      [(''quantity'', JStr (decimal_string (lp_quantity p))),
       (''available_qty'', JStr (decimal_string (lp_available p))),
       (''frozen_qty'', JStr (decimal_string (lp_frozen p))),
       (''avg_cost'', JStr (decimal_string (lp_avg_cost p))),
       (''realized_pnl'', JStr (decimal_string (lp_realized p))),
       (''commission_paid'', JStr (decimal_string (lp_commission_paid p))),
       (''broker_displayed_cost_basis'', JStr (decimal_string (lp_broker_basis p))),
       (''broker_displayed_unit_cost'', JStr (decimal_string (lp_broker_unit_cost p))),
       (''broker_cost_basis_difference'', JStr (decimal_string (lp_broker_difference p))),
       (''broker_cost_basis_method'', label_doc (lp_broker_method p)),
       (''broker_cost_basis_status'', label_doc (lp_broker_status p))])"

definition parsed_instants :: "ledger_entry list \<Rightarrow> timestamp list" where
  "parsed_instants rows = concat (map (\<lambda>e. case le_timestamp e of Stamp t \<Rightarrow> [t] | _ \<Rightarrow> []) rows)"

definition second_micros :: int where "second_micros = 1000000"

text \<open>One second after the last row (or after 1970), in whole seconds.\<close>

definition next_ledger_instant :: "ledger_entry list \<Rightarrow> timestamp" where
  "next_ledger_instant rows =
     (let latest = (case parsed_instants rows of [] \<Rightarrow> 0 | t # ts \<Rightarrow> fold max ts t) in
      (latest + second_micros) div second_micros * second_micros)"

definition plan_error :: "string \<Rightarrow> string \<Rightarrow> py_exc" where
  "plan_error prefix suffix = ValueError (prefix @ ''_'' @ suffix)"

definition entry_id :: "ledger_entry \<Rightarrow> int" where
  "entry_id e = (case le_id e of None \<Rightarrow> 0 | Some i \<Rightarrow> i)"

text \<open>Of rows with the same identity the last one counts.\<close>

definition row_by_id :: "ledger_entry list \<Rightarrow> int \<Rightarrow> ledger_entry option" where
  "row_by_id rows i = (case filter (\<lambda>e. le_id e = Some i) (rev rows) of [] \<Rightarrow> None | e # _ \<Rightarrow> Some e)"

definition replay_or_block :: "string \<Rightarrow> ledger_entry list \<Rightarrow> projection res" where
  "replay_or_block prefix rows = (case build_portfolio_projection DZERO [] rows of
       Inr pj \<Rightarrow> Inr pj
     | Inl (KeyError s) \<Rightarrow> Inl (KeyError s) | Inl (RuntimeError s) \<Rightarrow> Inl (RuntimeError s)
     | Inl AssertionFailure \<Rightarrow> Inl AssertionFailure
     | Inl _ \<Rightarrow> Inl (plan_error prefix ''replay_invalid''))"

definition put_all :: "(string \<times> jdoc) list \<Rightarrow> jobject \<Rightarrow> jobject" where
  "put_all kvs d = fold (\<lambda>(k, v). dict_put k v) kvs d"

definition plan_document ::
  "(timestamp \<Rightarrow> string) \<Rightarrow> string \<Rightarrow> jobject \<Rightarrow> int list \<Rightarrow> timestamp \<Rightarrow> string \<Rightarrow> string \<Rightarrow> projection \<Rightarrow> projection
    \<Rightarrow> string \<Rightarrow> jobject" where
  "plan_document isoformat schema identity ids effective symbol asset_class current target derivation =
     put_all ([(''schema_version'', JStr schema)] @ identity @
       [(''original_ledger_entry_ids'', JArr (map JNum ids)),
        (''effective_at'', JStr (isoformat effective)),
        (''symbol'', JStr symbol),
        (''asset_class'', JStr asset_class),
        (''cash_delta'', JStr (decimal_string (dsub (pj_cash target) (pj_cash current)))),
        (''total_deposits_delta'', JStr ''0''),
        (''position_before'', JMap (position_document (dict_get (pj_positions current) symbol))),
        (''position_after'', JMap (position_document (dict_get (pj_positions target) symbol))),
        (''derivation'', JStr derivation),
        (''arbitrary_financial_input_used'', JTruth False)]) []"

definition exclusion_rows :: "int list \<Rightarrow> ledger_entry list \<Rightarrow> ledger_entry list" where
  "exclusion_rows ids rows = filter (\<lambda>e. entry_id e \<notin> set ids) rows"

definition plan_asset_class :: "ledger_entry \<Rightarrow> string" where
  "plan_asset_class e = normalized (if le_asset_class e = [] then ''stock'' else le_asset_class e)"

definition build_ledger_exclusion_correction_plan ::
  "(timestamp \<Rightarrow> string) \<Rightarrow> ledger_entry list \<Rightarrow> int list \<Rightarrow> string list \<Rightarrow> string \<Rightarrow> jobject \<Rightarrow> string \<Rightarrow> string
    \<Rightarrow> jobject res" where
  "build_ledger_exclusion_correction_plan isoformat rows original_ids sources schema identity prefix derivation =
     (let ids = sort (remdups (filter (\<lambda>i. i \<noteq> 0) original_ids)) in
      if ids = [] then Inl (plan_error prefix ''zero_entry_scope'')
      else if \<exists>i \<in> set ids. row_by_id rows i = None then Inl (plan_error prefix ''original_entry_missing'')
      else
        let originals = map (\<lambda>i. the (row_by_id rows i)) ids;
            symbols = filter (\<lambda>s. s \<noteq> []) (remdups (map entry_symbol originals));
            classes = remdups (map plan_asset_class originals)
        in if \<exists>e \<in> set originals. le_source e \<notin> set sources then Inl (plan_error prefix ''original_lineage_invalid'')
           else if length symbols \<noteq> 1 then Inl (plan_error prefix ''symbol_scope_invalid'')
           else if length classes \<noteq> 1 then Inl (plan_error prefix ''asset_class_scope_invalid'')
           else bind_res (replay_or_block prefix rows) (\<lambda>current.
             bind_res (replay_or_block prefix (exclusion_rows ids rows)) (\<lambda>target.
               let symbol = hd symbols; others = dict_keys (pj_positions current) @ dict_keys (pj_positions target) in
               if \<exists>s \<in> set others. s \<noteq> symbol \<and> position_document (dict_get (pj_positions current) s) \<noteq>
                   position_document (dict_get (pj_positions target) s)
               then Inl (plan_error prefix ''scope_expanded'')
               else if \<not> deq (dsub (pj_total_deposits target) (pj_total_deposits current)) DZERO
               then Inl (plan_error prefix ''deposit_boundary_invalid'')
               else Inr (plan_document isoformat schema identity ids (next_ledger_instant rows) symbol (hd classes)
                 current target derivation))))"

definition rename_error :: "string \<Rightarrow> string \<Rightarrow> 'a res \<Rightarrow> 'a res" where
  "rename_error a b r = (case r of Inl (ValueError s) \<Rightarrow> Inl (ValueError (if s = a then b else s)) | _ \<Rightarrow> r)"

definition build_controlled_ledger_correction_plan ::
  "(timestamp \<Rightarrow> string) \<Rightarrow> ledger_entry list \<Rightarrow> int list \<Rightarrow> string \<Rightarrow> jobject res" where
  "build_controlled_ledger_correction_plan isoformat rows original_ids posting_id =
     rename_error ''controlled_ledger_correction_zero_entry_scope'' ''controlled_ledger_correction_zero_fill_posting''
       (build_ledger_exclusion_correction_plan isoformat rows original_ids [''controlled_submission_ledger_posting'']
         ''karkinos.controlled_submission_ledger_correction_plan.v1'' [(''posting_id'', JStr posting_id)]
         ''controlled_ledger_correction'' ''canonical_replay_excluding_exact_original_posting_entries'')"

definition build_manual_trade_correction_plan ::
  "(timestamp \<Rightarrow> string) \<Rightarrow> ledger_entry list \<Rightarrow> int \<Rightarrow> int \<Rightarrow> jobject res" where
  "build_manual_trade_correction_plan isoformat rows original_id trade_id =
     build_ledger_exclusion_correction_plan isoformat rows [original_id] [''portfolio_trade'']
       ''karkinos.manual_trade_correction_plan.v1'' [(''trade_id'', JStr (int_text trade_id))]
       ''manual_trade_correction'' ''canonical_replay_excluding_exact_original_ledger_entries''"

text \<open>The entry a correction appends; \<open>amount\<close> and \<open>quantity\<close> repeat the plan and are not replayed.\<close>

definition correction_entry ::
  "string \<Rightarrow> string \<Rightarrow> int \<Rightarrow> timestamp \<Rightarrow> string \<Rightarrow> stored_number \<Rightarrow> stored_number \<Rightarrow> jobject \<Rightarrow> ledger_entry" where
  "correction_entry kind source i effective symbol amount quantity plan =
     \<lparr>le_id = Some i, le_type = kind, le_timestamp = Stamp effective, le_symbol = Some symbol,
      le_direction = None, le_amount = amount, le_quantity = quantity,
      le_price = \<lparr>sn_legacy = None, sn_exact = None\<rparr>,
      le_commission = \<lparr>sn_legacy = Some (Num DZERO), sn_exact = Some ''0''\<rparr>,
      le_provenance = Some ''exact_decimal_write_v1'', le_fees = None, le_correction = Some plan,
      le_asset_class = doc_text (doc_get plan ''asset_class''), le_source = source\<rparr>"

section \<open>Documents are read back\<close>

definition representable :: "projected_position \<Rightarrow> bool" where
  "representable p = list_all (\<lambda>d. deq (fix_prec 28 d) d) (fst (accounting_state p))"

lemma decimal_string_read:
  assumes "deq (fix_prec 28 d) d"
  shows "\<exists>d'. text_decimal (decimal_string d) = Inr d' \<and> val d' = val d"
proof (cases "coeff d = 0")
  case True
  have "text_decimal ''0'' = Inr (Decimal 0 0)" by code_simp
  then show ?thesis using True by (simp add: decimal_string_def val_eq_0_iff [symmetric])
next
  case False
  obtain d' where "plain_decimal (format_f (dec_normalize d)) = Num d'" "val d' = val (dec_normalize d)"
    using plain_format_f by blast
  then show ?thesis
    using assms False by (simp add: decimal_string_def text_decimal_def val_dec_normalize val_simps)
qed

lemma label_read: "label_of (label_doc l) = l"
  by (cases l) (simp_all add: label_doc_def label_of_def doc_text_def)

lemma position_document_read:
  assumes "representable p" "position = None \<Longrightarrow> p = new_projected []" "\<And>q. position = Some q \<Longrightarrow> p = q"
  shows "\<exists>st. normalized_position_state (position_document position) = Inr st \<and> same_state (accounting_state p) st \<and>
    length (fst st) = 9"
proof -
  have p: "(case position of None \<Rightarrow> new_projected [] | Some p \<Rightarrow> p) = p" using assms(2,3) by (cases position) auto
  let ?ds = "fst (accounting_state p)"
  let ?doc = "position_document position"
  have "dict_keys ?doc = position_decimal_fields @ [''broker_cost_basis_method'', ''broker_cost_basis_status'']"
    by (simp add: position_document_def position_decimal_fields_def Let_def)
  then have keys: "set (dict_keys ?doc) =
      set (''broker_cost_basis_method'' # ''broker_cost_basis_status'' # position_decimal_fields)"
    by (simp only: set_append list.set) blast
  have docs: "map (\<lambda>k. doc_get ?doc k) position_decimal_fields = map (\<lambda>d. JStr (decimal_string d)) ?ds"
    by (simp add: position_document_def p position_decimal_fields_def accounting_state_def doc_get_def dict_get_default_def)
  have read: "\<exists>ds'. map_res (\<lambda>d. doc_decimal (JStr (decimal_string d))) ds = Inr ds' \<and> list_all2 deq ds ds'"
    if "list_all (\<lambda>d. deq (fix_prec 28 d) d) ds" for ds
    using that
  proof (induction ds)
    case (Cons d ds)
    obtain d' where "text_decimal (decimal_string d) = Inr d'" "val d' = val d"
      using decimal_string_read Cons.prems by auto
    then show ?case using Cons by (auto simp: doc_decimal_def doc_text_def deq_val)
  qed simp
  obtain ds' where ds': "map_res (\<lambda>d. doc_decimal (JStr (decimal_string d))) ?ds = Inr ds'" "list_all2 deq ?ds ds'"
    using read assms(1) unfolding representable_def by blast
  have fuse: "map_res (\<lambda>x. f (g x)) xs = map_res f (map g xs)" for f :: "jdoc \<Rightarrow> decimal res" and g :: "'z \<Rightarrow> jdoc" and xs
    by (induction xs) simp_all
  have "map_res (\<lambda>k. doc_decimal (doc_get ?doc k)) position_decimal_fields =
      map_res doc_decimal (map (\<lambda>d. JStr (decimal_string d)) ?ds)"
    unfolding docs [symmetric] by (rule fuse)
  also have "\<dots> = Inr ds'" unfolding ds'(1) [symmetric] by (rule fuse [symmetric])
  finally have "map_res (\<lambda>k. doc_decimal (doc_get ?doc k)) position_decimal_fields = Inr ds'" .
  moreover have "label_of (doc_get ?doc ''broker_cost_basis_method'') = lp_broker_method p"
    "label_of (doc_get ?doc ''broker_cost_basis_status'') = lp_broker_status p"
    by (simp_all add: position_document_def p doc_get_def dict_get_default_def label_read)
  ultimately show ?thesis
    using ds'(2) keys list_all2_lengthD [OF ds'(2)]
    by (auto simp: normalized_position_state_def same_state_def accounting_state_def)
qed

section \<open>Reading a plan\<close>

lemma put_all_get: "dict_get (put_all kvs d) k = (case map_of (rev kvs) k of None \<Rightarrow> dict_get d k | Some v \<Rightarrow> Some v)"
proof (induction kvs arbitrary: d)
  case (Cons kv kvs)
  obtain a b where kv: "kv = (a, b)" by (cases kv)
  have "put_all (kv # kvs) d = put_all kvs (dict_put a b d)" by (simp add: put_all_def kv)
  then show ?case using Cons.IH by (simp add: kv map_add_def split: option.splits)
qed (simp add: put_all_def)

lemma plan_reads:
  fixes isoformat schema identity ids effective symbol ac current target derivation
  defines "plan \<equiv> plan_document isoformat schema identity ids effective symbol ac current target derivation"
  shows "doc_get plan ''symbol'' = JStr symbol" "doc_get plan ''arbitrary_financial_input_used'' = JTruth False"
    "dict_get_default plan ''cash_delta'' (JStr ''0'') = JStr (decimal_string (dsub (pj_cash target) (pj_cash current)))"
    "dict_get_default plan ''total_deposits_delta'' (JStr ''0'') = JStr ''0''"
    "doc_get plan ''position_before'' = JMap (position_document (dict_get (pj_positions current) symbol))"
    "doc_get plan ''position_after'' = JMap (position_document (dict_get (pj_positions target) symbol))"
    "''schema_version'' \<notin> set (dict_keys identity) \<Longrightarrow> doc_get plan ''schema_version'' = JStr schema"
  by (simp_all add: plan_def plan_document_def doc_get_def dict_get_default_def put_all_get map_add_def
      map_of_eq_None_iff [THEN iffD2])

section \<open>The last entry of a ledger\<close>

lemma latest_instant: "t \<in> set ts \<Longrightarrow> t \<le> (case ts of [] \<Rightarrow> 0 | u # us \<Rightarrow> fold max us (u :: int))"
proof -
  have fold_max: "a \<le> fold max xs a \<and> (\<forall>x \<in> set xs. x \<le> fold max xs a)" for a :: int and xs
  proof (induction xs arbitrary: a)
    case (Cons x xs)
    have "x \<le> max x a" "a \<le> max x a" "max x a \<le> fold max xs (max x a)" using Cons.IH [of "max x a"] by simp_all
    then have "x \<le> fold max xs (max x a)" "a \<le> fold max xs (max x a)" by linarith+
    then show ?case using Cons.IH [of "max x a"] by simp
  qed simp
  assume "t \<in> set ts"
  then show ?thesis by (cases ts) (use fold_max in auto)
qed

lemma next_instant_later:
  assumes "e \<in> set rows" "le_timestamp e = Stamp t"
  shows "t < next_ledger_instant rows"
proof -
  have "t \<in> set (parsed_instants rows)" using assms by (auto simp: parsed_instants_def intro!: bexI [of _ e])
  then have "t \<le> (case parsed_instants rows of [] \<Rightarrow> 0 | u # us \<Rightarrow> fold max us u)" by (rule latest_instant)
  moreover have "m < (m + second_micros) div second_micros * second_micros" for m
    by (simp add: second_micros_def)
  ultimately show ?thesis unfolding next_ledger_instant_def Let_def by (meson le_less_trans)
qed

lemma sort_key_snoc:
  "\<forall>x \<in> set xs. f x \<le> f y \<Longrightarrow> sort_key f (xs @ [y]) = sort_key f xs @ [y]"
proof (induction xs)
  case (Cons x xs)
  have "insort_key f x (ys @ [y]) = insort_key f x ys @ [y]" if "\<forall>z \<in> set ys. f z \<le> f y" for ys
    using that Cons.prems by (induction ys) auto
  then show ?case using Cons by simp
qed simp

lemma fold_res_append: "fold_res f (xs @ ys) st = bind_res (fold_res f xs st) (fold_res f ys)"
proof (induction xs arbitrary: st)
  case (Cons x xs)
  then show ?case by (cases "f x st") simp_all
qed simp

lemma replay_appended:
  assumes "replay_ledger cash rows = Inr raw" "le_timestamp c = Stamp (next_ledger_instant rows)"
  shows "replay_ledger cash (rows @ [c]) = apply_ledger_entry c raw"
proof -
  have ok: "\<forall>e \<in> set rows. \<exists>k. entry_sort_key e = Inr k" and run: "fold_res apply_ledger_entry (sort_key replay_key rows) (new_projection cash) = Inr raw"
    using assms(1) by (auto simp: replay_ledger_def bind_res_eq_Inr sorted_entries_Inr)
  have c: "\<exists>k. entry_sort_key c = Inr k" "fst (replay_key c) = next_ledger_instant rows"
    by (simp_all add: entry_sort_key_def replay_key_def assms(2))
  have "replay_key e \<le> replay_key c" if e: "e \<in> set rows" for e
  proof -
    obtain t where t: "le_timestamp e = Stamp t" using ok e by (cases "le_timestamp e") (auto simp: entry_sort_key_def)
    then have "fst (replay_key e) < fst (replay_key c)"
      using next_instant_later [OF e t] by (simp add: replay_key_def entry_sort_key_def assms(2))
    then show ?thesis by (simp add: less_eq_prod_def)
  qed
  then have "sorted_entries (rows @ [c]) = Inr (sort_key replay_key rows @ [c])"
    using ok c(1) by (simp add: sorted_entries_Inr sort_key_snoc)
  then show ?thesis by (simp add: replay_ledger_def fold_res_append run)
    (cases "apply_ledger_entry c raw", simp_all)
qed

section \<open>Appending the entry of a plan\<close>

lemma same_state_sym: "same_state a b \<Longrightarrow> same_state b a"
  by (auto simp: same_state_def list_all2_conv_all_nth deq_val)

lemma set_accounting_state_read:
  assumes "length (fst st) = 9"
  shows "accounting_state (set_accounting_state st p) = st"
proof -
  obtain a b c d e f g h i m s where "st = ([a, b, c, d, e, f, g, h, i], m, s)"
    using assms by (cases st) (auto simp: numeral_eq_Suc length_Suc_conv)
  then show ?thesis by (simp add: set_accounting_state_def accounting_state_def)
qed

lemma accounting_correction_closing [simp]: "accounting_state (correction_closing now q p) = accounting_state p"
  by (simp add: correction_closing_def accounting_state_def)

lemma correct_position_reaches:
  assumes "same_state (accounting_state q) st" "length (fst st) = 9" "position_ok q"
  shows "\<exists>p'. correct_position now label st p = Inr p' \<and> accounting_state p' = st"
proof -
  let ?p = "correction_closing now (lp_quantity p) (set_accounting_state st p)"
  have a: "accounting_state ?p = st" using set_accounting_state_read [OF assms(2)] by simp
  then have "same_state (accounting_state q) (accounting_state ?p)" using assms(1) by simp
  then have "val (lp_available ?p) = cr (val (lp_quantity ?p) - val (lp_frozen ?p))"
    using assms(3) by (simp add: same_state_def accounting_state_def deq_val position_ok_val)
  then have "deq (lp_available ?p) (dsub (lp_quantity ?p) (lp_frozen ?p))" by (simp add: val_simps)
  then show ?thesis using a by (simp add: correct_position_def Let_def)
qed

lemma accounting_position_at:
  assumes "list_all2 (\<lambda>x y. fst y = fst x \<and> accounting_state (snd y) = accounting_state (snd x)) xs ys"
  shows "(dict_get xs s = None \<longleftrightarrow> dict_get ys s = None) \<and>
    accounting_state (dict_get_default ys s d) = accounting_state (dict_get_default xs s d)"
  using assms by (induction rule: list_all2_induct) (auto simp: dict_get_default_def)

lemma accounting_new: "accounting_state (new_projected s) = accounting_state (new_projected [])"
  by (simp add: accounting_state_def new_projected_def)

lemma plan_cases:
  assumes "build_ledger_exclusion_correction_plan isoformat rows original_ids sources schema identity prefix derivation = Inr plan"
    "build_portfolio_projection DZERO [] rows = Inr current"
    "build_portfolio_projection DZERO [] (exclusion_rows (filter (\<lambda>i. i \<noteq> 0) original_ids) rows) = Inr target"
  obtains ids symbol ac where
    "plan = plan_document isoformat schema identity ids (next_ledger_instant rows) symbol ac current target derivation"
    "symbol \<noteq> []" "deq (dsub (pj_total_deposits target) (pj_total_deposits current)) DZERO"
    "\<And>s. s \<noteq> symbol \<Longrightarrow> position_document (dict_get (pj_positions current) s) =
      position_document (dict_get (pj_positions target) s)"
proof -
  let ?ids = "sort (remdups (filter (\<lambda>i. i \<noteq> 0) original_ids))"
  let ?originals = "map (\<lambda>i. the (row_by_id rows i)) ?ids"
  let ?symbols = "filter (\<lambda>s. s \<noteq> []) (remdups (map entry_symbol ?originals))"
  have same: "exclusion_rows ?ids rows = exclusion_rows (filter (\<lambda>i. i \<noteq> 0) original_ids) rows"
    by (simp add: exclusion_rows_def)
  have run: "replay_or_block prefix rows = Inr current" "replay_or_block prefix (exclusion_rows ?ids rows) = Inr target"
    by (simp_all add: replay_or_block_def assms(2,3) same)
  note p = assms(1) [unfolded build_ledger_exclusion_correction_plan_def Let_def run bind_res_simps]
  have one: "length ?symbols = 1" using p by (elim if_Inl_InrE) (simp only: not_not)
  have doc: "plan = plan_document isoformat schema identity ?ids (next_ledger_instant rows) (hd ?symbols)
      (hd (remdups (map plan_asset_class ?originals))) current target derivation"
    using p by (elim if_Inl_InrE) (simp only: sum.inject)
  have dep: "deq (dsub (pj_total_deposits target) (pj_total_deposits current)) DZERO"
    using p by (elim if_Inl_InrE) (simp only: not_not)
  have scope: "\<not> (\<exists>s \<in> set (dict_keys (pj_positions current) @ dict_keys (pj_positions target)). s \<noteq> hd ?symbols \<and>
      position_document (dict_get (pj_positions current) s) \<noteq> position_document (dict_get (pj_positions target) s))"
    using p by (elim if_Inl_InrE) assumption
  have "hd ?symbols \<in> set ?symbols" using one by (intro hd_in_set) auto
  then have ne: "hd ?symbols \<noteq> []" by simp
  have "position_document (dict_get (pj_positions current) s) = position_document (dict_get (pj_positions target) s)"
    if "s \<noteq> hd ?symbols" for s
  proof (cases "s \<in> set (dict_keys (pj_positions current) @ dict_keys (pj_positions target))")
    case False
    then have "dict_get (pj_positions current) s = None" "dict_get (pj_positions target) s = None"
      by (simp_all add: map_of_eq_None_iff)
    then show ?thesis by simp
  qed (use scope that in blast)
  then show thesis by (rule that [OF doc ne dep])
qed

text \<open>The numbers of a projection have no more digits than the context keeps.\<close>

definition within_precision :: "projection \<Rightarrow> bool" where
  "within_precision pj = ((\<forall>p \<in> set (dict_values (pj_positions pj)). representable p) \<and>
     deq (fix_prec 28 (pj_cash pj)) (pj_cash pj) \<and> deq (fix_prec 28 (pj_total_deposits pj)) (pj_total_deposits pj))"

lemma document_state:
  assumes "within_precision pj"
  shows "\<exists>st. normalized_position_state (position_document (dict_get (pj_positions pj) s)) = Inr st \<and>
    same_state (accounting_state (position_at pj s)) st \<and> length (fst st) = 9"
proof -
  define p where "p = (case dict_get (pj_positions pj) s of None \<Rightarrow> new_projected [] | Some p \<Rightarrow> p)"
  have a: "accounting_state (position_at pj s) = accounting_state p"
    using accounting_new [of s] by (cases "dict_get (pj_positions pj) s") (simp_all add: p_def position_at_def dict_get_default_def)
  have "representable (new_projected [])" by code_simp
  then have "representable p"
    using assms unfolding p_def within_precision_def
    by (cases "dict_get (pj_positions pj) s") (auto simp only: option.case dest: dict_values_get)
  then show ?thesis unfolding a by (rule position_document_read) (simp_all add: p_def)
qed

lemma same_state_trans: "same_state a b \<Longrightarrow> same_state b c \<Longrightarrow> same_state a c"
  by (auto simp: same_state_def list_all2_conv_all_nth deq_val)

lemma same_documents:
  assumes "within_precision a" "within_precision b"
    "position_document (dict_get (pj_positions a) s) = position_document (dict_get (pj_positions b) s)"
  shows "same_state (accounting_state (position_at a s)) (accounting_state (position_at b s))"
proof -
  obtain st where "normalized_position_state (position_document (dict_get (pj_positions a) s)) = Inr st"
    "same_state (accounting_state (position_at a s)) st" using document_state [OF assms(1)] by blast
  moreover obtain st' where "normalized_position_state (position_document (dict_get (pj_positions b) s)) = Inr st'"
    "same_state (accounting_state (position_at b s)) st'" using document_state [OF assms(2)] by blast
  ultimately show ?thesis using assms(3) same_state_sym same_state_trans by (metis sum.inject(2))
qed

lemma contract_kinds:
  assumes "dict_get PROJECTION_CORRECTION_CONTRACTS kind = Some (source, schema, label)"
  shows "normalized kind = kind \<and> kind \<notin> {''cash_deposit'', ''deposit'', ''cash_withdraw'', ''cash_withdrawal'', ''withdraw'',
    ''trade_buy'', ''buy'', ''trade'', ''trade_sell'', ''sell'', ''dividend'', ''cash_interest'', ''interest_income'',
    ''fee'', ''manual_adjustment''} \<and> kind \<in> set (dict_keys PROJECTION_CORRECTION_CONTRACTS)"
proof -
  have k: "kind \<in> set (dict_keys PROJECTION_CORRECTION_CONTRACTS)" using assms by (force dest: dict_get_SomeD)
  have all: "list_all (\<lambda>k. normalized k = k) (dict_keys PROJECTION_CORRECTION_CONTRACTS)" by code_simp
  from k all show ?thesis
    by (auto simp: list_all_iff) (auto simp: PROJECTION_CORRECTION_CONTRACTS_def LEGACY_DUPLICATE_TYPE_def)
qed

lemma apply_valuations_nil: "\<exists>pj'. apply_valuations [] pj = Inr pj'"
proof -
  have "\<exists>y. value_one [] x = Inr y" for x by (cases x) (simp add: value_one_def quote_price_def)
  then have "\<exists>ps. map_res (value_one []) (pj_positions pj) = Inr ps" by (simp add: map_res_total)
  then show ?thesis by (auto simp: apply_valuations_def Let_def)
qed

lemma build_nil:
  assumes "build_portfolio_projection cash [] es = Inr pj"
  obtains raw where "replay_ledger cash es = Inr raw" "pj_cash pj = pj_cash raw" "pj_total_deposits pj = pj_total_deposits raw"
    "\<And>s. accounting_state (position_at pj s) = accounting_state (position_at raw s)"
proof -
  obtain raw v where r: "replay_ledger cash es = Inr raw" "apply_valuations [] raw = Inr v"
    "pj_positions pj = pj_positions v" "pj_cash pj = pj_cash v" "pj_total_deposits pj = pj_total_deposits v"
    using assms by (auto simp: build_portfolio_projection_def bind_res_eq_Inr)
  note a = apply_valuations_positions [OF r(2)]
  have "accounting_state (position_at pj s) = accounting_state (position_at raw s)" for s
    using accounting_position_at [OF conjunct1 [OF a]] by (simp add: position_at_def r(3))
  then show thesis using a r that by simp
qed

lemma build_nil_exists:
  assumes "replay_ledger cash es = Inr raw"
  shows "\<exists>pj. build_portfolio_projection cash [] es = Inr pj"
  using apply_valuations_nil [of raw] by (auto simp: build_portfolio_projection_def assms)

section \<open>The account is restored\<close>

text \<open>What a correction entry does to the replayed account its plan was made from.\<close>

lemma correction_applies:
  assumes contract: "dict_get PROJECTION_CORRECTION_CONTRACTS kind = Some (source, schema, label)" "kind \<noteq> LEGACY_DUPLICATE_TYPE"
    and schema: "''schema_version'' \<notin> set (dict_keys identity)"
    and plan: "plan = plan_document isoformat schema identity ids effective symbol ac current target derivation"
    and c: "c = correction_entry kind source i now (doc_text (doc_get plan ''symbol'')) amount quantity plan"
    and symbol: "symbol \<noteq> []"
    and raw: "pj_cash current = pj_cash raw"
      "accounting_state (position_at current symbol) = accounting_state (position_at raw symbol)"
    and precise: "within_precision current" "within_precision target" "position_ok (position_at target symbol)"
  shows "\<exists>pj p' delta zero st. apply_ledger_entry c raw = Inr pj \<and>
    pj = put_position symbol p' (raw\<lparr>pj_cash := dadd (pj_cash raw) delta, pj_total_deposits := dadd (pj_total_deposits raw) zero\<rparr>) \<and>
    val delta = val (dsub (pj_cash target) (pj_cash current)) \<and> val zero = 0 \<and>
    accounting_state p' = st \<and> same_state (accounting_state (position_at target symbol)) st"
proof -
  note k = contract_kinds [OF contract(1)]
  note reads = plan_reads [where isoformat = isoformat and schema = schema and identity = identity and ids = ids and effective = effective
      and symbol = symbol and ac = ac and current = current and target = target and derivation = derivation, folded plan]
  have sch: "doc_get plan ''schema_version'' = JStr schema" by (rule reads(7) [OF schema])
  have named: "doc_text (doc_get plan ''symbol'') = symbol" by (simp add: reads doc_text_def)
  obtain before where before: "normalized_position_state (position_document (dict_get (pj_positions current) symbol)) = Inr before"
    "same_state (accounting_state (position_at raw symbol)) before"
    using document_state [OF precise(1), of symbol] raw(2) by auto
  obtain st where st: "normalized_position_state (position_document (dict_get (pj_positions target) symbol)) = Inr st"
    "same_state (accounting_state (position_at target symbol)) st" "length (fst st) = 9"
    using document_state [OF precise(2)] by blast
  obtain p' where p': "correct_position (Stamp now) label st (position_at raw symbol) = Inr p'" "accounting_state p' = st"
    using correct_position_reaches [OF st(2,3) precise(3)] by blast
  have "deq (fix_prec 28 (dsub (pj_cash target) (pj_cash current))) (dsub (pj_cash target) (pj_cash current))"
    by (simp add: val_simps)
  then obtain delta where delta: "text_decimal (decimal_string (dsub (pj_cash target) (pj_cash current))) = Inr delta"
    "val delta = val (dsub (pj_cash target) (pj_cash current))" using decimal_string_read by blast
  have zero: "text_decimal ''0'' = Inr (Decimal 0 0)" by code_simp
  have cash: "correction_cash kind label plan (pj_cash raw) = Inr (dadd (pj_cash raw) delta)"
    using contract(2) by (simp add: correction_cash_def reads doc_decimal_def doc_text_def delta(1))
  let ?pj = "put_position symbol p' (raw\<lparr>pj_cash := dadd (pj_cash raw) delta,
      pj_total_deposits := dadd (pj_total_deposits raw) (Decimal 0 0)\<rparr>)"
  have body: "apply_correction_payload kind label (Stamp now) symbol plan
      (position_document (dict_get (pj_positions current) symbol))
      (position_document (dict_get (pj_positions target) symbol)) raw = Inr ?pj"
    by (simp add: apply_correction_payload_def Let_def before st(1) cash reads doc_decimal_def doc_text_def zero p'(1) deq_val)
  have "apply_projection_correction raw c kind = Inr ?pj"
    using symbol body
    by (simp add: apply_projection_correction_def contract(1) c correction_entry_def named reads(1-6) sch doc_truthy_def
        require_text_def or_empty_def Let_def)
      (simp add: doc_text_def)
  moreover have "normalized (le_type c) = kind" using k by (simp add: c correction_entry_def)
  ultimately have "apply_ledger_entry c raw = Inr ?pj" using k by (simp add: apply_ledger_entry_def Let_def)
  then show ?thesis using delta(2) p'(2) st(2) by (intro exI [of _ ?pj] exI [of _ p'] exI [of _ delta] exI [of _ "Decimal 0 0"] exI [of _ st]) simp
qed


text \<open>C33: a correction restores the account. Where a plan that removes entries from the ledger is accepted,
  appending the entry of the plan gives an account with the cash, the deposits and every position (quantity,
  availability, cost, realised result, fees and broker figures) that the ledger has without the removed
  entries, provided the amounts fit the precision.\<close>

theorem correction_restores_account:
  assumes "build_ledger_exclusion_correction_plan isoformat rows original_ids sources schema identity prefix derivation = Inr plan"
    "dict_get PROJECTION_CORRECTION_CONTRACTS kind = Some (source, schema, label)" "kind \<noteq> LEGACY_DUPLICATE_TYPE"
    "''schema_version'' \<notin> set (dict_keys identity)"
    "build_portfolio_projection DZERO [] rows = Inr current"
    "build_portfolio_projection DZERO [] (exclusion_rows (filter (\<lambda>i. i \<noteq> 0) original_ids) rows) = Inr target"
    "\<forall>e \<in> set rows. sound_entry e" "within_precision current" "within_precision target"
    "deq (dsub (pj_cash target) (pj_cash current)) (exact_add (pj_cash target) (exact_neg (pj_cash current)))"
    "c = correction_entry kind source i (next_ledger_instant rows) (doc_text (doc_get plan ''symbol'')) amount quantity plan"
  shows "\<exists>pj. build_portfolio_projection DZERO [] (rows @ [c]) = Inr pj \<and>
    deq (pj_cash pj) (pj_cash target) \<and> deq (pj_total_deposits pj) (pj_total_deposits target) \<and>
    (\<forall>s. same_state (accounting_state (position_at pj s)) (accounting_state (position_at target s)))"
proof -
  obtain ids symbol ac where plan: "plan = plan_document isoformat schema identity ids (next_ledger_instant rows) symbol ac
      current target derivation" "symbol \<noteq> []" "deq (dsub (pj_total_deposits target) (pj_total_deposits current)) DZERO"
    "\<And>s. s \<noteq> symbol \<Longrightarrow> position_document (dict_get (pj_positions current) s) =
      position_document (dict_get (pj_positions target) s)" by (rule plan_cases [OF assms(1,5,6)]) blast
  obtain raw where raw: "replay_ledger DZERO rows = Inr raw" "pj_cash current = pj_cash raw"
    "pj_total_deposits current = pj_total_deposits raw"
    "\<And>s. accounting_state (position_at current s) = accounting_state (position_at raw s)"
    using build_nil [OF assms(5)] by metis
  obtain traw where traw: "replay_ledger DZERO (exclusion_rows (filter (\<lambda>i. i \<noteq> 0) original_ids) rows) = Inr traw"
    "\<And>s. accounting_state (position_at target s) = accounting_state (position_at traw s)"
    using build_nil [OF assms(6)] by metis
  have "projection_ok traw" by (rule replay_ledger_ok [OF traw(1)]) (use assms(7) in \<open>auto simp: exclusion_rows_def\<close>)
  then have ok: "position_ok (position_at target symbol)" using position_at_ok position_ok_state traw(2) by blast
  obtain rawc p' delta zero st where step: "apply_ledger_entry c raw = Inr rawc"
    "rawc = put_position symbol p' (raw\<lparr>pj_cash := dadd (pj_cash raw) delta, pj_total_deposits := dadd (pj_total_deposits raw) zero\<rparr>)"
    "val delta = val (dsub (pj_cash target) (pj_cash current))" "val zero = 0" "accounting_state p' = st"
    "same_state (accounting_state (position_at target symbol)) st"
    using correction_applies [OF assms(2-4) plan(1) assms(11) plan(2) raw(2) raw(4) assms(8,9) ok] by blast
  have "replay_ledger DZERO (rows @ [c]) = Inr rawc"
    using replay_appended [OF raw(1), of c] step(1) by (simp add: assms(11) correction_entry_def)
  then obtain pj where built: "build_portfolio_projection DZERO [] (rows @ [c]) = Inr pj" using build_nil_exists by blast
  obtain r where "replay_ledger DZERO (rows @ [c]) = Inr r" "pj_cash pj = pj_cash r" "pj_total_deposits pj = pj_total_deposits r"
    "\<And>s. accounting_state (position_at pj s) = accounting_state (position_at r s)" using build_nil [OF built] by metis
  then have pj: "pj_cash pj = pj_cash rawc" "pj_total_deposits pj = pj_total_deposits rawc"
    "\<And>s. accounting_state (position_at pj s) = accounting_state (position_at rawc s)"
    using \<open>replay_ledger DZERO (rows @ [c]) = Inr rawc\<close> by simp_all
  have precise: "cr (val (pj_cash target)) = val (pj_cash target)" "cr (val (pj_total_deposits current)) = val (pj_total_deposits current)"
    using assms(8,9) by (simp_all add: within_precision_def val_simps)
  have cash: "deq (pj_cash pj) (pj_cash target)"
    using assms(10) precise(1) by (simp add: pj(1) step(2,3) raw(2) [symmetric] val_simps put_position_def)
  have "val (pj_total_deposits target) = val (pj_total_deposits current)"
    using plan(3) by (simp add: val_simps rnd_eq_0_iff)
  then have deposits: "deq (pj_total_deposits pj) (pj_total_deposits target)"
    using precise(2) by (simp add: pj(2) step(2,4) raw(3) [symmetric] val_simps put_position_def)
  have "same_state (accounting_state (position_at pj s)) (accounting_state (position_at target s))" for s
  proof (cases "s = symbol")
    case True
    have "position_at rawc symbol = p'" by (simp add: step(2) position_at_def put_position_def dict_get_default_def)
    then show ?thesis using True same_state_sym [OF step(6)] by (simp add: pj(3) step(5))
  next
    case False
    have "position_at rawc s = position_at raw s"
      using False by (simp add: step(2) position_at_def put_position_def dict_get_default_def)
    then show ?thesis using same_documents [OF assms(8,9) plan(4) [OF False]] by (simp add: pj(3) raw(4))
  qed
  with built cash deposits show ?thesis by blast
qed


section \<open>A correction of the sample ledger\<close>

definition unpriced :: "projection \<Rightarrow> projection" where
  "unpriced pj = pj\<lparr>pj_total_equity := None, pj_valuation_status := ''blocked'', pj_missing := [''600000'']\<rparr>"

definition sample_clock :: "timestamp \<Rightarrow> string" where
  "sample_clock t = ''1970-01-01T00:00:01+00:00''"

text \<open>The sale is removed: the account before it and the account without it.\<close>

definition sample_plan :: jobject where
  "sample_plan = plan_document sample_clock ''karkinos.manual_trade_correction_plan.v1'' [(''trade_id'', JStr ''7'')] [3]
     (next_ledger_instant sample_ledger) ''600000'' ''stock'' (unpriced sample_projection) (unpriced sample_holding)
     ''canonical_replay_excluding_exact_original_ledger_entries''"

definition sample_correction :: ledger_entry where
  "sample_correction = correction_entry ''manual_trade_projection_correction'' ''manual_trade_correction'' 4
     (next_ledger_instant sample_ledger) (doc_text (doc_get sample_plan ''symbol'')) no_number no_number sample_plan"

lemma sample_builds:
  "build_portfolio_projection DZERO [] sample_ledger = Inr (unpriced sample_projection)"
  "exclusion_rows [3] sample_ledger = [sample_deposit, sample_buy]"
  "build_portfolio_projection DZERO [] [sample_deposit, sample_buy] = Inr (unpriced sample_holding)"
proof -
  have v: "apply_valuations [] sample_projection = Inr ((unpriced sample_projection)\<lparr>pj_total_equity := Some DZERO\<rparr>)"
    "apply_valuations [] sample_holding = Inr ((unpriced sample_holding)\<lparr>pj_total_equity := Some DZERO\<rparr>)" by code_simp+
  have k: "replay_key sample_deposit = (10, 1)" "replay_key sample_buy = (20, 2)" by code_simp+
  have e: "entry_sort_key sample_deposit = Inr (10, 1)" "entry_sort_key sample_buy = Inr (20, 2)" by code_simp+
  have "sorted_entries [sample_deposit, sample_buy] = Inr [sample_deposit, sample_buy]"
    by (simp add: sorted_entries_Inr k e)
  then have "replay_ledger DZERO [sample_deposit, sample_buy] = Inr sample_holding"
    by (simp add: replay_ledger_def sample_steps)
  then show "build_portfolio_projection DZERO [] [sample_deposit, sample_buy] = Inr (unpriced sample_holding)"
    by (simp add: build_portfolio_projection_def v) (simp add: unpriced_def)
  show "build_portfolio_projection DZERO [] sample_ledger = Inr (unpriced sample_projection)"
    by (simp add: build_portfolio_projection_def sample_replay v) (simp add: unpriced_def)
  have "entry_id sample_deposit = 1" "entry_id sample_buy = 2" "entry_id sample_sell = 3" by code_simp+
  then show "exclusion_rows [3] sample_ledger = [sample_deposit, sample_buy]"
    by (simp add: exclusion_rows_def sample_ledger_def)
qed

lemma sample_plan_built: "build_manual_trade_correction_plan sample_clock sample_ledger 3 7 = Inr sample_plan"
proof -
  have row: "row_by_id sample_ledger 3 = Some sample_sell" by code_simp
  have facts: "le_source sample_sell = ''portfolio_trade''" "entry_symbol sample_sell = ''600000''"
    "plan_asset_class sample_sell = ''stock''" "int_text 7 = ''7''" by code_simp+
  have keys: "pj_positions (unpriced sample_projection) = [(''600000'', sold_position)]"
    "pj_positions (unpriced sample_holding) = [(''600000'', bought_position)]" by code_simp+
  have dep: "deq (dsub (pj_total_deposits (unpriced sample_holding)) (pj_total_deposits (unpriced sample_projection))) DZERO"
    by code_simp
  show ?thesis
    by (simp add: build_manual_trade_correction_plan_def build_ledger_exclusion_correction_plan_def Let_def row facts
        replay_or_block_def sample_builds keys dep sample_plan_def)
qed

lemma sample_precise: "within_precision (unpriced sample_projection)" "within_precision (unpriced sample_holding)"
  by code_simp+

lemma correction_restores_account_witness:
  "build_manual_trade_correction_plan sample_clock sample_ledger 3 7 = Inr sample_plan \<and>
    (\<exists>pj. build_portfolio_projection DZERO [] (sample_ledger @ [sample_correction]) = Inr pj \<and>
      deq (pj_cash pj) (Decimal 995 0) \<and>
      same_state (accounting_state (position_at pj ''600000'')) (accounting_state bought_position))"
proof -
  note plan = sample_plan_built [unfolded build_manual_trade_correction_plan_def]
  have contract: "dict_get PROJECTION_CORRECTION_CONTRACTS ''manual_trade_projection_correction'' =
      Some (''manual_trade_correction'', ''karkinos.manual_trade_correction_plan.v1'', ''Manual trade correction'')" by code_simp
  have other: "''manual_trade_projection_correction'' \<noteq> LEGACY_DUPLICATE_TYPE" by code_simp
  have scheme: "''schema_version'' \<notin> set (dict_keys [(''trade_id'', JStr (int_text 7))])" by simp
  have target: "build_portfolio_projection DZERO [] (exclusion_rows (filter (\<lambda>i. i \<noteq> 0) [3]) sample_ledger) =
      Inr (unpriced sample_holding)" by (simp add: sample_builds)
  have fits: "deq (dsub (pj_cash (unpriced sample_holding)) (pj_cash (unpriced sample_projection)))
      (exact_add (pj_cash (unpriced sample_holding)) (exact_neg (pj_cash (unpriced sample_projection))))" by code_simp
  have cash: "deq (pj_cash (unpriced sample_holding)) (Decimal 995 0)" by code_simp
  have held: "position_at (unpriced sample_holding) ''600000'' = bought_position" by code_simp
  show ?thesis
    using correction_restores_account [OF plan contract other scheme sample_builds(1) target sample_sound sample_precise fits
        sample_correction_def] sample_plan_built cash held
    by (metis deq_val)
qed

end
