(* ===== verification/Trading_Control.thy ===== *)
theory Trading_Control
  imports Canonical_Json
begin

text \<open>
  The gate of automatic trading: the persisted control and how it is resolved
  (\<open>server/contracts/automatic_trading.py\<close>), its compare-and-set update
  (\<open>server/persistence/runtime_controls.py\<close>), the operation that builds an update
  (\<open>server/services/controlled_execution/trading_controls.py\<close>) and the binding of a session to the gate
  (\<open>server/persistence/automatic_trading_session_binding.py\<close>). A stored JSON value is its document. Parameters
  are the hash function \<open>digest\<close>, the reader \<open>read\<close> of ISO timestamps with a zone (in milliseconds) and
  their writer \<open>stamp\<close>.
\<close>

section \<open>Vocabulary\<close>

type_synonym stamp_reader = "string \<Rightarrow> int option"
type_synonym hash = "string \<Rightarrow> string"

definition CONTROL_KEY :: string where "CONTROL_KEY = ''automatic_trading''"
definition CONTROL_SCHEMA :: string where "CONTROL_SCHEMA = ''karkinos.automatic_trading_control.v1''"
definition ENABLE_ACKNOWLEDGEMENT :: string where
  "ENABLE_ACKNOWLEDGEMENT = ''enable_bounded_automatic_trading_gate_without_capital_authority''"
definition DISABLE_ACKNOWLEDGEMENT :: string where
  "DISABLE_ACKNOWLEDGEMENT = ''disable_automatic_trading_gate_immediately''"
definition BINDING_KEY :: string where "BINDING_KEY = ''automatic_trading_control_binding''"
definition BINDING_SCHEMA :: string where "BINDING_SCHEMA = ''karkinos.automatic_trading_session_binding.v1''"
definition MINIMUM_TTL_MS :: int where "MINIMUM_TTL_MS = 60000"
definition MAXIMUM_TTL_MS :: int where "MAXIMUM_TTL_MS = 43200000"

definition LINEAGE_FIELDS :: "string list" where
  "LINEAGE_FIELDS = [''last_disabled_at'', ''last_disabled_at_epoch_ms'', ''last_disabled_revision'',
     ''last_disabled_control_identity'']"

definition IDENTITY_FIELDS :: "string list" where
  "IDENTITY_FIELDS = [''schema_version'', ''configured_enabled'', ''revision'', ''reason'', ''operator_id'',
     ''effective_at'', ''effective_at_epoch_ms'', ''expires_at'', ''expires_at_epoch_ms''] @ LINEAGE_FIELDS @ [''updated_at'']"

definition CONTROL_FIELDS :: "string list" where
  "CONTROL_FIELDS = ''control_fingerprint'' # IDENTITY_FIELDS"

text \<open>\<open>value.get(key)\<close>, \<open>list(dict.fromkeys(xs))\<close> and the pattern of a fingerprint.\<close>

definition jget :: "jobject \<Rightarrow> string \<Rightarrow> jdoc" where
  "jget v k = dict_get_default v k JNil"

definition fromkeys :: "'a list \<Rightarrow> 'a list" where
  "fromkeys xs = rev (remdups (rev xs))"

lemma set_fromkeys [simp]: "set (fromkeys xs) = set xs"
  by (simp add: fromkeys_def)

lemma fromkeys_Nil_iff [simp]: "fromkeys xs = [] \<longleftrightarrow> xs = []"
  by (metis set_empty set_fromkeys)

definition fingerprint_text :: "string \<Rightarrow> bool" where
  "fingerprint_text s = (length s = 64 \<and>
     list_all (\<lambda>c. let n = of_char c :: nat in (48 \<le> n \<and> n \<le> 57) \<or> (97 \<le> n \<and> n \<le> 102)) s)"

definition timestamp_epoch_ms :: "stamp_reader \<Rightarrow> jdoc \<Rightarrow> int option" where
  "timestamp_epoch_ms read d = (case d of JStr s \<Rightarrow> if str_strip s = [] then None else read s | _ \<Rightarrow> None)"

definition timestamp_matches_epoch :: "stamp_reader \<Rightarrow> jdoc \<Rightarrow> int \<Rightarrow> bool" where
  "timestamp_matches_epoch read d ms = (timestamp_epoch_ms read d = Some ms)"

section \<open>The persisted control\<close>

definition automatic_trading_control_fingerprint :: "hash \<Rightarrow> jobject \<Rightarrow> string" where
  "automatic_trading_control_fingerprint digest v =
     digest (canonical_json (JMap (map (\<lambda>k. (k, jget v k)) IDENTITY_FIELDS)))"

definition automatic_trading_disable_identity :: "hash \<Rightarrow> int \<Rightarrow> int \<Rightarrow> string" where
  "automatic_trading_disable_identity digest revision ms = digest (canonical_json (JMap
     [(''control_key'', JStr CONTROL_KEY), (''disabled_at_epoch_ms'', JNum ms), (''disabled_revision'', JNum revision),
      (''schema_version'', JStr CONTROL_SCHEMA)]))"

definition last_disabled_lineage_is_valid :: "hash \<Rightarrow> stamp_reader \<Rightarrow> jobject \<Rightarrow> bool \<Rightarrow> int \<Rightarrow> int \<Rightarrow> bool" where
  "last_disabled_lineage_is_valid digest read v configured revision effective =
     (if \<forall>k \<in> set LINEAGE_FIELDS. jget v k = JNil then configured \<and> revision = 1
      else case (jget v ''last_disabled_at_epoch_ms'', jget v ''last_disabled_revision'', jget v ''last_disabled_control_identity'') of
        (JNum ms, JNum r, JStr identity) \<Rightarrow>
          0 \<le> ms \<and> 1 \<le> r \<and> fingerprint_text identity \<and> timestamp_matches_epoch read (jget v ''last_disabled_at'') ms \<and>
          ms \<le> effective \<and> identity = automatic_trading_disable_identity digest r ms \<and>
          (if configured then r < revision else r = revision \<and> ms = effective)
      | _ \<Rightarrow> False)"

definition expiry_is_valid :: "stamp_reader \<Rightarrow> jobject \<Rightarrow> bool \<Rightarrow> int \<Rightarrow> bool" where
  "expiry_is_valid read v configured effective =
     (if configured
      then (case jget v ''expires_at_epoch_ms'' of
          JNum x \<Rightarrow> MINIMUM_TTL_MS \<le> x - effective \<and> x - effective \<le> MAXIMUM_TTL_MS \<and>
            timestamp_matches_epoch read (jget v ''expires_at'') x
        | _ \<Rightarrow> False)
      else jget v ''expires_at'' = JNil \<and> jget v ''expires_at_epoch_ms'' = JNil)"

definition control_is_valid :: "hash \<Rightarrow> stamp_reader \<Rightarrow> jobject \<Rightarrow> bool" where
  "control_is_valid digest read v = (set (dict_keys v) = set CONTROL_FIELDS \<and>
     jget v ''schema_version'' = JStr CONTROL_SCHEMA \<and>
     (case (jget v ''configured_enabled'', jget v ''revision'', jget v ''control_fingerprint'') of
        (JTruth configured, JNum revision, JStr fingerprint) \<Rightarrow>
          1 \<le> revision \<and> fingerprint_text fingerprint \<and>
          (case (jget v ''reason'', jget v ''operator_id'', jget v ''effective_at_epoch_ms'') of
             (JStr reason, JStr operator, JNum effective) \<Rightarrow>
               str_strip reason \<noteq> [] \<and> str_strip operator \<noteq> [] \<and> 0 \<le> effective \<and>
               timestamp_matches_epoch read (jget v ''effective_at'') effective \<and>
               timestamp_matches_epoch read (jget v ''updated_at'') effective \<and>
               last_disabled_lineage_is_valid digest read v configured revision effective \<and>
               expiry_is_valid read v configured effective \<and>
               automatic_trading_control_fingerprint digest v = fingerprint
           | _ \<Rightarrow> False)
      | _ \<Rightarrow> False))"

section \<open>Evidence\<close>

record control_evidence =
  ce_status :: string
  ce_configured :: bool
  ce_enabled :: bool
  ce_revision :: int
  ce_fingerprint :: string
  ce_lineage :: jobject
  ce_blockers :: "string list"
  ce_available :: bool

definition automatic_trading_evidence :: "string \<Rightarrow> string \<Rightarrow> bool \<Rightarrow> int \<Rightarrow> string \<Rightarrow> control_evidence" where
  "automatic_trading_evidence status blocker configured revision fingerprint =
     \<lparr>ce_status = status, ce_configured = configured, ce_enabled = False, ce_revision = revision,
      ce_fingerprint = fingerprint, ce_lineage = map (\<lambda>k. (k, JNil)) LINEAGE_FIELDS, ce_blockers = [blocker], ce_available = False\<rparr>"

definition jnum :: "jdoc \<Rightarrow> int" where "jnum d = (case d of JNum i \<Rightarrow> i | _ \<Rightarrow> 0)"
definition jstr :: "jdoc \<Rightarrow> string" where "jstr d = (case d of JStr s \<Rightarrow> s | _ \<Rightarrow> [])"
definition jtrue :: "jdoc \<Rightarrow> bool" where "jtrue d = (d = JTruth True)"

definition invalid_evidence :: "jobject \<Rightarrow> control_evidence" where
  "invalid_evidence v = automatic_trading_evidence ''unavailable'' ''automatic_trading_control_invalid''
     (jtrue (jget v ''configured_enabled'')) (max 0 (jnum (jget v ''revision''))) (jstr (jget v ''control_fingerprint''))"

definition timed_evidence :: "jobject \<Rightarrow> int \<Rightarrow> control_evidence" where
  "timed_evidence v now =
     (let configured = jtrue (jget v ''configured_enabled'');
          base = \<lparr>ce_status = (if configured then ''enabled'' else ''disabled''), ce_configured = configured,
            ce_enabled = configured, ce_revision = jnum (jget v ''revision''), ce_fingerprint = jstr (jget v ''control_fingerprint''),
            ce_lineage = map (\<lambda>k. (k, jget v k)) LINEAGE_FIELDS,
            ce_blockers = (if configured then [] else [''automatic_trading_disabled'']), ce_available = True\<rparr>
      in if configured \<and> now < jnum (jget v ''effective_at_epoch_ms'')
         then base\<lparr>ce_enabled := False, ce_status := ''unavailable'',
           ce_blockers := [''automatic_trading_control_not_yet_effective'']\<rparr>
         else if configured \<and> jnum (jget v ''expires_at_epoch_ms'') \<le> now
         then base\<lparr>ce_enabled := False, ce_status := ''expired'', ce_blockers := [''automatic_trading_control_expired'']\<rparr>
         else base)"

definition identity_blockers :: "int option \<Rightarrow> string option \<Rightarrow> control_evidence \<Rightarrow> string list" where
  "identity_blockers revision fingerprint ev =
     (if revision \<noteq> None \<and> revision \<noteq> Some (ce_revision ev) then [''automatic_trading_control_revision_mismatch''] else []) @
     (if fingerprint \<noteq> None \<and> fingerprint \<noteq> Some (ce_fingerprint ev)
      then [''automatic_trading_control_fingerprint_mismatch''] else [])"

definition resolve_persisted_automatic_trading_control ::
  "hash \<Rightarrow> stamp_reader \<Rightarrow> jdoc \<Rightarrow> int \<Rightarrow> int option \<Rightarrow> string option \<Rightarrow> control_evidence" where
  "resolve_persisted_automatic_trading_control digest read value now revision fingerprint =
     (if now < 0 then automatic_trading_evidence ''unavailable'' ''automatic_trading_clock_invalid'' False 0 []
      else case value of
        JNil \<Rightarrow> automatic_trading_evidence ''disabled'' ''automatic_trading_control_missing'' False 0 []
      | JMap v \<Rightarrow>
          if \<not> control_is_valid digest read v then invalid_evidence v
          else let ev = timed_evidence v now; bs = identity_blockers revision fingerprint ev in
            if bs = [] then ev
            else ev\<lparr>ce_enabled := False, ce_status := ''unavailable'', ce_blockers := fromkeys (ce_blockers ev @ bs)\<rparr>
      | _ \<Rightarrow> automatic_trading_evidence ''unavailable'' ''automatic_trading_control_invalid'' False 0 [])"

definition automatic_trading_transition_error :: "string \<Rightarrow> bool \<Rightarrow> string option" where
  "automatic_trading_transition_error current_status requested =
     (if requested
      then if current_status \<noteq> ''disabled''
        then Some ''automatic trading gate can only be enabled from disabled state'' else None
      else if current_status \<notin> {''enabled'', ''expired''}
      then Some ''automatic trading gate can only be disabled from enabled or expired state'' else None)"

section \<open>Compare and set\<close>

record control_event =
  ne_type :: string
  ne_timestamp :: string
  ne_entity_id :: string
  ne_source_ref :: string
  ne_payload :: jobject

text \<open>The row of the control and the audit events, in the order of insertion.\<close>

record control_db =
  cb_row :: "jdoc option"
  cb_events :: "control_event list"

datatype cas_answer = CasConflict int jdoc | CasUpdated int

definition expected_last_disabled_lineage :: "hash \<Rightarrow> jdoc \<Rightarrow> bool \<Rightarrow> int \<Rightarrow> jdoc \<Rightarrow> int \<Rightarrow> jobject" where
  "expected_last_disabled_lineage digest current configured revision effective_at effective_ms =
     (if \<not> configured
      then [(''last_disabled_at'', effective_at), (''last_disabled_at_epoch_ms'', JNum effective_ms),
        (''last_disabled_revision'', JNum revision),
        (''last_disabled_control_identity'', JStr (automatic_trading_disable_identity digest revision effective_ms))]
      else map (\<lambda>k. (k, case current of JMap m \<Rightarrow> jget m k | _ \<Rightarrow> JNil)) LINEAGE_FIELDS)"

definition current_control :: "hash \<Rightarrow> stamp_reader \<Rightarrow> control_db \<Rightarrow> int \<Rightarrow> (jdoc \<times> control_evidence) res" where
  "current_control digest read db proposed = (case cb_row db of
       None \<Rightarrow> Inr (JNil, resolve_persisted_automatic_trading_control digest read JNil proposed None None)
     | Some current \<Rightarrow>
         let effective = (case current of JMap m \<Rightarrow> jget m ''effective_at_epoch_ms'' | _ \<Rightarrow> JNil);
             now = (case effective of JNum i \<Rightarrow> if 0 \<le> i then i else proposed | _ \<Rightarrow> proposed)
         in if ce_status (resolve_persisted_automatic_trading_control digest read current now None None) = ''unavailable'' \<or>
              effective \<noteq> JNum (jnum effective)
            then Inl (RuntimeError ''automatic trading control persisted state is unavailable'')
            else if proposed < jnum effective
            then Inl (ValueError ''automatic trading control action timestamp cannot move backwards'')
            else Inr (current, resolve_persisted_automatic_trading_control digest read current proposed None None))"

definition control_event_of :: "jobject \<Rightarrow> jdoc \<Rightarrow> bool \<Rightarrow> int \<Rightarrow> string \<Rightarrow> control_event" where
  "control_event_of value current configured expected acknowledgement =
     \<lparr>ne_type = (if configured then ''automatic_trading.control_enabled'' else ''automatic_trading.control_disabled''),
      ne_timestamp = jstr (jget value ''updated_at''), ne_entity_id = jstr (jget value ''control_fingerprint''),
      ne_source_ref = ''revision:'' @ int_text (expected + 1),
      ne_payload = fold (\<lambda>(k, d). dict_put k d)
        [(''action'', JStr (if configured then ''enable'' else ''disable'')), (''expected_revision'', JNum expected),
         (''previous_control_fingerprint'', JStr (case current of JMap m \<Rightarrow> jstr (jget m ''control_fingerprint'') | _ \<Rightarrow> [])),
         (''acknowledgement'', JStr acknowledgement), (''grants_capital_authority'', JTruth False),
         (''automatic_broker_submission_implemented'', JTruth False)] value\<rparr>"

definition cas_transaction ::
  "hash \<Rightarrow> stamp_reader \<Rightarrow> int \<Rightarrow> jobject \<Rightarrow> string \<Rightarrow> bool \<Rightarrow> int \<Rightarrow> control_db \<Rightarrow> (cas_answer \<times> control_db) res" where
  "cas_transaction digest read expected value acknowledgement configured proposed db =
     bind_res (current_control digest read db proposed) (\<lambda>(current, state).
       if ce_revision state \<noteq> expected then Inr (CasConflict (ce_revision state) current, db)
       else case automatic_trading_transition_error (ce_status state) configured of
         Some e \<Rightarrow> Inl (ValueError e)
       | None \<Rightarrow>
           if jget value ''revision'' \<noteq> JNum (expected + 1)
           then Inl (ValueError ''automatic trading control revision must advance by exactly one'')
           else let ev = resolve_persisted_automatic_trading_control digest read (JMap value) proposed None None in
             if ce_status ev \<noteq> (if configured then ''enabled'' else ''disabled'') \<or> \<not> ce_available ev
             then Inl (ValueError ''automatic trading control value is invalid'')
             else if \<exists>(k, d) \<in> set (expected_last_disabled_lineage digest current configured (expected + 1)
                 (jget value ''effective_at'') proposed). jget value k \<noteq> d
             then Inl (ValueError ''automatic trading control last-disabled lineage is invalid'')
             else Inr (CasUpdated (expected + 1), db\<lparr>cb_row := Some (JMap value),
               cb_events := cb_events db @ [control_event_of value current configured expected acknowledgement]\<rparr>))"

definition compare_and_set_automatic_trading ::
  "hash \<Rightarrow> stamp_reader \<Rightarrow> int \<Rightarrow> jobject \<Rightarrow> string \<Rightarrow> control_db \<Rightarrow> (cas_answer \<times> control_db) res" where
  "compare_and_set_automatic_trading digest read expected value acknowledgement db =
     (if expected < 0 then Inl (ValueError ''expected_revision must be a non-negative integer'')
      else case jget value ''configured_enabled'' of
        JTruth configured \<Rightarrow>
          if acknowledgement \<noteq> (if configured then ENABLE_ACKNOWLEDGEMENT else DISABLE_ACKNOWLEDGEMENT)
          then Inl (ValueError ''acknowledgement does not match the requested automatic trading action'')
          else (case jget value ''effective_at_epoch_ms'' of
            JNum proposed \<Rightarrow>
              if proposed < 0 then Inl (ValueError ''automatic trading control effective_at_epoch_ms is invalid'')
              else cas_transaction digest read expected value acknowledgement configured proposed db
          | _ \<Rightarrow> Inl (ValueError ''automatic trading control effective_at_epoch_ms is invalid''))
      | _ \<Rightarrow> Inl (ValueError ''automatic trading configured_enabled must be a boolean''))"

section \<open>Setting the gate\<close>

definition control_value :: "hash \<Rightarrow> (int \<Rightarrow> string) \<Rightarrow> int \<Rightarrow> bool \<Rightarrow> string \<Rightarrow> string \<Rightarrow> int \<Rightarrow> int option \<Rightarrow> jdoc \<Rightarrow> jobject" where
  "control_value digest stamp now enabled reason operator expected ttl current =
     (let expires = (if enabled then map_option (\<lambda>t. now + t * 1000) ttl else None);
          v = [(''schema_version'', JStr CONTROL_SCHEMA), (''configured_enabled'', JTruth enabled),
            (''revision'', JNum (expected + 1)), (''control_fingerprint'', JStr []), (''reason'', JStr (str_strip reason)),
            (''operator_id'', JStr (str_strip operator)), (''effective_at'', JStr (stamp now)), (''effective_at_epoch_ms'', JNum now),
            (''expires_at'', case expires of None \<Rightarrow> JNil | Some x \<Rightarrow> JStr (stamp x)),
            (''expires_at_epoch_ms'', case expires of None \<Rightarrow> JNil | Some x \<Rightarrow> JNum x)] @
            expected_last_disabled_lineage digest current enabled (expected + 1) (JStr (stamp now)) now @
            [(''updated_at'', JStr (stamp now))]
      in dict_put ''control_fingerprint'' (JStr (automatic_trading_control_fingerprint digest v)) v)"

definition set_automatic_trading ::
  "hash \<Rightarrow> stamp_reader \<Rightarrow> (int \<Rightarrow> string) \<Rightarrow> int \<Rightarrow> bool \<Rightarrow> string \<Rightarrow> string \<Rightarrow> int \<Rightarrow> int option \<Rightarrow> string \<Rightarrow> control_db
    \<Rightarrow> (control_evidence \<times> control_db) res" where
  "set_automatic_trading digest read stamp now enabled reason operator expected ttl acknowledgement db =
     (if str_strip reason = [] then Inl (ValueError ''reason is required'')
      else if 500 < length reason then Inl (ValueError ''reason must contain at most 500 characters'')
      else if str_strip operator = [] then Inl (ValueError ''operator_id is required'')
      else if 128 < length operator then Inl (ValueError ''operator_id must contain at most 128 characters'')
      else if expected < 0 then Inl (ValueError ''expected_revision must be a non-negative integer'')
      else if acknowledgement \<noteq> (if enabled then ENABLE_ACKNOWLEDGEMENT else DISABLE_ACKNOWLEDGEMENT)
      then Inl (ValueError ''acknowledgement does not match the requested automatic trading action'')
      else if enabled \<and> (case ttl of None \<Rightarrow> True | Some t \<Rightarrow> t < 60 \<or> 43200 < t)
      then Inl (ValueError ''ttl_seconds must be between 60 and 43200 when enabling'')
      else let value = control_value digest stamp now enabled reason operator expected ttl
          (case cb_row db of None \<Rightarrow> JNil | Some d \<Rightarrow> d) in
        bind_res (compare_and_set_automatic_trading digest read expected value acknowledgement db) (\<lambda>(answer, db').
          case answer of
            CasConflict revision current \<Rightarrow> Inl (ValueError (''automatic trading control revision conflict: expected '' @
              int_text expected @ '', current '' @ int_text revision))
          | CasUpdated revision \<Rightarrow>
              Inr (resolve_persisted_automatic_trading_control digest read (JMap value) now None None, db')))"

section \<open>Sessions are bound to the gate\<close>

definition read_automatic_trading_control :: "hash \<Rightarrow> stamp_reader \<Rightarrow> control_db \<Rightarrow> int \<Rightarrow> jdoc \<times> control_evidence" where
  "read_automatic_trading_control digest read db now =
     (let value = (case cb_row db of None \<Rightarrow> JNil | Some d \<Rightarrow> d)
      in (value, resolve_persisted_automatic_trading_control digest read value now None None))"

definition open_gate :: "control_evidence \<Rightarrow> bool" where
  "open_gate ev = (ce_status ev = ''enabled'' \<and> ce_enabled ev \<and> ce_available ev)"

definition bind_session_payload ::
  "hash \<Rightarrow> stamp_reader \<Rightarrow> control_db \<Rightarrow> jobject \<Rightarrow> int \<Rightarrow> jobject option" where
  "bind_session_payload digest read db payload observed =
     (let ev = snd (read_automatic_trading_control digest read db observed) in
      if \<not> open_gate ev then None
      else Some (dict_put BINDING_KEY (JMap
        [(''schema_version'', JStr BINDING_SCHEMA), (''status'', JStr (ce_status ev)), (''revision'', JNum (ce_revision ev)),
         (''control_fingerprint'', JStr (ce_fingerprint ev)),
         (''last_disabled_at_epoch_ms'', jget (ce_lineage ev) ''last_disabled_at_epoch_ms''),
         (''last_disabled_revision'', jget (ce_lineage ev) ''last_disabled_revision''),
         (''last_disabled_control_identity'', jget (ce_lineage ev) ''last_disabled_control_identity''),
         (''observed_at_epoch_ms'', JNum observed)]) payload))"

definition BINDING_FIELDS :: "string list" where
  "BINDING_FIELDS = [''schema_version'', ''status'', ''revision'', ''control_fingerprint'', ''last_disabled_at_epoch_ms'',
     ''last_disabled_revision'', ''last_disabled_control_identity'', ''observed_at_epoch_ms'']"

definition BINDING_LINEAGE :: "string list" where
  "BINDING_LINEAGE = [''last_disabled_at_epoch_ms'', ''last_disabled_revision'', ''last_disabled_control_identity'']"

definition binding_lineage_is_valid :: "jobject \<Rightarrow> bool" where
  "binding_lineage_is_valid b = ((\<forall>k \<in> set BINDING_LINEAGE. jget b k = JNil) \<or>
     (case (jget b ''last_disabled_at_epoch_ms'', jget b ''last_disabled_revision'', jget b ''last_disabled_control_identity'') of
        (JNum ms, JNum r, JStr identity) \<Rightarrow> 0 \<le> ms \<and> 1 \<le> r \<and> fingerprint_text identity
      | _ \<Rightarrow> False))"

definition automatic_trading_binding_from_session_payload :: "jobject \<Rightarrow> jobject option" where
  "automatic_trading_binding_from_session_payload payload = (case jget payload BINDING_KEY of
       JMap b \<Rightarrow>
         if set (dict_keys b) \<noteq> set BINDING_FIELDS then None
         else (case (jget b ''revision'', jget b ''control_fingerprint'', jget b ''observed_at_epoch_ms'') of
           (JNum revision, JStr fingerprint, JNum observed) \<Rightarrow>
             if revision < 1 \<or> \<not> fingerprint_text fingerprint \<or> observed < 0 \<or>
               jget b ''schema_version'' \<noteq> JStr BINDING_SCHEMA \<or> jget b ''status'' \<noteq> JStr ''enabled'' \<or>
               \<not> binding_lineage_is_valid b
             then None else Some b
         | _ \<Rightarrow> None)
     | _ \<Rightarrow> None)"

definition binding_matches :: "jobject \<Rightarrow> control_evidence \<Rightarrow> bool" where
  "binding_matches b ev = (jget b ''revision'' = JNum (ce_revision ev) \<and> jget b ''control_fingerprint'' = JStr (ce_fingerprint ev) \<and>
     (\<forall>k \<in> set BINDING_LINEAGE. jget b k = jget (ce_lineage ev) k))"

definition session_reuse_blockers :: "hash \<Rightarrow> stamp_reader \<Rightarrow> control_db \<Rightarrow> jobject \<Rightarrow> int \<Rightarrow> string list" where
  "session_reuse_blockers digest read db payload observed =
     (let ev = snd (read_automatic_trading_control digest read db observed) in
      if \<not> open_gate ev then [''runtime_session_automatic_trading_not_enabled'']
      else case automatic_trading_binding_from_session_payload payload of
        None \<Rightarrow> [''runtime_session_automatic_trading_binding_mismatch'']
      | Some b \<Rightarrow> if binding_matches b ev then [] else [''runtime_session_automatic_trading_binding_mismatch''])"

section \<open>Valid controls\<close>

lemma control_is_validE:
  assumes "control_is_valid digest read v"
  obtains configured revision fingerprint effective where
    "jget v ''configured_enabled'' = JTruth configured" "jget v ''revision'' = JNum revision" "1 \<le> revision"
    "jget v ''control_fingerprint'' = JStr fingerprint" "fingerprint_text fingerprint"
    "jget v ''effective_at_epoch_ms'' = JNum effective" "0 \<le> effective"
    "last_disabled_lineage_is_valid digest read v configured revision effective" "expiry_is_valid read v configured effective"
  using assms unfolding control_is_valid_def by (auto split: jdoc.splits)

text \<open>The revision of the gate and the last revision that closed it.\<close>

definition row_number :: "string \<Rightarrow> control_db \<Rightarrow> int" where
  "row_number k db = (case cb_row db of Some (JMap v) \<Rightarrow> jnum (jget v k) | _ \<Rightarrow> 0)"

abbreviation gate_revision :: "control_db \<Rightarrow> int" where "gate_revision \<equiv> row_number ''revision''"
abbreviation closed_revision :: "control_db \<Rightarrow> int" where "closed_revision \<equiv> row_number ''last_disabled_revision''"

definition gate_ok :: "hash \<Rightarrow> stamp_reader \<Rightarrow> control_db \<Rightarrow> bool" where
  "gate_ok digest read db = (case cb_row db of None \<Rightarrow> True | Some (JMap v) \<Rightarrow> control_is_valid digest read v | _ \<Rightarrow> False)"

lemma gate_ok_cases:
  assumes "gate_ok digest read db"
  obtains "cb_row db = None" | v where "cb_row db = Some (JMap v)" "control_is_valid digest read v"
  using assms by (auto simp: gate_ok_def split: option.splits jdoc.splits)

lemma closed_revision_bounds:
  assumes "gate_ok digest read db"
  shows "0 \<le> closed_revision db \<and> closed_revision db \<le> gate_revision db \<and> 0 \<le> gate_revision db"
  using assms
proof (cases rule: gate_ok_cases)
  case (2 v)
  from 2(2) obtain configured revision effective where v: "jget v ''revision'' = JNum revision" "1 \<le> revision"
    "last_disabled_lineage_is_valid digest read v configured revision effective" by (rule control_is_validE)
  show ?thesis
  proof (cases "\<forall>k \<in> set LINEAGE_FIELDS. jget v k = JNil")
    case True
    then have "jget v ''last_disabled_revision'' = JNil" by (simp add: LINEAGE_FIELDS_def)
    then show ?thesis using v(1,2) by (simp add: row_number_def 2(1) jnum_def)
  next
    case False
    from v(3)[unfolded last_disabled_lineage_is_valid_def if_not_P[OF False]]
    obtain r where "jget v ''last_disabled_revision'' = JNum r" "1 \<le> r" "r \<le> revision"
      by (auto split: jdoc.splits if_splits)
    then show ?thesis using v(1,2) by (simp add: row_number_def 2(1) jnum_def)
  qed
qed (simp add: row_number_def)

section \<open>Effects of an update\<close>

lemma resolve_available:
  assumes "ce_available (resolve_persisted_automatic_trading_control digest read (JMap v) now revision fingerprint)"
  shows "control_is_valid digest read v"
  using assms
  by (auto simp: resolve_persisted_automatic_trading_control_def automatic_trading_evidence_def invalid_evidence_def split: if_splits)

lemma resolve_valid:
  assumes "control_is_valid digest read v" "0 \<le> now"
  shows "resolve_persisted_automatic_trading_control digest read (JMap v) now None None = timed_evidence v now"
  using assms by (simp add: resolve_persisted_automatic_trading_control_def Let_def identity_blockers_def)

lemma timed_evidence_fields [simp]:
  "ce_revision (timed_evidence v now) = jnum (jget v ''revision'')"
  "ce_fingerprint (timed_evidence v now) = jstr (jget v ''control_fingerprint'')"
  "ce_lineage (timed_evidence v now) = map (\<lambda>k. (k, jget v k)) LINEAGE_FIELDS"
  "ce_available (timed_evidence v now)"
  by (simp_all add: timed_evidence_def Let_def)

lemma cas_updated:
  assumes "compare_and_set_automatic_trading digest read expected value acknowledgement db = Inr (CasUpdated r, db')"
  obtains configured proposed current state where
    "jget value ''configured_enabled'' = JTruth configured" "jget value ''effective_at_epoch_ms'' = JNum proposed" "0 \<le> proposed"
    "0 \<le> expected" "current_control digest read db proposed = Inr (current, state)" "ce_revision state = expected"
    "automatic_trading_transition_error (ce_status state) configured = None" "jget value ''revision'' = JNum (expected + 1)"
    "control_is_valid digest read value" "r = expected + 1" "cb_row db' = Some (JMap value)"
    "\<forall>(k, d) \<in> set (expected_last_disabled_lineage digest current configured (expected + 1) (jget value ''effective_at'') proposed).
      jget value k = d"
proof -
  note c = assms[unfolded compare_and_set_automatic_trading_def]
  obtain configured where 1: "jget value ''configured_enabled'' = JTruth configured" "0 \<le> expected"
    using c by (auto split: if_splits jdoc.splits)
  obtain proposed where 2: "jget value ''effective_at_epoch_ms'' = JNum proposed" "0 \<le> proposed"
    "cas_transaction digest read expected value acknowledgement configured proposed db = Inr (CasUpdated r, db')"
    using c 1 by (auto split: if_splits jdoc.splits)
  obtain current state where 3: "current_control digest read db proposed = Inr (current, state)"
    using 2(3) by (auto simp: cas_transaction_def bind_res_eq_Inr)
  note t = 2(3)[unfolded cas_transaction_def 3 bind_res_simps split_conv Let_def]
  have 4: "ce_revision state = expected" using t by (auto split: if_splits)
  have 5: "automatic_trading_transition_error (ce_status state) configured = None" using t 4 by (auto split: option.splits)
  have 6: "jget value ''revision'' = JNum (expected + 1)" using t 4 5 by (auto split: if_splits)
  have 7: "ce_available (resolve_persisted_automatic_trading_control digest read (JMap value) proposed None None)"
    using t 4 5 6 by (auto split: if_splits)
  have 8: "\<forall>(k, d) \<in> set (expected_last_disabled_lineage digest current configured (expected + 1) (jget value ''effective_at'') proposed).
      jget value k = d"
    using t 4 5 6 7 by (auto split: if_splits)
  have 9: "r = expected + 1" "cb_row db' = Some (JMap value)" using t 4 5 6 7 8 by (auto split: if_splits)
  show thesis by (rule that[OF 1(1) 2(1,2) 1(2) 3 4 5 6 resolve_available[OF 7] 9 8])
qed

lemma current_control_of_row:
  assumes "gate_ok digest read db" "current_control digest read db proposed = Inr (current, state)" "0 \<le> proposed"
  shows "(case cb_row db of None \<Rightarrow> current = JNil | Some d \<Rightarrow> current = d) \<and> ce_revision state = gate_revision db"
  using assms(1)
proof (cases rule: gate_ok_cases)
  case 1
  then show ?thesis using assms(2,3)
    by (auto simp: current_control_def resolve_persisted_automatic_trading_control_def automatic_trading_evidence_def row_number_def)
next
  case (2 v)
  then show ?thesis using assms(2,3) by (auto simp: current_control_def Let_def resolve_valid row_number_def split: if_splits)
qed

lemma cas_conflict_unchanged:
  assumes "compare_and_set_automatic_trading digest read expected value acknowledgement db = Inr (CasConflict r current, db')"
  shows "db' = db"
  using assms
  by (auto simp: compare_and_set_automatic_trading_def cas_transaction_def bind_res_eq_Inr Let_def
      split: if_splits jdoc.splits option.splits)

lemma cas_effect:
  assumes ok: "gate_ok digest read db"
    and cas: "compare_and_set_automatic_trading digest read expected value acknowledgement db = Inr (CasUpdated r, db')"
  shows "gate_ok digest read db' \<and> expected = gate_revision db \<and> r = gate_revision db + 1 \<and> gate_revision db' = r \<and>
    closed_revision db \<le> closed_revision db' \<and>
    (jget value ''configured_enabled'' = JTruth False \<longrightarrow> closed_revision db' = r)"
proof -
  from cas obtain configured proposed current state where u:
    "jget value ''configured_enabled'' = JTruth configured" "0 \<le> proposed"
    "current_control digest read db proposed = Inr (current, state)" "ce_revision state = expected"
    "jget value ''revision'' = JNum (expected + 1)"
    "control_is_valid digest read value" "r = expected + 1" "cb_row db' = Some (JMap value)"
    "\<forall>(k, d) \<in> set (expected_last_disabled_lineage digest current configured (expected + 1) (jget value ''effective_at'') proposed).
      jget value k = d" by (rule cas_updated)
  note row = current_control_of_row[OF ok u(3,2)]
  have "closed_revision db' = (if configured then closed_revision db else r)"
  proof (cases configured)
    case True
    then have "jget value ''last_disabled_revision'' = (case current of JMap m \<Rightarrow> jget m ''last_disabled_revision'' | _ \<Rightarrow> JNil)"
      using u(9) by (simp add: expected_last_disabled_lineage_def LINEAGE_FIELDS_def)
    then show ?thesis using True row ok u(8)
      by (auto simp: row_number_def jnum_def gate_ok_def split: option.splits jdoc.splits)
  next
    case False
    then have "jget value ''last_disabled_revision'' = JNum (expected + 1)"
      using u(9) by (simp add: expected_last_disabled_lineage_def)
    then show ?thesis using False u(7,8) by (simp add: row_number_def jnum_def)
  qed
  moreover have "closed_revision db \<le> r" using closed_revision_bounds[OF ok] row u(4,7) by simp
  ultimately show ?thesis using row u by (simp add: gate_ok_def row_number_def jnum_def)
qed

section \<open>The gate is open until it expires\<close>

lemma jget_put [simp]: "jget (dict_put k d v) k' = (if k' = k then d else jget v k')"
  by (simp add: jget_def dict_get_default_def)

lemma control_value_fields:
  "jget (control_value digest stamp now enabled reason operator expected ttl current) ''configured_enabled'' = JTruth enabled"
  "jget (control_value digest stamp now enabled reason operator expected ttl current) ''effective_at_epoch_ms'' = JNum now"
  "enabled \<Longrightarrow> ttl = Some t \<Longrightarrow>
    jget (control_value digest stamp now enabled reason operator expected ttl current) ''expires_at_epoch_ms'' = JNum (now + t * 1000)"
  by (simp_all add: control_value_def Let_def) (simp_all add: jget_def dict_get_default_def)

lemma set_automatic_trading_updates:
  assumes "set_automatic_trading digest read stamp now enabled reason operator expected ttl acknowledgement db = Inr (ev, db')"
  obtains w r where "compare_and_set_automatic_trading digest read expected w acknowledgement db = Inr (CasUpdated r, db')"
    "w = control_value digest stamp now enabled reason operator expected ttl (case cb_row db of None \<Rightarrow> JNil | Some d \<Rightarrow> d)"
    "enabled \<Longrightarrow> \<exists>t. ttl = Some t \<and> 60 \<le> t \<and> t \<le> 43200"
proof -
  let ?control = "control_value digest stamp now enabled reason operator expected ttl (case cb_row db of None \<Rightarrow> JNil | Some d \<Rightarrow> d)"
  note s = assms[unfolded set_automatic_trading_def Let_def]
  obtain r where "compare_and_set_automatic_trading digest read expected ?control acknowledgement db = Inr (CasUpdated r, db')"
    using s by (elim if_Inl_InrE bind_res_InrE) (auto split: cas_answer.splits)
  moreover have "enabled \<Longrightarrow> \<exists>t. ttl = Some t \<and> 60 \<le> t \<and> t \<le> 43200"
    using s by (elim if_Inl_InrE) (auto split: option.splits)
  ultimately show thesis using that by blast
qed

text \<open>C34: setting the gate of automatic trading is a compare-and-set. An accepted operation advances the
  revision by one. After it the gate is disabled, or it is enabled exactly from the operation until the end of its
  term and expired afterwards; and whatever another operator who has seen the same revision attempts is refused.\<close>

theorem gate_is_set_once_and_expires:
  assumes "set_automatic_trading digest read stamp now enabled reason operator expected ttl acknowledgement db = Inr (ev, db')"
    "gate_ok digest read db"
  shows "gate_revision db' = gate_revision db + 1 \<and>
    (\<forall>t \<ge> 0. ce_status (snd (read_automatic_trading_control digest read db' t)) =
        (if \<not> enabled then ''disabled'' else if t < now then ''unavailable''
         else if t < now + the ttl * 1000 then ''enabled'' else ''expired'') \<and>
      ce_enabled (snd (read_automatic_trading_control digest read db' t)) = (enabled \<and> now \<le> t \<and> t < now + the ttl * 1000)) \<and>
    (\<forall>now' enabled' reason' operator' ttl' acknowledgement'.
      isl (set_automatic_trading digest read stamp now' enabled' reason' operator' expected ttl' acknowledgement' db'))"
proof -
  let ?control = "control_value digest stamp now enabled reason operator expected ttl (case cb_row db of None \<Rightarrow> JNil | Some d \<Rightarrow> d)"
  obtain r where cas: "compare_and_set_automatic_trading digest read expected ?control acknowledgement db = Inr (CasUpdated r, db')"
    and ttl: "enabled \<Longrightarrow> \<exists>t. ttl = Some t \<and> 60 \<le> t \<and> t \<le> 43200"
    using set_automatic_trading_updates[OF assms(1)] by metis
  note effect = cas_effect[OF assms(2) cas]
  obtain valid: "control_is_valid digest read ?control" and row: "cb_row db' = Some (JMap ?control)"
    using cas_updated[OF cas] by metis
  have read: "snd (read_automatic_trading_control digest read db' t) = timed_evidence ?control t" if "0 \<le> t" for t
    using that by (simp add: read_automatic_trading_control_def Let_def row resolve_valid[OF valid])
  have status: "ce_status (timed_evidence ?control t) = (if \<not> enabled then ''disabled'' else if t < now then ''unavailable''
         else if t < now + the ttl * 1000 then ''enabled'' else ''expired'') \<and>
      ce_enabled (timed_evidence ?control t) = (enabled \<and> now \<le> t \<and> t < now + the ttl * 1000)" for t
    using ttl by (cases enabled) (auto simp: timed_evidence_def Let_def control_value_fields jtrue_def jnum_def)
  have refused: "isl (set_automatic_trading digest read stamp now' enabled' reason' operator' expected ttl' acknowledgement' db')"
    for now' enabled' reason' operator' ttl' acknowledgement'
  proof (rule ccontr)
    assume "\<not> ?thesis"
    then obtain ev' db'' where "set_automatic_trading digest read stamp now' enabled' reason' operator' expected ttl' acknowledgement' db' = Inr (ev', db'')"
      by (cases "set_automatic_trading digest read stamp now' enabled' reason' operator' expected ttl' acknowledgement' db'") auto
    then obtain value' r' where "compare_and_set_automatic_trading digest read expected value' acknowledgement' db' = Inr (CasUpdated r', db'')"
      by (rule set_automatic_trading_updates)
    then show False using cas_effect effect by fastforce
  qed
  show ?thesis using effect read status refused by simp
qed

definition sample_digest :: hash where "sample_digest t = replicate 64 CHR ''0''"
definition sample_stamp :: "int \<Rightarrow> string" where "sample_stamp t = (if t = 1000 then ''a'' else ''b'')"
definition sample_read :: stamp_reader where
  "sample_read t = (if t = ''a'' then Some 1000 else if t = ''b'' then Some 61000 else None)"

definition sample_control :: jobject where
  "sample_control = [(''schema_version'', JStr CONTROL_SCHEMA), (''configured_enabled'', JTruth True), (''revision'', JNum 1),
     (''control_fingerprint'', JStr (replicate 64 CHR ''0'')), (''reason'', JStr ''open''), (''operator_id'', JStr ''op''),
     (''effective_at'', JStr ''a''), (''effective_at_epoch_ms'', JNum 1000), (''expires_at'', JStr ''b''),
     (''expires_at_epoch_ms'', JNum 61000), (''last_disabled_at'', JNil), (''last_disabled_at_epoch_ms'', JNil),
     (''last_disabled_revision'', JNil), (''last_disabled_control_identity'', JNil), (''updated_at'', JStr ''a'')]"

lemma sample_control_value:
  "control_value sample_digest sample_stamp 1000 True ''open'' ''op'' 0 (Some 60) JNil = sample_control"
proof -
  have "str_strip ''open'' = ''open''" "str_strip ''op'' = ''op''" "sample_stamp 1000 = ''a''" "sample_stamp 61000 = ''b''"
    by code_simp+
  then show ?thesis
    by (simp add: control_value_def sample_control_def expected_last_disabled_lineage_def LINEAGE_FIELDS_def
        automatic_trading_control_fingerprint_def sample_digest_def)
qed

lemma sample_control_valid: "control_is_valid sample_digest sample_read sample_control"
proof -
  have fields: "set (dict_keys sample_control) = set CONTROL_FIELDS"
    by code_simp
  have "fingerprint_text (replicate 64 CHR ''0'')" "str_strip ''open'' \<noteq> []" "str_strip ''op'' \<noteq> []"
    "timestamp_epoch_ms sample_read (JStr ''a'') = Some 1000" "timestamp_epoch_ms sample_read (JStr ''b'') = Some 61000"
    by code_simp+
  then show ?thesis unfolding control_is_valid_def fields
    by (simp add: sample_control_def jget_def dict_get_default_def timestamp_matches_epoch_def expiry_is_valid_def
        last_disabled_lineage_is_valid_def LINEAGE_FIELDS_def MINIMUM_TTL_MS_def MAXIMUM_TTL_MS_def
        automatic_trading_control_fingerprint_def sample_digest_def)
qed

lemma sample_control_reads:
  "jget sample_control ''configured_enabled'' = JTruth True" "jget sample_control ''effective_at_epoch_ms'' = JNum 1000"
  "jget sample_control ''revision'' = JNum 1" "jget sample_control ''expires_at_epoch_ms'' = JNum 61000"
  "\<forall>k \<in> set LINEAGE_FIELDS. jget sample_control k = JNil"
  by (simp_all add: sample_control_def jget_def dict_get_default_def LINEAGE_FIELDS_def)

definition sample_gate :: control_db where
  "sample_gate = \<lparr>cb_row = Some (JMap sample_control),
     cb_events = [control_event_of sample_control JNil True 0 ENABLE_ACKNOWLEDGEMENT]\<rparr>"

lemma sample_gate_set:
  "set_automatic_trading sample_digest sample_read sample_stamp 1000 True ''open'' ''op'' 0 (Some 60) ENABLE_ACKNOWLEDGEMENT
     \<lparr>cb_row = None, cb_events = []\<rparr> = Inr (timed_evidence sample_control 1000, sample_gate)"
proof -
  have strip: "str_strip ''open'' = ''open''" "str_strip ''op'' = ''op''" by code_simp+
  have timed: "ce_status (timed_evidence sample_control 1000) = ''enabled''"
    by (simp add: timed_evidence_def Let_def sample_control_reads jtrue_def jnum_def)
  have "cas_transaction sample_digest sample_read 0 sample_control ENABLE_ACKNOWLEDGEMENT True 1000 \<lparr>cb_row = None, cb_events = []\<rparr> =
      Inr (CasUpdated 1, sample_gate)"
    using sample_control_reads(5)
    by (simp add: cas_transaction_def current_control_def resolve_persisted_automatic_trading_control_def[of _ _ JNil]
        automatic_trading_evidence_def automatic_trading_transition_error_def sample_control_reads Let_def
        resolve_valid[OF sample_control_valid] timed expected_last_disabled_lineage_def sample_gate_def ball_simps)
  then show ?thesis
    by (simp add: set_automatic_trading_def Let_def strip sample_control_value compare_and_set_automatic_trading_def
        sample_control_reads resolve_valid[OF sample_control_valid])
qed

lemma gate_is_set_once_and_expires_witness:
  "gate_revision sample_gate = 1 \<and> ce_status (snd (read_automatic_trading_control sample_digest sample_read sample_gate 60999)) = ''enabled'' \<and>
    ce_status (snd (read_automatic_trading_control sample_digest sample_read sample_gate 61000)) = ''expired'' \<and>
    isl (set_automatic_trading sample_digest sample_read sample_stamp 2000 False ''close'' ''op'' 0 None DISABLE_ACKNOWLEDGEMENT sample_gate)"
proof -
  have "gate_ok sample_digest sample_read \<lparr>cb_row = None, cb_events = []\<rparr>" by (simp add: gate_ok_def)
  then show ?thesis
    using gate_is_set_once_and_expires[OF sample_gate_set] by (simp add: row_number_def)
qed

end
