(* ===== verification/Session_Budgets.thy ===== *)
theory Session_Budgets
  imports Trading_Control
begin

text \<open>
  Controlled trading sessions: their tables, and the reservation of bounded capital
  (\<open>server/persistence/controlled_session_budgets.py\<close>). A table is the list of its rows in the order of
  insertion; what a transaction rejects leaves the tables as they were. Amounts are integer units, instants are
  milliseconds, and the window of a reservation is a pair of texts compared as SQLite compares them. JSON columns
  hold their documents. The echo of a request in a rejection, the columns that are only stored (policy versions,
  payloads) and a locked database are left out. The main result bounds what the reservations of an account use
  at any instant.
\<close>

section \<open>Tables\<close>

record reservation =
  rv_id :: string
  rv_attestation :: string
  rv_envelope :: string
  rv_authorization :: string
  rv_account :: string
  rv_strategy :: string
  rv_day :: string
  rv_start :: string
  rv_expires :: string
  rv_gross :: int
  rv_buy :: int
  rv_turnover :: int
  rv_count :: int
  rv_capital_capacity :: int
  rv_cash_capacity :: int
  rv_turnover_capacity :: int
  rv_count_capacity :: int
  rv_by_symbol :: "(string, int) dict"
  rv_symbol_capacity :: "(string, int) dict"
  rv_status :: string

record runtime_session =
  rs_id :: string
  rs_fingerprint :: string
  rs_issuance :: string
  rs_reservation :: string
  rs_attestation :: string
  rs_envelope :: string
  rs_authorization :: string
  rs_account :: string
  rs_strategy :: string
  rs_operator :: string
  rs_approval :: string
  rs_order_ids :: "string list"
  rs_effective_ms :: int
  rs_expires_ms :: int
  rs_effective_at :: string
  rs_expires_at :: string
  rs_rate :: int
  rs_token_salt :: string
  rs_token_hash :: string
  rs_status :: string
  rs_payload :: jobject
  rs_created_at :: string
  rs_updated_at :: string

record pause_state =
  pa_session :: string
  pa_fingerprint :: string
  pa_reservation :: string
  pa_status :: string
  pa_event :: string
  pa_reason_fingerprint :: string
  pa_reasons :: "string list"
  pa_paused_ms :: int
  pa_paused_at :: string
  pa_updated_at :: string

record pause_event =
  pe_id :: string
  pe_session :: string
  pe_fingerprint :: string
  pe_reservation :: string
  pe_gate_fingerprint :: string
  pe_reason_fingerprint :: string
  pe_reasons :: "string list"
  pe_gate_snapshot :: jobject
  pe_paused_ms :: int
  pe_paused_at :: string
  pe_status :: string
  pe_payload :: jobject
  pe_created_at :: string

record gate_snapshot =
  gs_id :: string
  gs_fingerprint :: string
  gs_session :: string
  gs_session_fingerprint :: string
  gs_source_fingerprint :: string
  gs_observed_ms :: int
  gs_observed_at :: string
  gs_status :: string
  gs_gate_snapshot :: jobject
  gs_blockers :: "string list"
  gs_created_at :: string

record rate_admission =
  ra_id :: string
  ra_session :: string
  ra_session_fingerprint :: string
  ra_reservation :: string
  ra_authorization :: string
  ra_account :: string
  ra_strategy :: string
  ra_order :: string
  ra_request :: string
  ra_rate :: int
  ra_admitted_ms :: int
  ra_admitted_at :: string
  ra_status :: string
  ra_payload :: jobject
  ra_created_at :: string

record revocation =
  rk_id :: string
  rk_fingerprint :: string
  rk_session :: string
  rk_session_fingerprint :: string
  rk_reason :: string
  rk_operator :: string
  rk_approval :: string
  rk_revoked_ms :: int
  rk_revoked_at :: string
  rk_payload :: jobject
  rk_created_at :: string

record replacement_event =
  rp_id :: string
  rp_fingerprint :: string
  rp_predecessor :: string
  rp_predecessor_fingerprint :: string
  rp_pause_event :: string
  rp_snapshots :: "string list"
  rp_session :: string
  rp_session_fingerprint :: string
  rp_reservation :: string
  rp_operator :: string
  rp_approval :: string
  rp_reviewed_ms :: int
  rp_reviewed_at :: string
  rp_payload :: jobject
  rp_created_at :: string

record session_db =
  tb_control :: control_db
  tb_reservations :: "reservation list"
  tb_sessions :: "runtime_session list"
  tb_states :: "pause_state list"
  tb_pauses :: "pause_event list"
  tb_snapshots :: "gate_snapshot list"
  tb_admissions :: "rate_admission list"
  tb_revocations :: "revocation list"
  tb_replacements :: "replacement_event list"

definition empty_session_db :: session_db where
  "empty_session_db = \<lparr>tb_control = \<lparr>cb_row = None, cb_events = []\<rparr>, tb_reservations = [], tb_sessions = [], tb_states = [],
     tb_pauses = [], tb_snapshots = [], tb_admissions = [], tb_revocations = [], tb_replacements = []\<rparr>"

section \<open>Aggregates\<close>

text \<open>SQL's \<open>MIN\<close>, and Python's \<open>x or y\<close> for a number that may be missing.\<close>

definition sql_min :: "int list \<Rightarrow> int option" where
  "sql_min xs = (case xs of [] \<Rightarrow> None | x # xs \<Rightarrow> Some (fold min xs x))"

definition or_int :: "int option \<Rightarrow> int \<Rightarrow> int" where
  "or_int x y = (case x of None \<Rightarrow> y | Some i \<Rightarrow> if i = 0 then y else i)"

record budget_usage =
  bu_gross :: int
  bu_buy :: int
  bu_count :: int
  bu_turnover :: int
  bu_by_symbol :: "(string, int) dict"

datatype budget_answer =
    BudgetRejected "string list" "(budget_usage \<times> budget_usage) option"
  | BudgetReused reservation
  | BudgetReserved reservation budget_usage budget_usage

definition overlaps :: "reservation \<Rightarrow> reservation \<Rightarrow> bool" where
  "overlaps r e = (rv_authorization e = rv_authorization r \<and> rv_account e = rv_account r \<and>
     rv_status e = ''reserved'' \<and> rv_start e < rv_expires r \<and> rv_start r < rv_expires e)"

definition same_day :: "reservation \<Rightarrow> reservation \<Rightarrow> bool" where
  "same_day r e = (rv_authorization e = rv_authorization r \<and> rv_account e = rv_account r \<and>
     rv_day e = rv_day r \<and> rv_status e = ''reserved'')"

section \<open>Symbols\<close>

text \<open>The use and the capacity of each requested symbol, and the blockers found, over the overlapping rows.\<close>

type_synonym symbol_tally = "(string, int) dict \<times> (string, int) dict \<times> string list"

definition evidence_missing :: "string \<Rightarrow> string" where
  "evidence_missing s = ''atomic_existing_symbol_budget_evidence_missing:'' @ s"

definition tally_symbol :: "reservation \<Rightarrow> string \<Rightarrow> symbol_tally \<Rightarrow> symbol_tally" where
  "tally_symbol e s = (\<lambda>(usage, caps, bs). case (dict_get (rv_by_symbol e) s, dict_get (rv_symbol_capacity e) s) of
       (None, None) \<Rightarrow> (usage, caps, bs)
     | (Some u, Some c) \<Rightarrow> (dict_put s (dict_get_default usage s 0 + u) usage, dict_put s (min (dict_get_default caps s 0) c) caps, bs)
     | _ \<Rightarrow> (usage, caps, bs @ [evidence_missing s]))"

definition tally_row :: "string list \<Rightarrow> reservation \<Rightarrow> symbol_tally \<Rightarrow> symbol_tally" where
  "tally_row symbols e = (\<lambda>(usage, caps, bs).
     if rv_by_symbol e = [] \<or> rv_symbol_capacity e = [] then (usage, caps, bs @ map evidence_missing symbols)
     else fold (tally_symbol e) symbols (usage, caps, bs))"

definition tally :: "reservation \<Rightarrow> reservation list \<Rightarrow> symbol_tally" where
  "tally r rows = fold (tally_row (dict_keys (rv_by_symbol r))) rows
     (map (\<lambda>s. (s, 0)) (sort (dict_keys (rv_by_symbol r))), rv_symbol_capacity r, [])"

section \<open>Reservation\<close>

definition usage_before :: "reservation \<Rightarrow> reservation list \<Rightarrow> budget_usage" where
  "usage_before r rows = \<lparr>bu_gross = sum_list (map rv_gross (filter (overlaps r) rows)), bu_buy = sum_list (map rv_buy (filter (overlaps r) rows)),
     bu_count = sum_list (map rv_count (filter (overlaps r) rows)), bu_turnover = sum_list (map rv_turnover (filter (same_day r) rows)),
     bu_by_symbol = fst (tally r (filter (overlaps r) rows))\<rparr>"

definition usage_after :: "reservation \<Rightarrow> budget_usage \<Rightarrow> budget_usage" where
  "usage_after r before = \<lparr>bu_gross = bu_gross before + rv_gross r, bu_buy = bu_buy before + rv_buy r,
     bu_count = bu_count before + rv_count r, bu_turnover = bu_turnover before + rv_turnover r,
     bu_by_symbol = map (\<lambda>s. (s, dict_get_default (bu_by_symbol before) s 0 + dict_get_default (rv_by_symbol r) s 0))
       (sort (dict_keys (rv_by_symbol r)))\<rparr>"

definition minimum_order_capacity :: "reservation \<Rightarrow> reservation list \<Rightarrow> int" where
  "minimum_order_capacity r rows =
     min (rv_count_capacity r) (or_int (sql_min (map rv_count_capacity (filter (overlaps r) rows))) (rv_count_capacity r))"

definition budget_blockers :: "reservation \<Rightarrow> reservation list \<Rightarrow> string list" where
  "budget_blockers r rows =
     (let after = usage_after r (usage_before r rows); (_, caps, missing) = tally r (filter (overlaps r) rows) in
      fromkeys missing @
      (if rv_capital_capacity r < bu_gross after then [''atomic_capital_budget_unavailable''] else []) @
      (if rv_cash_capacity r < bu_buy after then [''atomic_cash_budget_unavailable''] else []) @
      (if rv_turnover_capacity r < bu_turnover after then [''atomic_daily_turnover_budget_unavailable''] else []) @
      (if minimum_order_capacity r rows < bu_count after then [''atomic_order_count_budget_unavailable''] else []) @
      concat (map (\<lambda>(s, units). if dict_get_default caps s 0 < units then [''atomic_symbol_budget_unavailable:'' @ s] else [])
        (bu_by_symbol after)))"

definition invalid_money_units :: "reservation \<Rightarrow> bool" where
  "invalid_money_units r = list_ex (\<lambda>x. x < 0) [rv_gross r, rv_buy r, rv_turnover r, rv_capital_capacity r, rv_cash_capacity r,
     rv_turnover_capacity r]"

definition invalid_symbol_units :: "reservation \<Rightarrow> bool" where
  "invalid_symbol_units r = (rv_by_symbol r = [] \<or> set (dict_keys (rv_by_symbol r)) \<noteq> set (dict_keys (rv_symbol_capacity r)) \<or>
     list_ex (\<lambda>x. x < 0) (dict_values (rv_by_symbol r)) \<or> list_ex (\<lambda>x. x \<le> 0) (dict_values (rv_symbol_capacity r)))"

definition reserve_controlled_session_budget :: "reservation \<Rightarrow> session_db \<Rightarrow> budget_answer \<times> session_db" where
  "reserve_controlled_session_budget r db =
     (let rows = tb_reservations db in
      if invalid_money_units r then (BudgetRejected [''budget_reservation_money_units_invalid''] None, db)
      else if rv_count r \<le> 0 \<or> rv_count_capacity r \<le> 0 then (BudgetRejected [''budget_reservation_order_count_invalid''] None, db)
      else if invalid_symbol_units r then (BudgetRejected [''budget_reservation_symbol_units_invalid''] None, db)
      else case find (\<lambda>e. rv_id e = rv_id r) rows of
        Some e \<Rightarrow> (BudgetReused e, db)
      | None \<Rightarrow>
          if rv_attestation r \<in> set (map rv_attestation rows)
          then (BudgetRejected [''budget_reservation_attestation_already_reserved''] None, db)
          else let before = usage_before r rows; after = usage_after r before; bs = budget_blockers r rows in
            if bs \<noteq> [] then (BudgetRejected (fromkeys bs) (Some (before, after)), db)
            else let row = r\<lparr>rv_status := ''reserved''\<rparr> in
              (BudgetReserved row before after, db\<lparr>tb_reservations := rows @ [row]\<rparr>))"

section \<open>Totals over windows\<close>

text \<open>
  A table that only grows, whose rows are selected by a key (an instant, a day, a window of time). A new row is
  checked against the rows it counts, which are at least the older rows that share a key with it.
\<close>

locale windowed =
  fixes ok :: "'a \<Rightarrow> bool" and older :: "'a \<Rightarrow> 'a \<Rightarrow> bool" and sel :: "'k \<Rightarrow> 'a \<Rightarrow> bool"
    and counted :: "'a \<Rightarrow> 'a \<Rightarrow> bool" and weight :: "'a \<Rightarrow> int" and bound :: "'a \<Rightarrow> int \<Rightarrow> bool"
  assumes weight_nonneg: "ok x \<Longrightarrow> 0 \<le> weight x"
    and shared: "ok x \<Longrightarrow> ok y \<Longrightarrow> older y x \<Longrightarrow> sel k x \<Longrightarrow> sel k y \<Longrightarrow> counted x y"
    and bound_mono: "bound x n \<Longrightarrow> m \<le> n \<Longrightarrow> bound x m"
begin

definition total :: "('a \<Rightarrow> bool) \<Rightarrow> 'a list \<Rightarrow> int" where
  "total P rows = sum_list (map weight (filter P rows))"

definition within_all :: "'a list \<Rightarrow> bool" where
  "within_all rows = (\<forall>k. \<forall>y \<in> set rows. sel k y \<longrightarrow> bound y (total (sel k) rows))"

definition within_latest :: "'a list \<Rightarrow> bool" where
  "within_latest rows = (\<forall>k. filter (sel k) rows \<noteq> [] \<longrightarrow> bound (last (filter (sel k) rows)) (total (sel k) rows))"

lemma total_snoc: "total P (rows @ [x]) = total P rows + (if P x then weight x else 0)"
  by (simp add: total_def)

lemma total_mono: "\<forall>y \<in> set rows. ok y \<and> (P y \<longrightarrow> Q y) \<Longrightarrow> total P rows \<le> total Q rows"
  by (induction rows) (auto simp: total_def weight_nonneg add_increasing)

lemma counts_window:
  assumes "\<forall>y \<in> set rows. ok y \<and> older y x" "ok x" "sel k x"
  shows "total (sel k) rows \<le> total (counted x) rows"
  using assms shared by (intro total_mono) blast

lemma within_all_snoc:
  assumes "within_all rows" "\<forall>y \<in> set rows. ok y \<and> older y x" "ok x"
    and new: "(weight x = 0 \<and> (\<forall>n. bound x n)) \<or>
      (bound x (total (counted x) rows + weight x) \<and>
       (\<forall>y \<in> set rows. counted x y \<longrightarrow> bound y (total (counted x) rows + weight x)))"
  shows "within_all (rows @ [x])"
  unfolding within_all_def
proof (intro allI ballI impI)
  fix k y
  assume y: "y \<in> set (rows @ [x])" "sel k y"
  show "bound y (total (sel k) (rows @ [x]))"
  proof (cases "sel k x")
    case False
    then show ?thesis using y assms(1) by (auto simp: within_all_def total_snoc)
  next
    case True
    have le: "total (sel k) rows \<le> total (counted x) rows" using counts_window assms(2,3) True by blast
    from new show ?thesis
    proof
      assume "weight x = 0 \<and> (\<forall>n. bound x n)"
      then show ?thesis using y assms(1) by (auto simp: within_all_def total_snoc)
    next
      assume n: "bound x (total (counted x) rows + weight x) \<and>
        (\<forall>y \<in> set rows. counted x y \<longrightarrow> bound y (total (counted x) rows + weight x))"
      have "bound y (total (counted x) rows + weight x)"
      proof (cases "y = x")
        case False
        then have "counted x y" using y True assms(2,3) shared by auto
        then show ?thesis using n y False by auto
      qed (use n in simp)
      then show ?thesis by (rule bound_mono) (use le True in \<open>simp add: total_snoc\<close>)
    qed
  qed
qed

lemma within_latest_snoc:
  assumes "within_latest rows" "\<forall>y \<in> set rows. ok y \<and> older y x" "ok x" "bound x (total (counted x) rows + weight x)"
  shows "within_latest (rows @ [x])"
  unfolding within_latest_def
proof (intro allI impI)
  fix k
  assume "filter (sel k) (rows @ [x]) \<noteq> []"
  then show "bound (last (filter (sel k) (rows @ [x]))) (total (sel k) (rows @ [x]))"
    using assms(1,4) counts_window[OF assms(2,3), of k]
    by (cases "sel k x") (auto simp: within_latest_def total_snoc elim!: bound_mono)
qed

lemma within_Nil [simp]: "within_all []" "within_latest []"
  by (simp_all add: within_all_def within_latest_def)

end

section \<open>What a reservation checks\<close>

definition reservation_ok :: "reservation \<Rightarrow> bool" where
  "reservation_ok e = (0 \<le> rv_gross e \<and> 0 \<le> rv_buy e \<and> 0 \<le> rv_turnover e \<and> 0 < rv_count e \<and> 0 < rv_count_capacity e \<and>
     \<not> invalid_symbol_units e \<and> rv_status e = ''reserved'')"

definition units :: "string \<Rightarrow> reservation \<Rightarrow> int" where
  "units s e = dict_get_default (rv_by_symbol e) s 0"

definition symbol_bound :: "string \<Rightarrow> reservation \<Rightarrow> int \<Rightarrow> bool" where
  "symbol_bound s e n = (s \<in> set (dict_keys (rv_by_symbol e)) \<longrightarrow> n \<le> dict_get_default (rv_symbol_capacity e) s 0)"

lemma units_nonneg: "\<not> invalid_symbol_units e \<Longrightarrow> 0 \<le> units s e"
  unfolding invalid_symbol_units_def units_def dict_get_default_def
  by (cases "dict_get (rv_by_symbol e) s") (auto simp: list_ex_iff not_less dest!: dict_get_SomeD)

lemma units_absent: "s \<notin> set (dict_keys (rv_by_symbol e)) \<Longrightarrow> units s e = 0"
  by (simp add: units_def dict_get_default_def map_of_eq_None_iff[THEN iffD2])

abbreviation usage_of :: "symbol_tally \<Rightarrow> string \<Rightarrow> int" where "usage_of st s \<equiv> dict_get_default (fst st) s 0"
abbreviation capacity_of :: "symbol_tally \<Rightarrow> string \<Rightarrow> int" where "capacity_of st s \<equiv> dict_get_default (fst (snd st)) s 0"

lemma tally_symbol_grows:
  assumes "\<not> invalid_symbol_units e"
  shows "usage_of st s \<le> usage_of (tally_symbol e s' st) s \<and> capacity_of (tally_symbol e s' st) s \<le> capacity_of st s \<and>
    (s' = s \<longrightarrow> usage_of (tally_symbol e s' st) s = usage_of st s + units s e \<and> symbol_bound s e (capacity_of (tally_symbol e s' st) s))"
proof -
  obtain usage caps bs where st: "st = (usage, caps, bs)" by (cases st)
  have keys: "dict_get (rv_by_symbol e) x = None \<longleftrightarrow> dict_get (rv_symbol_capacity e) x = None" for x
    using assms by (simp add: invalid_symbol_units_def map_of_eq_None_iff)
  show ?thesis
  proof (cases "dict_get (rv_by_symbol e) s'")
    case None
    then have "tally_symbol e s' st = st" using keys[of s'] by (simp add: tally_symbol_def st)
    moreover have "s' \<notin> set (dict_keys (rv_by_symbol e))" using None by (simp only: map_of_eq_None_iff set_map not_False_eq_True)
    ultimately show ?thesis using units_absent[of s' e] by (auto simp: symbol_bound_def)
  next
    case (Some u)
    then obtain c where c: "dict_get (rv_symbol_capacity e) s' = Some c" using keys[of s'] by (cases "dict_get (rv_symbol_capacity e) s'") auto
    have "0 \<le> u" using units_nonneg[OF assms, of s'] Some by (simp add: units_def dict_get_default_def)
    then show ?thesis
      by (auto simp: tally_symbol_def st Some c units_def dict_get_default_def symbol_bound_def)
  qed
qed

lemma symbol_bound_mono: "symbol_bound s e n \<Longrightarrow> m \<le> n \<Longrightarrow> symbol_bound s e m"
  by (auto simp: symbol_bound_def)

lemma tally_symbols_grow:
  assumes "\<not> invalid_symbol_units e"
  shows "usage_of st s \<le> usage_of (fold (tally_symbol e) ss st) s \<and> capacity_of (fold (tally_symbol e) ss st) s \<le> capacity_of st s \<and>
    (s \<in> set ss \<longrightarrow> usage_of st s + units s e \<le> usage_of (fold (tally_symbol e) ss st) s \<and>
      symbol_bound s e (capacity_of (fold (tally_symbol e) ss st) s))"
proof (induction ss arbitrary: st)
  case (Cons s' ss)
  have one: "usage_of st s \<le> usage_of (tally_symbol e s' st) s" "capacity_of (tally_symbol e s' st) s \<le> capacity_of st s"
    "s' = s \<Longrightarrow> usage_of (tally_symbol e s' st) s = usage_of st s + units s e"
    "s' = s \<Longrightarrow> symbol_bound s e (capacity_of (tally_symbol e s' st) s)" using tally_symbol_grows[OF assms] by blast+
  note IH = Cons.IH[of "tally_symbol e s' st"]
  have "symbol_bound s e (capacity_of (fold (tally_symbol e) (s' # ss) st) s)" if "s \<in> set (s' # ss)"
    using that IH one(4) by (cases "s \<in> set ss") (auto elim: symbol_bound_mono)
  then show ?case using IH one units_nonneg[OF assms, of s] by (fastforce intro: order_trans)
qed simp

lemma tally_rows:
  assumes "\<forall>e \<in> set rows. \<not> invalid_symbol_units e" "s \<in> set ss"
  shows "usage_of st s + sum_list (map (units s) rows) \<le> usage_of (fold (tally_row ss) rows st) s \<and>
    capacity_of (fold (tally_row ss) rows st) s \<le> capacity_of st s \<and>
    (\<forall>e \<in> set rows. symbol_bound s e (capacity_of (fold (tally_row ss) rows st) s))"
  using assms(1)
proof (induction rows arbitrary: st)
  case (Cons e rows)
  have e: "\<not> invalid_symbol_units e" using Cons.prems by simp
  then have "rv_by_symbol e \<noteq> []" "rv_symbol_capacity e \<noteq> []" by (auto simp: invalid_symbol_units_def)
  then have row: "tally_row ss e st = fold (tally_symbol e) ss st" by (cases st) (simp add: tally_row_def)
  have one: "usage_of st s + units s e \<le> usage_of (tally_row ss e st) s" "capacity_of (tally_row ss e st) s \<le> capacity_of st s"
    "symbol_bound s e (capacity_of (tally_row ss e st) s)"
    using tally_symbols_grow[OF e, of st s ss] assms(2) by (auto simp: row)
  have "\<forall>e \<in> set rows. \<not> invalid_symbol_units e" using Cons.prems by simp
  note IH = Cons.IH[OF this, of "tally_row ss e st"]
  have "symbol_bound s e (capacity_of (fold (tally_row ss) (e # rows) st) s)"
    using one(3) IH by (auto elim: symbol_bound_mono)
  then show ?case using IH one by fastforce
qed simp

section \<open>Reservations stay within every capacity\<close>

text \<open>The reservations of an account under an authorization that are active at an instant, or made for a day.\<close>

definition active_at :: "string \<times> string \<times> string \<Rightarrow> reservation \<Rightarrow> bool" where
  "active_at = (\<lambda>(a, b, t) e. rv_authorization e = a \<and> rv_account e = b \<and> rv_start e \<le> t \<and> t < rv_expires e)"

definition on_day :: "string \<times> string \<times> string \<Rightarrow> reservation \<Rightarrow> bool" where
  "on_day = (\<lambda>(a, b, d) e. rv_authorization e = a \<and> rv_account e = b \<and> rv_day e = d)"

lemma active_overlaps: "reservation_ok y \<Longrightarrow> active_at k x \<Longrightarrow> active_at k y \<Longrightarrow> overlaps x y"
  by (auto simp: active_at_def overlaps_def reservation_ok_def)

lemma on_day_same: "reservation_ok y \<Longrightarrow> on_day k x \<Longrightarrow> on_day k y \<Longrightarrow> same_day x y"
  by (auto simp: on_day_def same_day_def reservation_ok_def)

interpretation counts: windowed reservation_ok "\<lambda>_ _. True" active_at overlaps rv_count "\<lambda>e n. n \<le> rv_count_capacity e"
  by unfold_locales (auto simp: active_overlaps reservation_ok_def)

interpretation gross: windowed reservation_ok "\<lambda>_ _. True" active_at overlaps rv_gross "\<lambda>e n. n \<le> rv_capital_capacity e"
  by unfold_locales (auto simp: active_overlaps reservation_ok_def)

interpretation buys: windowed reservation_ok "\<lambda>_ _. True" active_at overlaps rv_buy "\<lambda>e n. n \<le> rv_cash_capacity e"
  by unfold_locales (auto simp: active_overlaps reservation_ok_def)

interpretation days: windowed reservation_ok "\<lambda>_ _. True" on_day same_day rv_turnover "\<lambda>e n. n \<le> rv_turnover_capacity e"
  by unfold_locales (auto simp: on_day_same reservation_ok_def)

interpretation symbols: windowed reservation_ok "\<lambda>_ _. True" active_at overlaps "units s" "symbol_bound s" for s
  by unfold_locales (auto simp: active_overlaps reservation_ok_def units_nonneg symbol_bound_mono)

definition budgets_ok :: "reservation list \<Rightarrow> bool" where
  "budgets_ok rows = ((\<forall>e \<in> set rows. reservation_ok e) \<and> counts.within_all rows \<and> gross.within_latest rows \<and>
     buys.within_latest rows \<and> days.within_latest rows \<and> (\<forall>s. symbols.within_all s rows))"

lemma no_budget_blockers:
  assumes "budget_blockers r rows = []"
  shows "sum_list (map rv_gross (filter (overlaps r) rows)) + rv_gross r \<le> rv_capital_capacity r"
    "sum_list (map rv_buy (filter (overlaps r) rows)) + rv_buy r \<le> rv_cash_capacity r"
    "sum_list (map rv_turnover (filter (same_day r) rows)) + rv_turnover r \<le> rv_turnover_capacity r"
    "sum_list (map rv_count (filter (overlaps r) rows)) + rv_count r \<le> minimum_order_capacity r rows"
    "s \<in> set (dict_keys (rv_by_symbol r)) \<Longrightarrow>
      usage_of (tally r (filter (overlaps r) rows)) s + units s r \<le> capacity_of (tally r (filter (overlaps r) rows)) s"
proof -
  obtain u caps bs where t: "tally r (filter (overlaps r) rows) = (u, caps, bs)" by (cases "tally r (filter (overlaps r) rows)")
  note b = assms[unfolded budget_blockers_def Let_def t split_conv append_is_Nil_conv]
  show "sum_list (map rv_gross (filter (overlaps r) rows)) + rv_gross r \<le> rv_capital_capacity r"
    "sum_list (map rv_buy (filter (overlaps r) rows)) + rv_buy r \<le> rv_cash_capacity r"
    "sum_list (map rv_turnover (filter (same_day r) rows)) + rv_turnover r \<le> rv_turnover_capacity r"
    "sum_list (map rv_count (filter (overlaps r) rows)) + rv_count r \<le> minimum_order_capacity r rows"
    using b by (auto simp: usage_after_def usage_before_def not_less split: if_splits)
  assume "s \<in> set (dict_keys (rv_by_symbol r))"
  then have "(s, dict_get_default u s 0 + units s r) \<in> set (bu_by_symbol (usage_after r (usage_before r rows)))"
    by (auto simp: usage_after_def usage_before_def t units_def)
  moreover have "\<forall>(s, n) \<in> set (bu_by_symbol (usage_after r (usage_before r rows))). \<not> dict_get_default caps s 0 < n"
    using b by (auto simp: concat_eq_Nil_conv split: if_splits)
  ultimately show "usage_of (tally r (filter (overlaps r) rows)) s + units s r \<le> capacity_of (tally r (filter (overlaps r) rows)) s"
    by (auto simp: t not_less)
qed

lemma sql_min_le: "x \<in> set xs \<Longrightarrow> \<exists>m. sql_min xs = Some m \<and> m \<le> x \<and> m \<in> set xs"
proof -
  have "fold min ys a \<le> a \<and> (\<forall>y \<in> set ys. fold min ys a \<le> y) \<and> fold min ys a \<in> insert a (set ys)" for ys and a :: int
  proof (induction ys arbitrary: a)
    case (Cons y ys)
    have "fold min ys (min y a) \<le> min y a" "\<forall>z \<in> set ys. fold min ys (min y a) \<le> z"
      "fold min ys (min y a) \<in> insert (min y a) (set ys)" using Cons.IH[of "min y a"] by blast+
    moreover have "min y a \<in> {y, a}" by (simp add: min_def)
    ultimately show ?case by auto
  qed simp
  then show "x \<in> set xs \<Longrightarrow> ?thesis" by (cases xs) (auto simp: sql_min_def)
qed

lemma minimum_order_capacity_le:
  assumes "\<forall>e \<in> set rows. reservation_ok e"
  shows "minimum_order_capacity r rows \<le> rv_count_capacity r"
    "e \<in> set rows \<Longrightarrow> overlaps r e \<Longrightarrow> minimum_order_capacity r rows \<le> rv_count_capacity e"
proof -
  show "minimum_order_capacity r rows \<le> rv_count_capacity r" by (simp add: minimum_order_capacity_def)
  assume e: "e \<in> set rows" "overlaps r e"
  let ?xs = "map rv_count_capacity (filter (overlaps r) rows)"
  obtain m where m: "sql_min ?xs = Some m" "m \<le> rv_count_capacity e" "m \<in> set ?xs" using sql_min_le[of "rv_count_capacity e" ?xs] e by auto
  then have "m \<noteq> 0" using assms by (auto simp: reservation_ok_def)
  with m show "minimum_order_capacity r rows \<le> rv_count_capacity e" by (simp add: minimum_order_capacity_def or_int_def)
qed

lemma tally_bounds:
  assumes "\<forall>e \<in> set rows. reservation_ok e" "s \<in> set (dict_keys (rv_by_symbol r))"
  shows "sum_list (map (units s) (filter (overlaps r) rows)) \<le> usage_of (tally r (filter (overlaps r) rows)) s"
    "capacity_of (tally r (filter (overlaps r) rows)) s \<le> dict_get_default (rv_symbol_capacity r) s 0"
    "\<forall>e \<in> set rows. overlaps r e \<longrightarrow> symbol_bound s e (capacity_of (tally r (filter (overlaps r) rows)) s)"
proof -
  have ok: "\<forall>e \<in> set (filter (overlaps r) rows). \<not> invalid_symbol_units e" using assms(1) by (auto simp: reservation_ok_def)
  note t = tally_rows[OF ok assms(2), of "(map (\<lambda>s. (s, 0)) (sort (dict_keys (rv_by_symbol r))), rv_symbol_capacity r, [])", folded tally_def]
  have "dict_get_default (map (\<lambda>s. (s, 0)) (sort (dict_keys (rv_by_symbol r)))) s 0 = (0 :: int)"
    by (auto simp: dict_get_default_def map_of_map_restrict restrict_map_def map_of_map_keys split: option.splits dest!: dict_get_SomeD)
  then show "sum_list (map (units s) (filter (overlaps r) rows)) \<le> usage_of (tally r (filter (overlaps r) rows)) s"
    "capacity_of (tally r (filter (overlaps r) rows)) s \<le> dict_get_default (rv_symbol_capacity r) s 0"
    "\<forall>e \<in> set rows. overlaps r e \<longrightarrow> symbol_bound s e (capacity_of (tally r (filter (overlaps r) rows)) s)"
    using t by auto
qed

lemma budgets_ok_Nil [simp]: "budgets_ok []"
  by (simp add: budgets_ok_def)

lemma budgets_ok_snoc:
  assumes ok: "budgets_ok rows" and x: "reservation_ok x" and free: "budget_blockers x rows = []"
  shows "budgets_ok (rows @ [x])"
proof -
  have rows: "\<forall>e \<in> set rows. reservation_ok e \<and> True" "\<forall>e \<in> set rows. reservation_ok e" using ok by (simp_all add: budgets_ok_def)
  note b = no_budget_blockers[OF free]
  have "minimum_order_capacity x rows \<le> rv_count_capacity x"
    "\<forall>y \<in> set rows. overlaps x y \<longrightarrow> minimum_order_capacity x rows \<le> rv_count_capacity y"
    using minimum_order_capacity_le[OF rows(2)] by blast+
  then have "counts.total (overlaps x) rows + rv_count x \<le> rv_count_capacity x"
    "\<forall>y \<in> set rows. overlaps x y \<longrightarrow> counts.total (overlaps x) rows + rv_count x \<le> rv_count_capacity y"
    using b(4) by (auto simp: counts.total_def)
  then have "counts.within_all (rows @ [x])" using ok rows x by (intro counts.within_all_snoc) (auto simp: budgets_ok_def)
  moreover have "gross.within_latest (rows @ [x])" "buys.within_latest (rows @ [x])" "days.within_latest (rows @ [x])"
    using ok rows x b(1-3)
    by (auto simp: budgets_ok_def gross.total_def buys.total_def days.total_def
        intro!: gross.within_latest_snoc buys.within_latest_snoc days.within_latest_snoc)
  moreover have "symbols.within_all s (rows @ [x])" for s
  proof (intro symbols.within_all_snoc)
    show "(units s x = 0 \<and> (\<forall>n. symbol_bound s x n)) \<or> symbol_bound s x (symbols.total s (overlaps x) rows + units s x) \<and>
      (\<forall>y \<in> set rows. overlaps x y \<longrightarrow> symbol_bound s y (symbols.total s (overlaps x) rows + units s x))"
    proof (cases "s \<in> set (dict_keys (rv_by_symbol x))")
      case True
      note t = tally_bounds[OF rows(2) True]
      have "symbols.total s (overlaps x) rows + units s x \<le> capacity_of (tally x (filter (overlaps x) rows)) s"
        using t(1) b(5)[OF True] by (simp add: symbols.total_def)
      then have "symbol_bound s x (symbols.total s (overlaps x) rows + units s x)"
        "\<forall>y \<in> set rows. overlaps x y \<longrightarrow> symbol_bound s y (symbols.total s (overlaps x) rows + units s x)"
        using t(2,3) by (auto simp: symbol_bound_def)
      then show ?thesis by blast
    next
      case False
      then show ?thesis using units_absent[OF False] by (simp only: symbol_bound_def simp_thms)
    qed
  qed (use ok rows x in \<open>auto simp: budgets_ok_def\<close>)
  ultimately show ?thesis using rows x by (auto simp: budgets_ok_def)
qed

lemma budget_blockers_status: "budget_blockers (r\<lparr>rv_status := t\<rparr>) rows = budget_blockers r rows"
proof -
  have [simp]: "overlaps (r\<lparr>rv_status := t\<rparr>) = overlaps r" "same_day (r\<lparr>rv_status := t\<rparr>) = same_day r"
    by (simp_all add: overlaps_def same_day_def fun_eq_iff)
  show ?thesis by (simp add: budget_blockers_def usage_after_def usage_before_def tally_def minimum_order_capacity_def)
qed

lemma reserve_cases:
  assumes "reserve_controlled_session_budget r db = (a, db')"
  obtains "db' = db" | row before after where "a = BudgetReserved row before after" "row = r\<lparr>rv_status := ''reserved''\<rparr>"
    "db' = db\<lparr>tb_reservations := tb_reservations db @ [row]\<rparr>" "reservation_ok row" "budget_blockers row (tb_reservations db) = []"
    "rv_id row \<notin> set (map rv_id (tb_reservations db))" "rv_attestation row \<notin> set (map rv_attestation (tb_reservations db))"
proof (cases "db' = db")
  case False
  note c = assms[unfolded reserve_controlled_session_budget_def Let_def]
  have 1: "\<not> invalid_money_units r" "\<not> (rv_count r \<le> 0 \<or> rv_count_capacity r \<le> 0)" "\<not> invalid_symbol_units r"
    using c False by (auto split: if_splits)
  have 2: "find (\<lambda>e. rv_id e = rv_id r) (tb_reservations db) = None" using c False 1 by (auto split: option.splits)
  have 3: "rv_attestation r \<notin> set (map rv_attestation (tb_reservations db))" "budget_blockers r (tb_reservations db) = []"
    using c False 1 2 by (auto split: if_splits)
  let ?row = "r\<lparr>rv_status := ''reserved''\<rparr>"
  have "a = BudgetReserved ?row (usage_before r (tb_reservations db)) (usage_after r (usage_before r (tb_reservations db)))"
    "db' = db\<lparr>tb_reservations := tb_reservations db @ [?row]\<rparr>" using c 1 2 3 by auto
  moreover have "reservation_ok ?row"
    using 1 by (simp add: reservation_ok_def invalid_money_units_def invalid_symbol_units_def not_le not_less)
  moreover have "rv_id ?row \<notin> set (map rv_id (tb_reservations db))" using 2 by (auto simp: find_None_iff)
  ultimately show thesis using that(2)[OF _ refl] 3 by (simp add: budget_blockers_status)
qed (rule that(1))

end
