(* ===== verification/Session_Authority.thy ===== *)
theory Session_Authority
  imports Session_Budgets
begin

text \<open>
  The life of a controlled session: issuance against a reservation, automatic pause, revocation, observations of
  the live gates, admission of single orders under a shared rate, and replacement of a paused session
  (\<open>server/persistence/controlled_session_*_uow.py\<close> and \<open>controlled_session_gate_snapshots.py\<close>). A violated
  \<open>UNIQUE\<close> or \<open>CHECK\<close> of the schema rolls the transaction back.
\<close>

section \<open>Lookups\<close>

definition find_session :: "string \<Rightarrow> session_db \<Rightarrow> runtime_session option" where
  "find_session i db = find (\<lambda>s. rs_id s = i) (tb_sessions db)"

definition find_reservation :: "string \<Rightarrow> session_db \<Rightarrow> reservation option" where
  "find_reservation i db = find (\<lambda>e. rv_id e = i) (tb_reservations db)"

definition find_state :: "string \<Rightarrow> session_db \<Rightarrow> pause_state option" where
  "find_state i db = find (\<lambda>p. pa_session p = i) (tb_states db)"

definition paused_state :: "string \<Rightarrow> session_db \<Rightarrow> pause_state option" where
  "paused_state i db = (case find_state i db of
     None \<Rightarrow> None | Some st \<Rightarrow> if pa_status st = ''paused'' then Some st else None)"

text \<open>\<open>ORDER BY observed_at_epoch_ms DESC, id DESC LIMIT 1\<close>.\<close>

definition latest_snapshot :: "gate_snapshot list \<Rightarrow> gate_snapshot option" where
  "latest_snapshot xs = (if xs = [] then None else Some (last (sort_key gs_observed_ms xs)))"

definition session_row_allowed :: "runtime_session \<Rightarrow> runtime_session list \<Rightarrow> bool" where
  "session_row_allowed s rows = (rs_id s \<notin> set (map rs_id rows) \<and> rs_fingerprint s \<notin> set (map rs_fingerprint rows) \<and>
     rs_issuance s \<notin> set (map rs_issuance rows) \<and> rs_reservation s \<notin> set (map rs_reservation rows) \<and>
     0 \<le> rs_effective_ms s \<and> rs_effective_ms s < rs_expires_ms s \<and> 0 < rs_rate s)"

datatype session_answer =
    SessionRejected "string list"
  | SessionIssued bool runtime_session
  | SessionRevoked bool runtime_session revocation

section \<open>Issuance\<close>

definition reservation_mismatches :: "string \<Rightarrow> reservation \<Rightarrow> runtime_session \<Rightarrow> string list" where
  "reservation_mismatches prefix v s = map (\<lambda>(k, _, _). prefix @ k @ ''_mismatch'') (filter (\<lambda>(_, a, b). a \<noteq> b)
     [(''attestation_id'', rv_attestation v, rs_attestation s), (''envelope_fingerprint'', rv_envelope v, rs_envelope s),
      (''authorization_id'', rv_authorization v, rs_authorization s), (''account_alias'', rv_account v, rs_account s),
      (''strategy_id'', rv_strategy v, rs_strategy s), (''requested_start_at'', rv_start v, rs_effective_at s),
      (''requested_expires_at'', rv_expires v, rs_expires_at s)])"

definition reuse_session :: "hash \<Rightarrow> stamp_reader \<Rightarrow> runtime_session option \<Rightarrow> string \<Rightarrow> session_db \<Rightarrow> session_answer \<times> session_db" where
  "reuse_session digest read existing created_at db = (case timestamp_epoch_ms read (JStr created_at) of
       None \<Rightarrow> (SessionRejected [''runtime_session_created_at_invalid''], db)
     | Some ms \<Rightarrow>
         let payload = (case existing of None \<Rightarrow> [] | Some e \<Rightarrow> rs_payload e);
             bs = session_reuse_blockers digest read (tb_control db) payload ms
         in if bs \<noteq> [] then (SessionRejected (fromkeys bs), db)
            else case existing of
              None \<Rightarrow> (SessionRejected [''runtime_session_replacement_transaction_unavailable''], db)
            | Some e \<Rightarrow> (SessionIssued True e, db))"

definition enabled_row :: "runtime_session \<Rightarrow> jobject \<Rightarrow> runtime_session" where
  "enabled_row s payload = s\<lparr>rs_status := ''enabled'', rs_payload := payload, rs_updated_at := rs_created_at s\<rparr>"

definition issue_controlled_session :: "hash \<Rightarrow> stamp_reader \<Rightarrow> runtime_session \<Rightarrow> session_db \<Rightarrow> session_answer \<times> session_db" where
  "issue_controlled_session digest read s db =
     (case find (\<lambda>e. rs_id e = rs_id s \<or> rs_reservation e = rs_reservation s) (tb_sessions db) of
       Some e \<Rightarrow>
         if rs_id e = rs_id s \<and> rs_fingerprint e = rs_fingerprint s \<and> rs_issuance e = rs_issuance s \<and>
           rs_reservation e = rs_reservation s
         then reuse_session digest read (Some e) (rs_created_at s) db
         else (SessionRejected [''runtime_session_reservation_or_identity_conflict''], db)
     | None \<Rightarrow> (case find_reservation (rs_reservation s) db of
         None \<Rightarrow> (SessionRejected [''runtime_session_reservation_not_found''], db)
       | Some v \<Rightarrow>
           let bs = reservation_mismatches ''runtime_session_reservation_'' v s @
             (if rv_status v \<noteq> ''reserved'' then [''runtime_session_reservation_not_reserved''] else [])
           in if bs \<noteq> [] then (SessionRejected (fromkeys bs), db)
              else (case timestamp_epoch_ms read (JStr (rs_created_at s)) of
                None \<Rightarrow> (SessionRejected [''runtime_session_created_at_invalid''], db)
              | Some ms \<Rightarrow> (case bind_session_payload digest read (tb_control db) (rs_payload s) ms of
                  None \<Rightarrow> (SessionRejected [''runtime_session_automatic_trading_not_enabled''], db)
                | Some payload \<Rightarrow>
                    let row = enabled_row s payload in
                    if session_row_allowed row (tb_sessions db)
                    then (SessionIssued False row, db\<lparr>tb_sessions := tb_sessions db @ [row]\<rparr>)
                    else (SessionRejected [''runtime_session_issuance_transaction_unavailable''], db)))))"

section \<open>Revocation\<close>

definition revocation_row_allowed :: "revocation \<Rightarrow> revocation list \<Rightarrow> bool" where
  "revocation_row_allowed k rows = (rk_id k \<notin> set (map rk_id rows) \<and> rk_fingerprint k \<notin> set (map rk_fingerprint rows) \<and>
     rk_session k \<notin> set (map rk_session rows) \<and> 0 \<le> rk_revoked_ms k)"

text \<open>\<open>UPDATE ... SET status = 'revoked' WHERE session_id = ? AND status = 'enabled'\<close>.\<close>

definition revoke_row :: "string \<Rightarrow> string \<Rightarrow> runtime_session \<Rightarrow> runtime_session" where
  "revoke_row i now s = (if rs_id s = i \<and> rs_status s = ''enabled'' then s\<lparr>rs_status := ''revoked'', rs_updated_at := now\<rparr> else s)"

definition revoke_controlled_session :: "revocation \<Rightarrow> session_db \<Rightarrow> session_answer \<times> session_db" where
  "revoke_controlled_session k db = (case find_session (rk_session k) db of
       None \<Rightarrow> (SessionRejected [''runtime_session_not_found''], db)
     | Some s \<Rightarrow>
         if rs_fingerprint s \<noteq> rk_session_fingerprint k then (SessionRejected [''runtime_session_revocation_identity_mismatch''], db)
         else if rs_status s = ''revoked''
         then (case find (\<lambda>x. rk_session x = rk_session k) (tb_revocations db) of
             None \<Rightarrow> (SessionRejected [''runtime_session_revocation_conflict''], db)
           | Some x \<Rightarrow>
               if rk_id x \<noteq> rk_id k \<or> rk_fingerprint x \<noteq> rk_fingerprint k \<or> rk_reason x \<noteq> rk_reason k
               then (SessionRejected [''runtime_session_revocation_conflict''], db)
               else (SessionRevoked True s x, db))
         else if rs_status s \<noteq> ''enabled'' then (SessionRejected [''runtime_session_not_enabled''], db)
         else if \<not> revocation_row_allowed k (tb_revocations db)
         then (SessionRejected [''runtime_session_revocation_transaction_unavailable''], db)
         else (SessionRevoked False (revoke_row (rk_session k) (rk_created_at k) s) k,
           db\<lparr>tb_revocations := tb_revocations db @ [k],
              tb_sessions := map (revoke_row (rk_session k) (rk_created_at k)) (tb_sessions db)\<rparr>))"

section \<open>Pause\<close>

datatype pause_answer = PauseRejected "string list" | Paused bool pause_state "pause_event option"

definition pause_row :: "pause_event \<Rightarrow> string list \<Rightarrow> pause_state" where
  "pause_row p reasons = \<lparr>pa_session = pe_session p, pa_fingerprint = pe_fingerprint p, pa_reservation = pe_reservation p,
     pa_status = ''paused'', pa_event = pe_id p, pa_reason_fingerprint = pe_reason_fingerprint p, pa_reasons = reasons,
     pa_paused_ms = pe_paused_ms p, pa_paused_at = pe_paused_at p, pa_updated_at = pe_created_at p\<rparr>"

definition pause_controlled_session :: "pause_event \<Rightarrow> session_db \<Rightarrow> pause_answer \<times> session_db" where
  "pause_controlled_session p db =
     (let reasons = filter (\<lambda>r. r \<noteq> []) (pe_reasons p) in
      if reasons = [] then (PauseRejected [''automatic_pause_reason_missing''], db)
      else case find_state (pe_session p) db of
        Some st \<Rightarrow>
          if pa_fingerprint st \<noteq> pe_fingerprint p then (PauseRejected [''automatic_pause_session_identity_conflict''], db)
          else (Paused True st (find (\<lambda>x. pe_id x = pa_event st) (tb_pauses db)), db)
      | None \<Rightarrow>
          if pe_id p \<in> set (map pe_id (tb_pauses db)) \<or> pe_id p \<in> set (map pa_event (tb_states db)) \<or> pe_paused_ms p < 0
          then (PauseRejected [''automatic_pause_transaction_unavailable''], db)
          else let ev = p\<lparr>pe_reasons := reasons, pe_status := ''paused''\<rparr>; st = pause_row p reasons in
            (Paused False st (Some ev), db\<lparr>tb_pauses := tb_pauses db @ [ev], tb_states := tb_states db @ [st]\<rparr>))"

section \<open>Observations of the live gates\<close>

datatype snapshot_answer = SnapshotRejected "string list" | SnapshotRecorded bool gate_snapshot

definition record_controlled_session_gate_snapshot :: "gate_snapshot \<Rightarrow> session_db \<Rightarrow> snapshot_answer \<times> session_db" where
  "record_controlled_session_gate_snapshot g db = (case find_session (gs_session g) db of
       None \<Rightarrow> (SnapshotRejected [''live_gate_session_not_found''], db)
     | Some s \<Rightarrow>
         if rs_fingerprint s \<noteq> gs_session_fingerprint g then (SnapshotRejected [''live_gate_session_identity_mismatch''], db)
         else if rs_status s \<noteq> ''enabled'' then (SnapshotRejected [''live_gate_session_not_enabled''], db)
         else (case find (\<lambda>x. gs_id x = gs_id g) (tb_snapshots db) of
             Some x \<Rightarrow>
               if gs_fingerprint x \<noteq> gs_fingerprint g \<or> gs_session x \<noteq> gs_session g
               then (SnapshotRejected [''live_gate_snapshot_identity_conflict''], db) else (SnapshotRecorded True x, db)
           | None \<Rightarrow>
               if gs_observed_ms g < 0 \<or> gs_status g \<notin> {''clear'', ''blocked''}
               then (SnapshotRejected [''live_gate_snapshot_transaction_unavailable''], db)
               else (SnapshotRecorded False g, db\<lparr>tb_snapshots := tb_snapshots db @ [g]\<rparr>)))"

section \<open>Admission of an order\<close>

record admission_request = rate_admission +
  aq_snapshot :: string
  aq_snapshot_fingerprint :: string
  aq_snapshot_observed_at :: string
  aq_max_age_seconds :: int
  aq_revision :: int
  aq_control_fingerprint :: string

datatype rate_answer =
    RateRejected "string list" int int int string
  | RateReused rate_admission
  | RateAdmitted rate_admission int int int

definition session_blockers :: "admission_request \<Rightarrow> runtime_session option \<Rightarrow> string list" where
  "session_blockers q session = (case session of
       None \<Rightarrow> [''runtime_session_persistent_state_missing'']
     | Some s \<Rightarrow>
         (if rs_status s \<noteq> ''enabled'' then [''runtime_session_not_enabled''] else []) @
         (if rs_fingerprint s \<noteq> ra_session_fingerprint q then [''runtime_session_fingerprint_changed''] else []) @
         (if rs_reservation s \<noteq> ra_reservation q then [''runtime_session_reservation_changed''] else []) @
         (if ra_admitted_ms q < rs_effective_ms s then [''runtime_session_not_yet_effective''] else []) @
         (if rs_expires_ms s \<le> ra_admitted_ms q then [''runtime_session_expired''] else []))"

definition gate_blockers :: "admission_request \<Rightarrow> gate_snapshot option \<Rightarrow> string list" where
  "gate_blockers q snapshot = (case snapshot of
       None \<Rightarrow> [''runtime_live_gate_snapshot_missing'']
     | Some g \<Rightarrow>
         (if gs_status g \<noteq> ''clear'' then [''runtime_live_gate_snapshot_not_clear''] else []) @
         (if gs_session_fingerprint g \<noteq> ra_session_fingerprint q
          then [''runtime_live_gate_snapshot_session_identity_changed''] else []) @
         (if gs_id g \<noteq> aq_snapshot q \<or> gs_fingerprint g \<noteq> aq_snapshot_fingerprint q \<or> gs_observed_at g \<noteq> aq_snapshot_observed_at q
          then [''runtime_live_gate_snapshot_changed_before_admission''] else []) @
         (if ra_admitted_ms q < gs_observed_ms g then [''runtime_live_gate_snapshot_in_future'']
          else if aq_max_age_seconds q * 1000 < ra_admitted_ms q - gs_observed_ms g
          then [''runtime_live_gate_snapshot_stale''] else []))"

text \<open>What separates a session from the gate it was issued under, and from the last time the gate was closed.\<close>

definition binding_blockers :: "jobject option \<Rightarrow> control_evidence \<Rightarrow> string list" where
  "binding_blockers binding ev = (case binding of
       None \<Rightarrow> [''runtime_automatic_trading_session_binding_missing'']
     | Some b \<Rightarrow>
         (if jget b ''revision'' \<noteq> JNum (ce_revision ev) then [''runtime_automatic_trading_session_binding_revision_mismatch''] else []) @
         (if jget b ''control_fingerprint'' \<noteq> JStr (ce_fingerprint ev)
          then [''runtime_automatic_trading_session_binding_fingerprint_mismatch''] else []) @
         (if jget b ''status'' \<noteq> JStr ''enabled'' then [''runtime_automatic_trading_session_binding_not_enabled''] else []) @
         (if \<exists>k \<in> set BINDING_LINEAGE. jget b k \<noteq> jget (ce_lineage ev) k
          then [''runtime_automatic_trading_session_binding_lineage_mismatch''] else []))"

definition lineage_blockers :: "stamp_reader \<Rightarrow> runtime_session \<Rightarrow> jobject option \<Rightarrow> control_evidence \<Rightarrow> string list" where
  "lineage_blockers read s binding ev =
     (if jget (ce_lineage ev) ''last_disabled_revision'' = JNil then []
      else (case timestamp_epoch_ms read (JStr (rs_created_at s)) of
            None \<Rightarrow> [''runtime_session_created_at_invalid_for_automatic_trading'']
          | Some ms \<Rightarrow>
              if ms \<le> jnum (jget (ce_lineage ev) ''last_disabled_at_epoch_ms'')
              then [''runtime_automatic_trading_session_predates_last_disable''] else []) @
        (case binding of
            None \<Rightarrow> []
          | Some b \<Rightarrow>
              if jnum (jget b ''revision'') \<le> jnum (jget (ce_lineage ev) ''last_disabled_revision'')
              then [''runtime_automatic_trading_session_predates_last_disable''] else []))"

definition automatic_blockers :: "hash \<Rightarrow> stamp_reader \<Rightarrow> control_db \<Rightarrow> admission_request \<Rightarrow> runtime_session \<Rightarrow> string list" where
  "automatic_blockers digest read control q s =
     (let ev = resolve_persisted_automatic_trading_control digest read
            (fst (read_automatic_trading_control digest read control (ra_admitted_ms q)))
            (ra_admitted_ms q) (Some (aq_revision q)) (Some (aq_control_fingerprint q));
          binding = automatic_trading_binding_from_session_payload (rs_payload s)
      in ce_blockers ev @
         (if (ce_status ev \<noteq> ''enabled'' \<or> \<not> ce_enabled ev) \<and> ce_blockers ev = []
          then [''runtime_automatic_trading_not_enabled''] else []) @
         binding_blockers binding ev @ lineage_blockers read s binding ev)"

definition conflict_blockers :: "admission_request \<Rightarrow> rate_admission list \<Rightarrow> string list" where
  "conflict_blockers q rows =
     (if list_ex (\<lambda>a. ra_session a = ra_session q \<and> ra_order a = ra_order q) rows then [''runtime_rate_order_already_admitted''] else []) @
     (if list_ex (\<lambda>a. ra_session a = ra_session q \<and> ra_request a = ra_request q) rows then [''runtime_rate_request_id_reused''] else [])"

definition in_rate_window :: "rate_admission \<Rightarrow> rate_admission \<Rightarrow> bool" where
  "in_rate_window q a = (ra_authorization a = ra_authorization q \<and> ra_account a = ra_account q \<and>
     ra_admitted_ms q - 60000 < ra_admitted_ms a \<and> ra_admitted_ms a \<le> ra_admitted_ms q)"

definition effective_rate :: "rate_admission \<Rightarrow> rate_admission list \<Rightarrow> int" where
  "effective_rate q rows = min (ra_rate q) (or_int (sql_min (map ra_rate (filter (in_rate_window q) rows))) (ra_rate q))"

definition admission_row :: "admission_request \<Rightarrow> rate_admission" where
  "admission_row q = (rate_admission.truncate q)\<lparr>ra_status := ''admitted''\<rparr>"

definition reject_rate :: "string list \<Rightarrow> rate_answer" where
  "reject_rate bs = RateRejected (fromkeys bs) 0 0 0 []"

definition admission_limit_invalid :: "admission_request \<Rightarrow> bool" where
  "admission_limit_invalid q = (ra_admitted_ms q < 0 \<or> ra_rate q \<le> 0 \<or> aq_max_age_seconds q * 1000 \<le> 0 \<or>
     60000 < aq_max_age_seconds q * 1000 \<or> aq_revision q \<le> 0 \<or> length (aq_control_fingerprint q) \<noteq> 64)"

definition admit_in_window :: "admission_request \<Rightarrow> session_db \<Rightarrow> rate_answer \<times> session_db" where
  "admit_in_window q db =
     (let rows = tb_admissions db; row = admission_row q; before = int (length (filter (in_rate_window row) rows));
          rate = effective_rate row rows
      in if rate \<le> before then (RateRejected [''runtime_order_rate_limit_reached''] before before rate [], db)
         else (RateAdmitted row before (before + 1) rate, db\<lparr>tb_admissions := rows @ [row]\<rparr>))"

definition admit_controlled_session_order ::
  "hash \<Rightarrow> stamp_reader \<Rightarrow> admission_request \<Rightarrow> session_db \<Rightarrow> rate_answer \<times> session_db" where
  "admit_controlled_session_order digest read q db =
     (if admission_limit_invalid q then (reject_rate [''runtime_rate_admission_limit_invalid''], db)
      else let session = find_session (ra_session q) db; sbs = session_blockers q session in
        if sbs \<noteq> [] then (reject_rate sbs, db)
        else case paused_state (ra_session q) db of
          Some st \<Rightarrow> (RateRejected [''runtime_session_paused''] 0 0 0 (pa_event st), db)
        | None \<Rightarrow>
            let gbs = gate_blockers q (latest_snapshot (filter (\<lambda>g. gs_session g = ra_session q) (tb_snapshots db))) in
            if gbs \<noteq> [] then (reject_rate gbs, db)
            else let abs = automatic_blockers digest read (tb_control db) q (the session) in
              if abs \<noteq> [] then (reject_rate abs, db)
              else case find (\<lambda>a. ra_id a = ra_id q) (tb_admissions db) of
                Some a \<Rightarrow> (RateReused a, db)
              | None \<Rightarrow> let cbs = conflict_blockers q (tb_admissions db) in
                  if cbs \<noteq> [] then (reject_rate cbs, db) else admit_in_window q db)"

section \<open>Replacement of a paused session\<close>

record replacement_request = runtime_session +
  rq_id :: string
  rq_fingerprint :: string
  rq_predecessor :: string
  rq_predecessor_fingerprint :: string
  rq_pause_event :: string
  rq_first_snapshot :: string
  rq_second_snapshot :: string
  rq_retirement_id :: string
  rq_retirement_fingerprint :: string
  rq_retirement_payload :: jobject
  rq_reviewed_ms :: int
  rq_reviewed_at :: string
  rq_stability_ms :: int
  rq_max_age_ms :: int
  rq_replacement_payload :: jobject

definition predecessor_blockers :: "replacement_request \<Rightarrow> runtime_session \<Rightarrow> pause_state \<Rightarrow> string list" where
  "predecessor_blockers q p st =
     (if rs_status p \<noteq> ''enabled'' then [''runtime_session_replacement_predecessor_not_enabled''] else []) @
     (if rs_fingerprint p \<noteq> rq_predecessor_fingerprint q
      then [''runtime_session_replacement_predecessor_identity_mismatch''] else []) @
     (if pa_status st \<noteq> ''paused'' \<or> pa_event st \<noteq> rq_pause_event q
      then [''runtime_session_replacement_pause_identity_mismatch''] else [])"

definition widened :: "reservation \<Rightarrow> reservation \<Rightarrow> string list" where
  "widened old new =
     map (\<lambda>(k, _, _). ''runtime_session_replacement_scope_widened:'' @ k) (filter (\<lambda>(_, a, b). a \<noteq> b)
       [(''authorization_id'', rv_authorization old, rv_authorization new), (''account_alias'', rv_account old, rv_account new),
        (''strategy_id'', rv_strategy old, rv_strategy new)]) @
     map (\<lambda>(k, _, _). ''runtime_session_replacement_budget_widened:'' @ k) (filter (\<lambda>(_, a, b). a < b)
       [(''reserved_gross_units'', rv_gross old, rv_gross new), (''reserved_buy_units'', rv_buy old, rv_buy new),
        (''reserved_turnover_units'', rv_turnover old, rv_turnover new), (''reserved_order_count'', rv_count old, rv_count new)]) @
     (if rv_by_symbol new = [] \<or> \<not> set (dict_keys (rv_by_symbol new)) \<subseteq> set (dict_keys (rv_by_symbol old))
      then [''runtime_session_replacement_symbol_scope_widened'']
      else if \<exists>(s, n) \<in> set (rv_by_symbol new). dict_get_default (rv_by_symbol old) s 0 < n
      then [''runtime_session_replacement_symbol_budget_widened''] else [])"

definition window_blockers :: "replacement_request \<Rightarrow> runtime_session \<Rightarrow> pause_state \<Rightarrow> string list" where
  "window_blockers q p st =
     (if \<not> set (rs_order_ids q) \<subseteq> set (rs_order_ids p) then [''runtime_session_replacement_order_scope_widened''] else []) @
     (if rs_rate p < rs_rate q then [''runtime_session_replacement_rate_widened''] else []) @
     (if rs_expires_ms q - rs_effective_ms q \<le> 0 \<or>
        rs_expires_ms p - rs_effective_ms p < rs_expires_ms q - rs_effective_ms q
      then [''runtime_session_replacement_duration_widened''] else []) @
     (if rs_effective_ms q < pa_paused_ms st then [''runtime_session_replacement_starts_before_pause''] else []) @
     (if \<not> (rs_effective_ms q \<le> rq_reviewed_ms q \<and> rq_reviewed_ms q < rs_expires_ms q)
      then [''runtime_session_replacement_window_not_current''] else [])"

definition recovery_blockers :: "replacement_request \<Rightarrow> pause_state \<Rightarrow> gate_snapshot list \<Rightarrow> string list" where
  "recovery_blockers q st snapshots =
     (let pair = sort_key gs_observed_ms (filter (\<lambda>g. gs_id g = rq_first_snapshot q \<or> gs_id g = rq_second_snapshot q) snapshots) in
      if length pair \<noteq> 2 then [''runtime_session_replacement_recovery_snapshots_missing'']
      else let own = filter (\<lambda>g. gs_session g = rq_predecessor q) snapshots; first = gs_observed_ms (hd pair); final = gs_observed_ms (last pair);
          now = rq_reviewed_ms q
        in concat (map (\<lambda>g. if gs_session g \<noteq> rq_predecessor q \<or> gs_status g \<noteq> ''clear'' \<or> gs_blockers g \<noteq> []
              then [''runtime_session_replacement_recovery_snapshot_not_clear''] else []) pair) @
          (case latest_snapshot (filter (\<lambda>g. pa_paused_ms st < gs_observed_ms g) own) of
             None \<Rightarrow> [''runtime_session_replacement_recovery_snapshot_superseded'']
           | Some g \<Rightarrow> if gs_id g \<noteq> gs_id (last pair)
               then [''runtime_session_replacement_recovery_snapshot_superseded''] else []) @
          (if list_ex (\<lambda>g. first \<le> gs_observed_ms g \<and> gs_observed_ms g \<le> now \<and> gs_status g \<noteq> ''clear'') own
           then [''runtime_session_replacement_recovery_interrupted''] else []) @
          (if first \<le> pa_paused_ms st then [''runtime_session_replacement_recovery_not_post_pause''] else []) @
          (if final - first < rq_stability_ms q then [''runtime_session_replacement_recovery_not_stable''] else []) @
          (if now < final \<or> rq_max_age_ms q < now - final
           then [''runtime_session_replacement_recovery_snapshot_stale''] else []))"

definition replacement_validation_blockers :: "replacement_request \<Rightarrow> session_db \<Rightarrow> string list" where
  "replacement_validation_blockers q db = (case (find_session (rq_predecessor q) db, find_state (rq_predecessor q) db) of
       (Some p, Some st) \<Rightarrow>
         if predecessor_blockers q p st \<noteq> [] then predecessor_blockers q p st
         else if list_ex (\<lambda>s. rs_id s = rs_id q \<or> rs_reservation s = rs_reservation q) (tb_sessions db)
         then [''runtime_session_replacement_target_conflict'']
         else (case (find_reservation (rs_reservation p) db, find_reservation (rs_reservation q) db) of
             (Some old, Some new) \<Rightarrow>
               let bs = reservation_mismatches ''runtime_session_replacement_reservation_'' new (runtime_session.truncate q) @
                   (if rv_status new \<noteq> ''reserved'' then [''runtime_session_replacement_reservation_not_reserved''] else []) @
                   widened old new @ window_blockers q p st
               in if bs \<noteq> [] then bs else recovery_blockers q st (tb_snapshots db)
           | _ \<Rightarrow> [''runtime_session_replacement_reservation_missing''])
     | _ \<Rightarrow> [''runtime_session_replacement_paused_predecessor_missing''])"

definition retirement_row :: "replacement_request \<Rightarrow> revocation" where
  "retirement_row q = \<lparr>rk_id = rq_retirement_id q, rk_fingerprint = rq_retirement_fingerprint q, rk_session = rq_predecessor q,
     rk_session_fingerprint = rq_predecessor_fingerprint q, rk_reason = ''signed_replacement_after_pause_review'',
     rk_operator = rs_operator q, rk_approval = rs_approval q, rk_revoked_ms = rq_reviewed_ms q, rk_revoked_at = rq_reviewed_at q,
     rk_payload = rq_retirement_payload q, rk_created_at = rs_created_at q\<rparr>"

definition replacement_row :: "replacement_request \<Rightarrow> replacement_event" where
  "replacement_row q = \<lparr>rp_id = rq_id q, rp_fingerprint = rq_fingerprint q, rp_predecessor = rq_predecessor q,
     rp_predecessor_fingerprint = rq_predecessor_fingerprint q, rp_pause_event = rq_pause_event q,
     rp_snapshots = [rq_first_snapshot q, rq_second_snapshot q], rp_session = rs_id q, rp_session_fingerprint = rs_fingerprint q,
     rp_reservation = rs_reservation q, rp_operator = rs_operator q, rp_approval = rs_approval q, rp_reviewed_ms = rq_reviewed_ms q,
     rp_reviewed_at = rq_reviewed_at q, rp_payload = rq_replacement_payload q, rp_created_at = rs_created_at q\<rparr>"

definition replacement_row_allowed :: "replacement_event \<Rightarrow> replacement_event list \<Rightarrow> bool" where
  "replacement_row_allowed x rows = (rp_id x \<notin> set (map rp_id rows) \<and> rp_fingerprint x \<notin> set (map rp_fingerprint rows) \<and>
     rp_predecessor x \<notin> set (map rp_predecessor rows) \<and> rp_session x \<notin> set (map rp_session rows) \<and>
     rp_reservation x \<notin> set (map rp_reservation rows) \<and> 0 \<le> rp_reviewed_ms x)"

definition write_replacement :: "replacement_request \<Rightarrow> jobject \<Rightarrow> session_db \<Rightarrow> session_answer \<times> session_db" where
  "write_replacement q payload db =
     (let retired = map (revoke_row (rq_predecessor q) (rs_created_at q)) (tb_sessions db);
          row = enabled_row (runtime_session.truncate q) payload
      in if \<not> revocation_row_allowed (retirement_row q) (tb_revocations db) \<or> \<not> session_row_allowed row retired \<or>
           \<not> replacement_row_allowed (replacement_row q) (tb_replacements db)
         then (SessionRejected [''runtime_session_replacement_transaction_unavailable''], db)
         else (SessionIssued False row, db\<lparr>tb_revocations := tb_revocations db @ [retirement_row q], tb_sessions := retired @ [row],
           tb_replacements := tb_replacements db @ [replacement_row q]\<rparr>))"

definition replace_paused_controlled_session ::
  "hash \<Rightarrow> stamp_reader \<Rightarrow> replacement_request \<Rightarrow> session_db \<Rightarrow> session_answer \<times> session_db" where
  "replace_paused_controlled_session digest read q db =
     (case find (\<lambda>x. rp_id x = rq_id q \<or> rp_predecessor x = rq_predecessor q) (tb_replacements db) of
       Some x \<Rightarrow>
         if rp_id x = rq_id q \<and> rp_fingerprint x = rq_fingerprint q \<and> rp_session x = rs_id q
         then reuse_session digest read (find_session (rs_id q) db) (rs_created_at q) db
         else (SessionRejected [''runtime_session_replacement_conflict''], db)
     | None \<Rightarrow>
         let bs = replacement_validation_blockers q db in
         if bs \<noteq> [] then (SessionRejected (fromkeys bs), db)
         else (case timestamp_epoch_ms read (JStr (rs_created_at q)) of
             None \<Rightarrow> (SessionRejected [''runtime_session_created_at_invalid''], db)
           | Some ms \<Rightarrow> (case bind_session_payload digest read (tb_control db) (rs_payload q) ms of
               None \<Rightarrow> (SessionRejected [''runtime_session_automatic_trading_not_enabled''], db)
             | Some payload \<Rightarrow> write_replacement q payload db)))"

end
