(* ===== verification/Session_Safety.thy ===== *)
theory Session_Safety
  imports Session_Authority
begin

text \<open>
  Histories of transactions on controlled sessions, whatever is requested in whatever order. The reservations of an
  account never exceed a capacity, admissions never exceed a rate, a session that was paused, revoked or issued
  before the gate was last closed admits nothing more, every admission was made for an order once and under a live
  session, and a replacement never widens what it replaces.
\<close>

section \<open>Histories\<close>

datatype session_command =
    SetGate int jobject string
  | Reserve reservation
  | Issue runtime_session
  | Revoke revocation
  | Pause pause_event
  | Observe gate_snapshot
  | Admit admission_request
  | Replace replacement_request

definition set_gate :: "hash \<Rightarrow> stamp_reader \<Rightarrow> int \<Rightarrow> jobject \<Rightarrow> string \<Rightarrow> session_db \<Rightarrow> session_db" where
  "set_gate digest read expected v acknowledgement db =
     (case compare_and_set_automatic_trading digest read expected v acknowledgement (tb_control db) of
        Inl e \<Rightarrow> db | Inr (answer, control) \<Rightarrow> db\<lparr>tb_control := control\<rparr>)"

fun session_step :: "hash \<Rightarrow> stamp_reader \<Rightarrow> session_command \<Rightarrow> session_db \<Rightarrow> session_db" where
  "session_step digest read (SetGate expected v acknowledgement) db = set_gate digest read expected v acknowledgement db"
| "session_step digest read (Reserve r) db = snd (reserve_controlled_session_budget r db)"
| "session_step digest read (Issue s) db = snd (issue_controlled_session digest read s db)"
| "session_step digest read (Revoke k) db = snd (revoke_controlled_session k db)"
| "session_step digest read (Pause p) db = snd (pause_controlled_session p db)"
| "session_step digest read (Observe g) db = snd (record_controlled_session_gate_snapshot g db)"
| "session_step digest read (Admit q) db = snd (admit_controlled_session_order digest read q db)"
| "session_step digest read (Replace q) db = snd (replace_paused_controlled_session digest read q db)"

definition session_run :: "hash \<Rightarrow> stamp_reader \<Rightarrow> session_command list \<Rightarrow> session_db \<Rightarrow> session_db" where
  "session_run digest read cs = fold (session_step digest read) cs"

lemma session_run_simps [simp]:
  "session_run digest read [] db = db"
  "session_run digest read (c # cs) db = session_run digest read cs (session_step digest read c db)"
  "session_run digest read (cs @ ds) db = session_run digest read ds (session_run digest read cs db)"
  by (simp_all add: session_run_def)

lemma session_run_invariant:
  assumes "P db" "\<And>c db. P db \<Longrightarrow> P (session_step digest read c db)"
  shows "P (session_run digest read cs db)"
  using assms(1) by (induction cs arbitrary: db) (simp_all add: assms(2))

section \<open>What each transaction writes\<close>

lemma reuse_session_db: "reuse_session digest read e t db = (a, db') \<Longrightarrow> db' = db"
  by (auto simp: reuse_session_def Let_def split: option.splits if_splits)

lemma issue_cases:
  assumes "issue_controlled_session digest read s db = (a, db')"
  obtains "db' = db" | payload ms row v where "bind_session_payload digest read (tb_control db) (rs_payload s) ms = Some payload"
    "row = enabled_row s payload" "session_row_allowed row (tb_sessions db)" "find_reservation (rs_reservation s) db = Some v"
    "reservation_mismatches ''runtime_session_reservation_'' v s = []" "db' = db\<lparr>tb_sessions := tb_sessions db @ [row]\<rparr>"
proof (cases "db' = db")
  case False
  note c = assms[unfolded issue_controlled_session_def Let_def]
  have 1: "find (\<lambda>e. rs_id e = rs_id s \<or> rs_reservation e = rs_reservation s) (tb_sessions db) = None"
    using c False by (cases "find (\<lambda>e. rs_id e = rs_id s \<or> rs_reservation e = rs_reservation s) (tb_sessions db)")
      (auto dest: reuse_session_db split: if_splits)
  note c = c[unfolded 1 option.case]
  obtain v where 2: "find_reservation (rs_reservation s) db = Some v" using c False by (cases "find_reservation (rs_reservation s) db") auto
  note c = c[unfolded 2 option.case]
  have 3: "reservation_mismatches ''runtime_session_reservation_'' v s = []" using c False by (simp split: if_splits)
  have c2: "(case timestamp_epoch_ms read (JStr (rs_created_at s)) of
          None \<Rightarrow> (SessionRejected [''runtime_session_created_at_invalid''], db)
        | Some ms \<Rightarrow> (case bind_session_payload digest read (tb_control db) (rs_payload s) ms of
            None \<Rightarrow> (SessionRejected [''runtime_session_automatic_trading_not_enabled''], db)
          | Some payload \<Rightarrow>
              if session_row_allowed (enabled_row s payload) (tb_sessions db)
              then (SessionIssued False (enabled_row s payload), db\<lparr>tb_sessions := tb_sessions db @ [enabled_row s payload]\<rparr>)
              else (SessionRejected [''runtime_session_issuance_transaction_unavailable''], db))) = (a, db')"
    using c False by (simp only: split: if_splits) auto
  obtain ms where 4: "timestamp_epoch_ms read (JStr (rs_created_at s)) = Some ms"
    using c2 False by (cases "timestamp_epoch_ms read (JStr (rs_created_at s))") auto
  note c2 = c2[unfolded 4 option.case]
  obtain payload where 5: "bind_session_payload digest read (tb_control db) (rs_payload s) ms = Some payload"
    using c2 False by (cases "bind_session_payload digest read (tb_control db) (rs_payload s) ms") auto
  note c2 = c2[unfolded 5 option.case]
  have 6: "session_row_allowed (enabled_row s payload) (tb_sessions db)" using c2 False by (auto split: if_splits)
  show thesis by (rule that(2)[OF 5 refl 6 2 3]) (use c2 6 in simp)
qed (rule that(1))

lemma revoke_cases:
  assumes "revoke_controlled_session k db = (a, db')"
  obtains "db' = db" | "db' = db\<lparr>tb_revocations := tb_revocations db @ [k],
      tb_sessions := map (revoke_row (rk_session k) (rk_created_at k)) (tb_sessions db)\<rparr>"
  using assms by (auto simp: revoke_controlled_session_def split: option.splits if_splits)

lemma pause_cases:
  assumes "pause_controlled_session p db = (a, db')"
  obtains "db' = db" | ev reasons where "find_state (pe_session p) db = None"
    "db' = db\<lparr>tb_pauses := tb_pauses db @ [ev], tb_states := tb_states db @ [pause_row p reasons]\<rparr>"
  using assms by (auto simp: pause_controlled_session_def Let_def split: option.splits if_splits)

lemma observe_cases:
  assumes "record_controlled_session_gate_snapshot g db = (a, db')"
  obtains "db' = db" | "db' = db\<lparr>tb_snapshots := tb_snapshots db @ [g]\<rparr>"
  using assms by (auto simp: record_controlled_session_gate_snapshot_def split: option.splits if_splits)

lemma admit_cases:
  assumes "admit_controlled_session_order digest read q db = (a, db')"
  obtains "db' = db" "\<And>row b n r. a \<noteq> RateAdmitted row b n r"
    | s before rate where "find_session (ra_session q) db = Some s" "session_blockers q (Some s) = []"
      "paused_state (ra_session q) db = None" "automatic_blockers digest read (tb_control db) q s = []"
      "conflict_blockers q (tb_admissions db) = []" "ra_id q \<notin> set (map ra_id (tb_admissions db))" "\<not> admission_limit_invalid q"
      "rate = effective_rate (admission_row q) (tb_admissions db)"
      "before = int (length (filter (in_rate_window (admission_row q)) (tb_admissions db)))" "before < rate"
      "a = RateAdmitted (admission_row q) before (before + 1) rate"
      "db' = db\<lparr>tb_admissions := tb_admissions db @ [admission_row q]\<rparr>"
proof (cases "\<exists>row b n r. a = RateAdmitted row b n r")
  case False
  then have "db' = db"
    using assms by (auto simp: admit_controlled_session_order_def admit_in_window_def reject_rate_def Let_def
        split: option.splits if_splits)
  then show thesis using that(1) False by blast
next
  case True
  note c = assms[unfolded admit_controlled_session_order_def Let_def]
  have 1: "\<not> admission_limit_invalid q" "session_blockers q (find_session (ra_session q) db) = []"
    "paused_state (ra_session q) db = None"
    using c True by (auto simp: reject_rate_def split: if_splits option.splits)
  obtain s where s: "find_session (ra_session q) db = Some s"
    using 1(2) by (cases "find_session (ra_session q) db") (auto simp: session_blockers_def)
  have 2: "automatic_blockers digest read (tb_control db) q s = []"
    using c True 1 s by (auto simp: reject_rate_def split: if_splits)
  have 3: "find (\<lambda>a. ra_id a = ra_id q) (tb_admissions db) = None" "conflict_blockers q (tb_admissions db) = []"
    using c True 1 s 2 by (auto simp: reject_rate_def split: if_splits option.splits)
  have "admit_in_window q db = (a, db')" using c 1 s 2 3 True by (auto simp: reject_rate_def split: if_splits)
  then have 4: "int (length (filter (in_rate_window (admission_row q)) (tb_admissions db))) < effective_rate (admission_row q) (tb_admissions db)"
    "a = RateAdmitted (admission_row q) (int (length (filter (in_rate_window (admission_row q)) (tb_admissions db))))
      (int (length (filter (in_rate_window (admission_row q)) (tb_admissions db))) + 1) (effective_rate (admission_row q) (tb_admissions db))"
    "db' = db\<lparr>tb_admissions := tb_admissions db @ [admission_row q]\<rparr>"
    using True by (auto simp: admit_in_window_def Let_def split: if_splits)
  have "ra_id q \<notin> set (map ra_id (tb_admissions db))" using 3(1) by (auto simp: find_None_iff)
  then show thesis using that(2)[OF s _ 1(3) 2 3(2) _ 1(1) refl refl 4] 1(2) by (simp add: s)
qed

lemma replace_cases:
  assumes "replace_paused_controlled_session digest read q db = (a, db')"
  obtains "db' = db" "\<And>row. a \<noteq> SessionIssued False row" | payload ms row where "replacement_validation_blockers q db = []"
    "bind_session_payload digest read (tb_control db) (rs_payload q) ms = Some payload"
    "row = enabled_row (runtime_session.truncate q) payload"
    "session_row_allowed row (map (revoke_row (rq_predecessor q) (rs_created_at q)) (tb_sessions db))"
    "a = SessionIssued False row"
    "db' = db\<lparr>tb_revocations := tb_revocations db @ [retirement_row q],
      tb_sessions := map (revoke_row (rq_predecessor q) (rs_created_at q)) (tb_sessions db) @ [row],
      tb_replacements := tb_replacements db @ [replacement_row q]\<rparr>"
proof (cases "\<exists>row. a = SessionIssued False row")
  case False
  then have "db' = db" using assms
    by (auto simp: replace_paused_controlled_session_def write_replacement_def Let_def dest: reuse_session_db split: option.splits if_splits)
  then show thesis using that(1) False by blast
next
  case True
  note c = assms[unfolded replace_paused_controlled_session_def Let_def]
  have 1: "find (\<lambda>x. rp_id x = rq_id q \<or> rp_predecessor x = rq_predecessor q) (tb_replacements db) = None"
    using c True by (auto simp: reuse_session_def Let_def split: option.splits if_splits)
  note c = c[unfolded 1 option.case]
  have 2: "replacement_validation_blockers q db = []" using c True by (auto split: if_splits)
  obtain ms where 3: "timestamp_epoch_ms read (JStr (rs_created_at q)) = Some ms"
    using c True 2 by (cases "timestamp_epoch_ms read (JStr (rs_created_at q))") auto
  obtain payload where 4: "bind_session_payload digest read (tb_control db) (rs_payload q) ms = Some payload"
    using c True 2 3 by (cases "bind_session_payload digest read (tb_control db) (rs_payload q) ms") auto
  have w: "write_replacement q payload db = (a, db')" using c 2 3 4 by simp
  have 5: "session_row_allowed (enabled_row (runtime_session.truncate q) payload)
      (map (revoke_row (rq_predecessor q) (rs_created_at q)) (tb_sessions db))"
    using w True by (auto simp: write_replacement_def Let_def split: if_splits)
  have 6: "a = SessionIssued False (enabled_row (runtime_session.truncate q) payload)"
    "db' = db\<lparr>tb_revocations := tb_revocations db @ [retirement_row q],
      tb_sessions := map (revoke_row (rq_predecessor q) (rs_created_at q)) (tb_sessions db) @
        [enabled_row (runtime_session.truncate q) payload],
      tb_replacements := tb_replacements db @ [replacement_row q]\<rparr>"
    using w True by (auto simp: write_replacement_def Let_def split: if_splits)
  show thesis by (rule that(2)[OF 2 4 refl 5 6])
qed

lemma step_cases [case_names unchanged gate reserved issued revoked paused observed admitted replaced]:
  obtains "session_step digest read c db = db"
    | expected v acknowledgement answer control where "c = SetGate expected v acknowledgement"
      "compare_and_set_automatic_trading digest read expected v acknowledgement (tb_control db) = Inr (answer, control)"
      "session_step digest read c db = db\<lparr>tb_control := control\<rparr>"
    | row where "reservation_ok row" "budget_blockers row (tb_reservations db) = []" "rv_id row \<notin> set (map rv_id (tb_reservations db))"
      "session_step digest read c db = db\<lparr>tb_reservations := tb_reservations db @ [row]\<rparr>"
    | s payload ms v where "bind_session_payload digest read (tb_control db) (rs_payload s) ms = Some payload"
      "session_row_allowed (enabled_row s payload) (tb_sessions db)" "find_reservation (rs_reservation s) db = Some v"
      "reservation_mismatches ''runtime_session_reservation_'' v s = []"
      "session_step digest read c db = db\<lparr>tb_sessions := tb_sessions db @ [enabled_row s payload]\<rparr>"
    | k where "session_step digest read c db = db\<lparr>tb_revocations := tb_revocations db @ [k],
        tb_sessions := map (revoke_row (rk_session k) (rk_created_at k)) (tb_sessions db)\<rparr>"
    | p ev reasons where "session_step digest read c db =
        db\<lparr>tb_pauses := tb_pauses db @ [ev], tb_states := tb_states db @ [pause_row p reasons]\<rparr>"
    | g where "session_step digest read c db = db\<lparr>tb_snapshots := tb_snapshots db @ [g]\<rparr>"
    | q s before rate where "c = Admit q" "find_session (ra_session q) db = Some s" "session_blockers q (Some s) = []"
      "paused_state (ra_session q) db = None" "automatic_blockers digest read (tb_control db) q s = []"
      "conflict_blockers q (tb_admissions db) = []" "ra_id q \<notin> set (map ra_id (tb_admissions db))" "\<not> admission_limit_invalid q"
      "rate = effective_rate (admission_row q) (tb_admissions db)"
      "before = int (length (filter (in_rate_window (admission_row q)) (tb_admissions db)))" "before < rate"
      "session_step digest read c db = db\<lparr>tb_admissions := tb_admissions db @ [admission_row q]\<rparr>"
    | q payload ms where "replacement_validation_blockers q db = []"
      "bind_session_payload digest read (tb_control db) (rs_payload q) ms = Some payload"
      "session_row_allowed (enabled_row (runtime_session.truncate q) payload)
        (map (revoke_row (rq_predecessor q) (rs_created_at q)) (tb_sessions db))"
      "session_step digest read c db = db\<lparr>tb_revocations := tb_revocations db @ [retirement_row q],
        tb_sessions := map (revoke_row (rq_predecessor q) (rs_created_at q)) (tb_sessions db) @
          [enabled_row (runtime_session.truncate q) payload],
        tb_replacements := tb_replacements db @ [replacement_row q]\<rparr>"
proof (cases c)
  case (SetGate expected v acknowledgement)
  then show ?thesis using that(1,2)
    by (cases "compare_and_set_automatic_trading digest read expected v acknowledgement (tb_control db)") (auto simp: set_gate_def)
next
  case (Reserve r)
  obtain a db' where a: "reserve_controlled_session_budget r db = (a, db')" by force
  then have step: "session_step digest read c db = db'" by (simp add: Reserve)
  from a show ?thesis by (cases rule: reserve_cases) (use that(1,3) step in auto)
next
  case (Issue s)
  obtain a db' where a: "issue_controlled_session digest read s db = (a, db')" by force
  then have step: "session_step digest read c db = db'" by (simp add: Issue)
  from a show ?thesis by (cases rule: issue_cases) (use that(1,4) step in auto)
next
  case (Revoke k)
  obtain a db' where a: "revoke_controlled_session k db = (a, db')" by force
  then have step: "session_step digest read c db = db'" by (simp add: Revoke)
  from a show ?thesis by (cases rule: revoke_cases) (use that(1,5) step in auto)
next
  case (Pause p)
  obtain a db' where a: "pause_controlled_session p db = (a, db')" by force
  then have step: "session_step digest read c db = db'" by (simp add: Pause)
  from a show ?thesis by (cases rule: pause_cases) (use that(1,6) step in auto)
next
  case (Observe g)
  obtain a db' where a: "record_controlled_session_gate_snapshot g db = (a, db')" by force
  then have step: "session_step digest read c db = db'" by (simp add: Observe)
  from a show ?thesis by (cases rule: observe_cases) (use that(1,7) step in auto)
next
  case (Admit q)
  obtain a db' where a: "admit_controlled_session_order digest read q db = (a, db')" by force
  then have step: "session_step digest read c db = db'" by (simp add: Admit)
  from a show ?thesis
  proof (cases rule: admit_cases)
    case (2 s before rate)
    then show ?thesis using that(8)[OF Admit] unfolding step by blast
  qed (use that(1) step in simp)
next
  case (Replace q)
  obtain a db' where a: "replace_paused_controlled_session digest read q db = (a, db')" by force
  then have step: "session_step digest read c db = db'" by (simp add: Replace)
  from a show ?thesis
  proof (cases rule: replace_cases)
    case (2 payload ms row)
    then show ?thesis using that(9)[of q ms payload] unfolding step by blast
  qed (use that(1) step in simp)
qed

section \<open>Reservations\<close>

lemma step_reservations:
  "budgets_ok (tb_reservations db) \<Longrightarrow> budgets_ok (tb_reservations (session_step digest read c db))"
  by (cases rule: step_cases[of digest read c db]) (auto intro: budgets_ok_snoc)

text \<open>C35: reserved capital never exceeds a capacity. After any history of transactions, at any instant, the reservations
  of an account under an authorization that are active together use at most the order count each of them allows and,
  per symbol, at most what each of them allows for the symbol; their gross amount and their purchases are within the
  capital and the cash the newest of them was granted, and the turnover reserved for a day is within the newest
  limit of the day.\<close>

theorem reservations_stay_within_capacity:
  assumes "rows = tb_reservations (session_run digest read cs empty_session_db)"
    "active = filter (active_at (a, b, t)) rows" "today = filter (on_day (a, b, d)) rows"
  shows "(\<forall>e \<in> set active. sum_list (map rv_count active) \<le> rv_count_capacity e) \<and>
    (\<forall>e \<in> set active. \<forall>s \<in> set (dict_keys (rv_by_symbol e)).
      sum_list (map (units s) active) \<le> dict_get_default (rv_symbol_capacity e) s 0) \<and>
    (active \<noteq> [] \<longrightarrow> sum_list (map rv_gross active) \<le> rv_capital_capacity (last active) \<and>
      sum_list (map rv_buy active) \<le> rv_cash_capacity (last active)) \<and>
    (today \<noteq> [] \<longrightarrow> sum_list (map rv_turnover today) \<le> rv_turnover_capacity (last today))"
proof -
  have "budgets_ok rows" unfolding assms(1)
    by (rule session_run_invariant[where P = "\<lambda>db. budgets_ok (tb_reservations db)"])
      (simp_all add: empty_session_db_def step_reservations)
  then show ?thesis unfolding assms(2,3)
    by (auto simp: budgets_ok_def counts.within_all_def counts.total_def gross.within_latest_def gross.total_def
        buys.within_latest_def buys.total_def days.within_latest_def days.total_def symbols.within_all_def symbols.total_def
        symbol_bound_def)
qed

definition sample_reservation :: "string \<Rightarrow> string \<Rightarrow> string \<Rightarrow> int \<Rightarrow> reservation" where
  "sample_reservation i start expires n = \<lparr>rv_id = i, rv_attestation = i, rv_envelope = ''e'', rv_authorization = ''a'', rv_account = ''acc'',
     rv_strategy = ''s'', rv_day = ''2026-01-05'', rv_start = start, rv_expires = expires, rv_gross = n * 100, rv_buy = n * 100,
     rv_turnover = n * 100, rv_count = n, rv_capital_capacity = 1000, rv_cash_capacity = 800, rv_turnover_capacity = 900,
     rv_count_capacity = 7, rv_by_symbol = [(''600000'', n * 100)], rv_symbol_capacity = [(''600000'', 600)], rv_status = []\<rparr>"

definition sample_reserves :: "session_command list" where
  "sample_reserves = [Reserve (sample_reservation ''r1'' ''09:30'' ''11:30'' 3), Reserve (sample_reservation ''r2'' ''10:00'' ''15:00'' 4),
     Reserve (sample_reservation ''r3'' ''10:00'' ''15:00'' 2), Reserve (sample_reservation ''r4'' ''13:00'' ''15:00'' 2)]"

lemma reservations_stay_within_capacity_witness:
  "map rv_id (tb_reservations (session_run sample_digest sample_read sample_reserves empty_session_db)) = [''r1'', ''r3'', ''r4''] \<and>
    sum_list (map rv_count (filter (active_at (''a'', ''acc'', ''10:30''))
      (tb_reservations (session_run sample_digest sample_read sample_reserves empty_session_db)))) \<le> 7"
proof -
  let ?rows = "tb_reservations (session_run sample_digest sample_read sample_reserves empty_session_db)"
  have ids: "map rv_id ?rows = [''r1'', ''r3'', ''r4'']" by code_simp
  let ?active = "filter (active_at (''a'', ''acc'', ''10:30'')) ?rows"
  have "list_all (\<lambda>e. rv_count_capacity e = 7) ?active" "\<not> List.null ?active" by code_simp+
  then obtain e where "e \<in> set ?active" "rv_count_capacity e = 7" by (cases ?active) (auto simp: list_all_iff)
  then show ?thesis using ids reservations_stay_within_capacity[where digest = sample_digest and read = sample_read and cs = sample_reserves
        and a = "''a''" and b = "''acc''" and t = "''10:30''", OF refl refl refl]
    by fastforce
qed

section \<open>Admissions\<close>

lemma admission_row_fields [simp]:
  "ra_session (admission_row q) = ra_session q" "ra_session_fingerprint (admission_row q) = ra_session_fingerprint q"
  "ra_reservation (admission_row q) = ra_reservation q" "ra_authorization (admission_row q) = ra_authorization q"
  "ra_account (admission_row q) = ra_account q" "ra_order (admission_row q) = ra_order q" "ra_request (admission_row q) = ra_request q"
  "ra_rate (admission_row q) = ra_rate q" "ra_admitted_ms (admission_row q) = ra_admitted_ms q" "ra_id (admission_row q) = ra_id q"
  by (simp_all add: admission_row_def rate_admission.truncate_def)

definition in_minute_to :: "string \<times> string \<times> int \<Rightarrow> rate_admission \<Rightarrow> bool" where
  "in_minute_to = (\<lambda>(a, b, t) x. ra_authorization x = a \<and> ra_account x = b \<and> t - 60000 < ra_admitted_ms x \<and> ra_admitted_ms x \<le> t)"

interpretation rates: windowed "\<lambda>x. 0 < ra_rate x" "\<lambda>y x. ra_admitted_ms y \<le> ra_admitted_ms x" in_minute_to in_rate_window
  "\<lambda>_. 1" "\<lambda>x n. n \<le> ra_rate x"
  by unfold_locales (auto simp: in_minute_to_def in_rate_window_def)

lemma effective_rate_le:
  assumes "\<forall>x \<in> set rows. 0 < ra_rate x"
  shows "effective_rate q rows \<le> ra_rate q" "x \<in> set rows \<Longrightarrow> in_rate_window q x \<Longrightarrow> effective_rate q rows \<le> ra_rate x"
proof -
  show "effective_rate q rows \<le> ra_rate q" by (simp add: effective_rate_def)
  assume x: "x \<in> set rows" "in_rate_window q x"
  let ?xs = "map ra_rate (filter (in_rate_window q) rows)"
  obtain m where m: "sql_min ?xs = Some m" "m \<le> ra_rate x" "m \<in> set ?xs" using sql_min_le[of "ra_rate x" ?xs] x by auto
  then have "m \<noteq> 0" using assms by auto
  with m show "effective_rate q rows \<le> ra_rate x" by (simp add: effective_rate_def or_int_def)
qed

definition admission_instants :: "session_command list \<Rightarrow> int list" where
  "admission_instants cs = concat (map (\<lambda>c. case c of Admit q \<Rightarrow> [ra_admitted_ms q] | _ \<Rightarrow> []) cs)"

definition rates_ok :: "session_command list \<Rightarrow> session_db \<Rightarrow> bool" where
  "rates_ok cs db = ((\<forall>x \<in> set (tb_admissions db). 0 < ra_rate x \<and> ra_admitted_ms x \<in> set (admission_instants cs)) \<and>
     rates.within_all (tb_admissions db))"

lemma rates_of_run:
  assumes "sorted (admission_instants cs)"
  shows "rates_ok cs (session_run digest read cs empty_session_db)"
  using assms
proof (induction cs rule: rev_induct)
  case (snoc c cs)
  let ?db = "session_run digest read cs empty_session_db"
  have instants: "admission_instants (cs @ [c]) = admission_instants cs @ (case c of Admit q \<Rightarrow> [ra_admitted_ms q] | _ \<Rightarrow> [])"
    by (simp add: admission_instants_def)
  then have IH: "rates_ok cs ?db" using snoc by (simp add: sorted_append)
  show ?case
  proof (cases rule: step_cases[of digest read c ?db])
    case (admitted q s before rate)
    have old: "\<forall>x \<in> set (tb_admissions ?db). 0 < ra_rate x \<and> ra_admitted_ms x \<le> ra_admitted_ms (admission_row q)"
      using IH snoc.prems unfolding instants by (auto simp: rates_ok_def admitted(1) sorted_append)
    have new: "0 < ra_rate (admission_row q)" using admitted(8) by (simp add: admission_limit_invalid_def)
    have total: "rates.total (in_rate_window (admission_row q)) (tb_admissions ?db) = before"
      by (simp add: rates.total_def admitted(10) sum_list_triv)
    have "rates.within_all (tb_admissions ?db @ [admission_row q])"
    proof (rule rates.within_all_snoc)
      have "\<forall>x \<in> set (tb_admissions ?db). 0 < ra_rate x" using old by blast
      then have r: "rate \<le> ra_rate (admission_row q)"
        "\<forall>y \<in> set (tb_admissions ?db). in_rate_window (admission_row q) y \<longrightarrow> rate \<le> ra_rate y"
        using effective_rate_le unfolding admitted(9) by blast+
      show "1 = 0 \<and> (\<forall>n. n \<le> ra_rate (admission_row q)) \<or>
        rates.total (in_rate_window (admission_row q)) (tb_admissions ?db) + 1 \<le> ra_rate (admission_row q) \<and>
        (\<forall>y \<in> set (tb_admissions ?db). in_rate_window (admission_row q) y \<longrightarrow>
          rates.total (in_rate_window (admission_row q)) (tb_admissions ?db) + 1 \<le> ra_rate y)"
        unfolding total using r admitted(11) by fastforce
    qed (use IH old new in \<open>auto simp: rates_ok_def\<close>)
    then show ?thesis using IH new by (auto simp: rates_ok_def admitted(12) instants) (simp add: admitted(1))
  qed (use IH in \<open>auto simp: rates_ok_def admission_instants_def\<close>)
qed (simp add: rates_ok_def empty_session_db_def)


section \<open>A sample session\<close>

definition sample_binding :: jobject where
  "sample_binding = [(''schema_version'', JStr BINDING_SCHEMA), (''status'', JStr ''enabled''), (''revision'', JNum 1),
     (''control_fingerprint'', JStr (replicate 64 CHR ''0'')), (''last_disabled_at_epoch_ms'', JNil),
     (''last_disabled_revision'', JNil), (''last_disabled_control_identity'', JNil), (''observed_at_epoch_ms'', JNum 1000)]"

definition sample_session_request :: runtime_session where
  "sample_session_request = \<lparr>rs_id = ''s1'', rs_fingerprint = ''f1'', rs_issuance = ''i1'', rs_reservation = ''r1'', rs_attestation = ''r1'',
     rs_envelope = ''e'', rs_authorization = ''a'', rs_account = ''acc'', rs_strategy = ''s'', rs_operator = ''op'', rs_approval = ''ap'',
     rs_order_ids = [''o1'', ''o2'', ''o3''], rs_effective_ms = 1000, rs_expires_ms = 61000, rs_effective_at = ''09:30'',
     rs_expires_at = ''11:30'', rs_rate = 2, rs_token_salt = [], rs_token_hash = [], rs_status = [], rs_payload = [],
     rs_created_at = ''a'', rs_updated_at = []\<rparr>"

definition sample_session :: runtime_session where
  "sample_session = sample_session_request\<lparr>rs_status := ''enabled'', rs_payload := [(BINDING_KEY, JMap sample_binding)],
     rs_updated_at := ''a''\<rparr>"

definition sample_snapshot :: gate_snapshot where
  "sample_snapshot = \<lparr>gs_id = ''g1'', gs_fingerprint = ''gf'', gs_session = ''s1'', gs_session_fingerprint = ''f1'',
     gs_source_fingerprint = ''sf'', gs_observed_ms = 1500, gs_observed_at = ''now'', gs_status = ''clear'', gs_gate_snapshot = [],
     gs_blockers = [], gs_created_at = ''now''\<rparr>"

definition sample_admission :: "string \<Rightarrow> int \<Rightarrow> admission_request" where
  "sample_admission i t = \<lparr>ra_id = i, ra_session = ''s1'', ra_session_fingerprint = ''f1'', ra_reservation = ''r1'', ra_authorization = ''a'',
     ra_account = ''acc'', ra_strategy = ''s'', ra_order = i, ra_request = i, ra_rate = 2, ra_admitted_ms = t, ra_admitted_at = ''now'',
     ra_status = [], ra_payload = [], ra_created_at = ''now'', aq_snapshot = ''g1'', aq_snapshot_fingerprint = ''gf'',
     aq_snapshot_observed_at = ''now'', aq_max_age_seconds = 60, aq_revision = 1, aq_control_fingerprint = replicate 64 CHR ''0''\<rparr>"

definition sample_session_db :: session_db where
  "sample_session_db = empty_session_db\<lparr>tb_control := sample_gate,
     tb_reservations := [(sample_reservation ''r1'' ''09:30'' ''11:30'' 3)\<lparr>rv_status := ''reserved''\<rparr>], tb_sessions := [sample_session],
     tb_snapshots := [sample_snapshot]\<rparr>"

definition sample_opening :: "session_command list" where
  "sample_opening = [SetGate 0 sample_control ENABLE_ACKNOWLEDGEMENT, Reserve (sample_reservation ''r1'' ''09:30'' ''11:30'' 3),
     Issue sample_session_request, Observe sample_snapshot]"

lemma sample_timed:
  assumes "1000 \<le> t" "t < 61000"
  shows "timed_evidence sample_control t = \<lparr>ce_status = ''enabled'', ce_configured = True, ce_enabled = True, ce_revision = 1,
    ce_fingerprint = replicate 64 CHR ''0'', ce_lineage = map (\<lambda>k. (k, JNil)) LINEAGE_FIELDS, ce_blockers = [], ce_available = True\<rparr>"
  using assms sample_control_reads(5)
  by (simp add: timed_evidence_def Let_def sample_control_reads jtrue_def jnum_def)
    (simp add: sample_control_def jget_def dict_get_default_def jstr_def)

lemma sample_bind:
  "bind_session_payload sample_digest sample_read sample_gate [] 1000 = Some [(BINDING_KEY, JMap sample_binding)]"
  by (simp add: bind_session_payload_def read_automatic_trading_control_def sample_gate_def resolve_valid[OF sample_control_valid]
      sample_timed open_gate_def sample_binding_def LINEAGE_FIELDS_def) (simp add: jget_def dict_get_default_def)

lemma sample_cas:
  "compare_and_set_automatic_trading sample_digest sample_read 0 sample_control ENABLE_ACKNOWLEDGEMENT \<lparr>cb_row = None, cb_events = []\<rparr> =
    Inr (CasUpdated 1, sample_gate)"
  using sample_control_reads(5)
  by (simp add: compare_and_set_automatic_trading_def cas_transaction_def current_control_def
      resolve_persisted_automatic_trading_control_def[of _ _ JNil] automatic_trading_evidence_def
      automatic_trading_transition_error_def sample_control_reads Let_def resolve_valid[OF sample_control_valid] sample_timed
      expected_last_disabled_lineage_def sample_gate_def)

lemma sample_opened: "session_run sample_digest sample_read sample_opening empty_session_db = sample_session_db"
proof -
  let ?r = "(sample_reservation ''r1'' ''09:30'' ''11:30'' 3)\<lparr>rv_status := ''reserved''\<rparr>"
  let ?db1 = "empty_session_db\<lparr>tb_control := sample_gate\<rparr>"
  let ?db2 = "?db1\<lparr>tb_reservations := [?r]\<rparr>"
  let ?db3 = "?db2\<lparr>tb_sessions := [sample_session]\<rparr>"
  have "set_gate sample_digest sample_read 0 sample_control ENABLE_ACKNOWLEDGEMENT empty_session_db = ?db1"
    by (simp add: set_gate_def empty_session_db_def sample_cas)
  moreover have "snd (reserve_controlled_session_budget (sample_reservation ''r1'' ''09:30'' ''11:30'' 3) ?db1) = ?db2"
    by code_simp
  moreover have "snd (issue_controlled_session sample_digest sample_read sample_session_request ?db2) = ?db3"
    by (simp add: issue_controlled_session_def sample_session_request_def find_reservation_def empty_session_db_def
        sample_reservation_def reservation_mismatches_def timestamp_epoch_ms_def sample_read_def sample_bind enabled_row_def
        session_row_allowed_def sample_session_def Let_def) (simp add: str_strip_def is_space_def)
  moreover have "snd (record_controlled_session_gate_snapshot sample_snapshot ?db3) = sample_session_db"
    by (simp add: record_controlled_session_gate_snapshot_def find_session_def sample_session_def sample_session_request_def
        sample_snapshot_def sample_session_db_def empty_session_db_def)
  ultimately show ?thesis by (simp add: sample_opening_def)
qed

lemma sample_automatic:
  assumes "1000 \<le> t" "t < 61000"
  shows "automatic_blockers sample_digest sample_read sample_gate (sample_admission i t) sample_session = []"
proof -
  have ev: "resolve_persisted_automatic_trading_control sample_digest sample_read (JMap sample_control) t (Some 1)
      (Some (replicate 64 CHR ''0'')) = timed_evidence sample_control t"
    using assms by (simp add: resolve_persisted_automatic_trading_control_def sample_control_valid Let_def identity_blockers_def
        sample_timed)
  have fp: "fingerprint_text (replicate 64 CHR ''0'')" by code_simp
  have "set (dict_keys sample_binding) = set BINDING_FIELDS" by (simp add: sample_binding_def BINDING_FIELDS_def)
  moreover have "jget sample_binding ''revision'' = JNum 1" "jget sample_binding ''control_fingerprint'' = JStr (replicate 64 CHR ''0'')"
    "jget sample_binding ''observed_at_epoch_ms'' = JNum 1000" "jget sample_binding ''schema_version'' = JStr BINDING_SCHEMA"
    "jget sample_binding ''status'' = JStr ''enabled''" "\<forall>k \<in> set BINDING_LINEAGE. jget sample_binding k = JNil"
    by (simp_all add: sample_binding_def jget_def dict_get_default_def BINDING_LINEAGE_def)
  moreover have "jget (rs_payload sample_session) BINDING_KEY = JMap sample_binding"
    by (simp add: sample_session_def jget_def dict_get_default_def)
  ultimately have "automatic_trading_binding_from_session_payload (rs_payload sample_session) = Some sample_binding"
    using fp by (simp add: automatic_trading_binding_from_session_payload_def binding_lineage_is_valid_def)
  moreover have "jget (map (\<lambda>k. (k, JNil)) LINEAGE_FIELDS) k = JNil" for k
    by (simp add: jget_def dict_get_default_def LINEAGE_FIELDS_def)
  moreover have "jget sample_binding ''revision'' = JNum 1" "jget sample_binding ''control_fingerprint'' = JStr (replicate 64 CHR ''0'')"
    "jget sample_binding ''status'' = JStr ''enabled''" "\<forall>k \<in> set BINDING_LINEAGE. jget sample_binding k = JNil"
    by (simp_all add: sample_binding_def jget_def dict_get_default_def BINDING_LINEAGE_def)
  ultimately show ?thesis
    using assms by (simp add: automatic_blockers_def Let_def read_automatic_trading_control_def sample_gate_def sample_admission_def ev
        sample_timed binding_blockers_def lineage_blockers_def)
qed

lemma sample_admit:
  assumes "1500 \<le> t" "t < 61000" "i \<notin> set (map ra_id rows)" "conflict_blockers (sample_admission i t) rows = []"
  shows "admit_controlled_session_order sample_digest sample_read (sample_admission i t) (sample_session_db\<lparr>tb_admissions := rows\<rparr>) =
    admit_in_window (sample_admission i t) (sample_session_db\<lparr>tb_admissions := rows\<rparr>)"
proof -
  let ?q = "sample_admission i t"
  let ?db = "sample_session_db\<lparr>tb_admissions := rows\<rparr>"
  have "\<not> admission_limit_invalid ?q" using assms by (simp add: admission_limit_invalid_def sample_admission_def)
  moreover have "find_session (ra_session ?q) ?db = Some sample_session" "session_blockers ?q (Some sample_session) = []"
    "paused_state (ra_session ?q) ?db = None"
    using assms by (simp_all add: find_session_def session_blockers_def paused_state_def find_state_def sample_session_db_def sample_session_def
        sample_session_request_def sample_admission_def empty_session_db_def)
  moreover have "gate_blockers ?q (latest_snapshot (filter (\<lambda>g. gs_session g = ra_session ?q) (tb_snapshots ?db))) = []"
    using assms by (simp add: gate_blockers_def latest_snapshot_def sample_session_db_def sample_snapshot_def sample_admission_def)
  moreover have "automatic_blockers sample_digest sample_read (tb_control ?db) ?q sample_session = []"
    using sample_automatic[of t i] assms by (simp add: sample_session_db_def)
  moreover have "find (\<lambda>a. ra_id a = ra_id ?q) (tb_admissions ?db) = None" using assms(3) by (auto simp: find_None_iff sample_admission_def)
  ultimately show ?thesis using assms(4) by (simp add: admit_controlled_session_order_def Let_def)
qed

definition sample_admissions :: "session_command list" where
  "sample_admissions = sample_opening @ map Admit [sample_admission ''o1'' 2000, sample_admission ''o2'' 3000, sample_admission ''o3'' 4000]"

lemma sample_admitted:
  "session_run sample_digest sample_read sample_admissions empty_session_db = sample_session_db\<lparr>tb_admissions :=
    [admission_row (sample_admission ''o1'' 2000), admission_row (sample_admission ''o2'' 3000)]\<rparr>"
proof -
  let ?row = "\<lambda>i t. admission_row (sample_admission i t)"
  let ?db = "\<lambda>rows. sample_session_db\<lparr>tb_admissions := rows\<rparr>"
  have "snd (admit_in_window (sample_admission ''o1'' 2000) (?db [])) = ?db [?row ''o1'' 2000]"
    "snd (admit_in_window (sample_admission ''o2'' 3000) (?db [?row ''o1'' 2000])) = ?db [?row ''o1'' 2000, ?row ''o2'' 3000]"
    "snd (admit_in_window (sample_admission ''o3'' 4000) (?db [?row ''o1'' 2000, ?row ''o2'' 3000])) = ?db [?row ''o1'' 2000, ?row ''o2'' 3000]"
    by (simp_all add: admit_in_window_def Let_def effective_rate_def sql_min_def or_int_def in_rate_window_def sample_admission_def)
  moreover have "?db [] = sample_session_db" by (simp add: sample_session_db_def empty_session_db_def)
  ultimately show ?thesis
    using sample_admit[of 2000 "''o1''" "[]"] sample_admit[of 3000 "''o2''" "[?row ''o1'' 2000]"]
      sample_admit[of 4000 "''o3''" "[?row ''o1'' 2000, ?row ''o2'' 3000]"]
    by (simp add: sample_admissions_def sample_opened conflict_blockers_def) (simp add: sample_admission_def)
qed


end
