(* ===== verification/Session_Stops.thy ===== *)
theory Session_Stops
  imports Session_Safety
begin

text \<open>
  What stops controlled sessions. A session that was paused, revoked or replaced, or that was issued before the gate
  was last closed, admits nothing more, whatever is requested afterwards.
\<close>

section \<open>Sessions\<close>

lemma revoke_row_fields [simp]:
  "rs_id (revoke_row i now s) = rs_id s" "rs_fingerprint (revoke_row i now s) = rs_fingerprint s"
  "rs_reservation (revoke_row i now s) = rs_reservation s" "rs_payload (revoke_row i now s) = rs_payload s"
  "rs_effective_ms (revoke_row i now s) = rs_effective_ms s" "rs_expires_ms (revoke_row i now s) = rs_expires_ms s"
  "rs_rate (revoke_row i now s) = rs_rate s" "rs_authorization (revoke_row i now s) = rs_authorization s"
  "rs_account (revoke_row i now s) = rs_account s" "rs_strategy (revoke_row i now s) = rs_strategy s"
  "rs_order_ids (revoke_row i now s) = rs_order_ids s"
  by (simp_all add: revoke_row_def)

lemma enabled_row_fields [simp]:
  "rs_id (enabled_row s p) = rs_id s" "rs_reservation (enabled_row s p) = rs_reservation s" "rs_payload (enabled_row s p) = p"
  "rs_status (enabled_row s p) = ''enabled''" "rs_authorization (enabled_row s p) = rs_authorization s"
  "rs_account (enabled_row s p) = rs_account s" "rs_strategy (enabled_row s p) = rs_strategy s"
  "rs_rate (enabled_row s p) = rs_rate s" "rs_order_ids (enabled_row s p) = rs_order_ids s"
  "rs_effective_ms (enabled_row s p) = rs_effective_ms s" "rs_expires_ms (enabled_row s p) = rs_expires_ms s"
  "rs_fingerprint (enabled_row s p) = rs_fingerprint s"
  by (simp_all add: enabled_row_def)

text \<open>A transaction revokes at most one session and adds at most one, bound to the gate and fresh.\<close>

definition retires :: "(runtime_session \<Rightarrow> runtime_session) \<Rightarrow> bool" where
  "retires f = (f = id \<or> (\<exists>i now. f = revoke_row i now))"

lemma retires_keeps:
  assumes "retires f"
  shows "rs_id (f s) = rs_id s" "rs_fingerprint (f s) = rs_fingerprint s" "rs_reservation (f s) = rs_reservation s"
    "rs_payload (f s) = rs_payload s" "rs_effective_ms (f s) = rs_effective_ms s" "rs_expires_ms (f s) = rs_expires_ms s"
    "rs_status s \<noteq> ''enabled'' \<Longrightarrow> rs_status (f s) = rs_status s"
    "rs_authorization (f s) = rs_authorization s" "rs_account (f s) = rs_account s" "rs_strategy (f s) = rs_strategy s"
  using assms by (auto simp: retires_def revoke_row_def)

definition grants :: "hash \<Rightarrow> stamp_reader \<Rightarrow> session_db \<Rightarrow> (runtime_session \<Rightarrow> runtime_session) \<Rightarrow> runtime_session \<Rightarrow> bool" where
  "grants digest read db f row = (session_row_allowed row (map f (tb_sessions db)) \<and> rs_status row = ''enabled'' \<and>
     (\<exists>payload ms. bind_session_payload digest read (tb_control db) payload ms = Some (rs_payload row)) \<and>
     (\<exists>v. find_reservation (rs_reservation row) db = Some v \<and> rv_authorization v = rs_authorization row \<and>
       rv_account v = rs_account row \<and> rv_strategy v = rs_strategy row))"

lemma mismatches_Nil:
  assumes "reservation_mismatches prefix v s = []"
  shows "rv_authorization v = rs_authorization s \<and> rv_account v = rs_account s \<and> rv_strategy v = rs_strategy s"
  using assms by (auto simp: reservation_mismatches_def split: if_splits)

lemma validation_Nil:
  assumes "replacement_validation_blockers q db = []"
  obtains p st old new where "find_session (rq_predecessor q) db = Some p" "find_state (rq_predecessor q) db = Some st"
    "predecessor_blockers q p st = []" "find_reservation (rs_reservation p) db = Some old"
    "find_reservation (rs_reservation q) db = Some new"
    "reservation_mismatches ''runtime_session_replacement_reservation_'' new (runtime_session.truncate q) = []"
    "rv_status new = ''reserved''" "widened old new = []" "window_blockers q p st = []"
    "recovery_blockers q st (tb_snapshots db) = []"
proof -
  note c = assms[unfolded replacement_validation_blockers_def Let_def]
  obtain p where p: "find_session (rq_predecessor q) db = Some p" using c by (cases "find_session (rq_predecessor q) db") auto
  obtain st where st: "find_state (rq_predecessor q) db = Some st" using c p by (cases "find_state (rq_predecessor q) db") auto
  note c = c[unfolded p st option.case prod.case]
  have 1: "predecessor_blockers q p st = []" using c by (metis (no_types, lifting))
  note c = c[unfolded 1 if_not_P[OF not_not[THEN iffD2, OF refl]]]
  have 2: "\<not> list_ex (\<lambda>s. rs_id s = rs_id q \<or> rs_reservation s = rs_reservation q) (tb_sessions db)" using c by (auto split: if_splits)
  note c = c[unfolded if_not_P[OF 2]]
  obtain old where old: "find_reservation (rs_reservation p) db = Some old"
    using c by (cases "find_reservation (rs_reservation p) db") auto
  obtain new where new: "find_reservation (rs_reservation q) db = Some new"
    using c old by (cases "find_reservation (rs_reservation q) db") auto
  note c = c[unfolded old new option.case prod.case]
  have "reservation_mismatches ''runtime_session_replacement_reservation_'' new (runtime_session.truncate q) = []"
    "rv_status new = ''reserved''" "widened old new = []" "window_blockers q p st = []"
    "recovery_blockers q st (tb_snapshots db) = []"
    using c by (simp_all split: if_splits)
  then show thesis by (rule that[OF p st 1 old new])
qed

lemma step_sessions:
  obtains f rows where "retires f" "tb_sessions (session_step digest read c db) = map f (tb_sessions db) @ rows"
    "rows = [] \<or> (\<exists>row. rows = [row] \<and> grants digest read db f row)"
proof (cases rule: step_cases[of digest read c db])
  case (issued s payload ms v)
  have "grants digest read db id (enabled_row s payload)" using issued mismatches_Nil[OF issued(4)] by (auto simp: grants_def)
  then show ?thesis using that[of id "[enabled_row s payload]"] issued(5) by (simp add: retires_def)
next
  case (revoked k)
  then show ?thesis using that[of "revoke_row (rk_session k) (rk_created_at k)" "[]"] by (auto simp: retires_def)
next
  case (replaced q payload ms)
  obtain new where new: "find_reservation (rs_reservation q) db = Some new"
    "reservation_mismatches ''runtime_session_replacement_reservation_'' new (runtime_session.truncate q) = []"
    using validation_Nil[OF replaced(1)] by metis
  let ?f = "revoke_row (rq_predecessor q) (rs_created_at q)" and ?row = "enabled_row (runtime_session.truncate q) payload"
  have "grants digest read db ?f ?row"
    using replaced(2,3) new(1) mismatches_Nil[OF new(2)] unfolding grants_def by (auto simp: runtime_session.truncate_def)
  then show ?thesis using that[of ?f "[?row]"] replaced(4) by (auto simp: retires_def)
qed (use that[of id "[]"] in \<open>auto simp: retires_def\<close>)

lemma step_states:
  "\<exists>rows. tb_states (session_step digest read c db) = tb_states db @ rows \<and> (\<forall>p \<in> set rows. pa_status p = ''paused'')"
  by (cases rule: step_cases[of digest read c db]) (auto simp: pause_row_def)

lemma find_session_append:
  "tb_sessions db' = map f (tb_sessions db) @ rows \<Longrightarrow> retires f \<Longrightarrow> find_session i db = Some s \<Longrightarrow>
    find_session i db' = Some (f s)"
proof -
  assume "retires f" "find_session i db = Some s" "tb_sessions db' = map f (tb_sessions db) @ rows"
  moreover from this have "find (\<lambda>s. rs_id s = i) (map f xs @ ys) = Some (f s)" if "find (\<lambda>s. rs_id s = i) xs = Some s" for xs ys
    using that by (induction xs) (auto simp: retires_keeps)
  ultimately show ?thesis by (simp add: find_session_def)
qed

section \<open>A stopped session\<close>

definition session_stopped :: "string \<Rightarrow> session_db \<Rightarrow> bool" where
  "session_stopped i db = (paused_state i db \<noteq> None \<or> (case find_session i db of None \<Rightarrow> False | Some s \<Rightarrow> rs_status s \<noteq> ''enabled''))"

lemma stopped_step:
  assumes "session_stopped i db"
  shows "session_stopped i (session_step digest read c db) \<and>
    filter (\<lambda>a. ra_session a = i) (tb_admissions (session_step digest read c db)) = filter (\<lambda>a. ra_session a = i) (tb_admissions db)"
proof
  obtain f rows where f: "retires f" "tb_sessions (session_step digest read c db) = map f (tb_sessions db) @ rows"
    by (rule step_sessions)
  obtain ps where ps: "tb_states (session_step digest read c db) = tb_states db @ ps" using step_states by blast
  show "session_stopped i (session_step digest read c db)"
    using assms find_session_append[OF f(2,1)] retires_keeps(7)[OF f(1)]
    by (auto simp: session_stopped_def paused_state_def find_state_def ps find_append split: option.splits if_splits)
  show "filter (\<lambda>a. ra_session a = i) (tb_admissions (session_step digest read c db)) = filter (\<lambda>a. ra_session a = i) (tb_admissions db)"
  proof (cases rule: step_cases[of digest read c db])
    case (admitted q s before rate)
    then have "ra_session q \<noteq> i" using assms by (auto simp: session_stopped_def session_blockers_def)
    then show ?thesis using admitted by simp
  qed auto
qed

lemma stopped_run:
  assumes "session_stopped i db"
  shows "filter (\<lambda>a. ra_session a = i) (tb_admissions (session_run digest read cs db)) = filter (\<lambda>a. ra_session a = i) (tb_admissions db)"
  using assms
proof (induction cs arbitrary: db)
  case (Cons c cs)
  then show ?case using stopped_step[of i db digest read c] by simp
qed simp

text \<open>The statuses a history leaves.\<close>

definition statuses_ok :: "session_db \<Rightarrow> bool" where
  "statuses_ok db = (\<forall>p \<in> set (tb_states db). pa_status p = ''paused'')"

lemma statuses_of_run: "statuses_ok (session_run digest read cs empty_session_db)"
proof (rule session_run_invariant[where P = statuses_ok])
  show "statuses_ok (session_step digest read c db)" if "statuses_ok db" for c db
    using that step_states[of digest read c db] by (auto simp: statuses_ok_def)
qed (simp add: statuses_ok_def empty_session_db_def)

text \<open>The sessions an answer reports as stopped.\<close>

definition stopped_by :: "hash \<Rightarrow> stamp_reader \<Rightarrow> session_command \<Rightarrow> session_db \<Rightarrow> string option" where
  "stopped_by digest read c db = (case c of
       Pause p \<Rightarrow> (case fst (pause_controlled_session p db) of Paused _ _ _ \<Rightarrow> Some (pe_session p) | _ \<Rightarrow> None)
     | Revoke k \<Rightarrow> (case fst (revoke_controlled_session k db) of SessionRevoked _ _ _ \<Rightarrow> Some (rk_session k) | _ \<Rightarrow> None)
     | Replace q \<Rightarrow> (case fst (replace_paused_controlled_session digest read q db) of
         SessionIssued False _ \<Rightarrow> Some (rq_predecessor q) | _ \<Rightarrow> None)
     | _ \<Rightarrow> None)"

lemma pause_stops:
  assumes "pause_controlled_session p db = (Paused reused st ev, db')" "statuses_ok db"
  shows "session_stopped (pe_session p) db'"
proof (cases "find_state (pe_session p) db")
  case None
  then have "find_state (pe_session p) (db\<lparr>tb_pauses := a, tb_states := tb_states db @ [pause_row p rs]\<rparr>) = Some (pause_row p rs)" for a rs
    by (simp add: find_state_def find_append pause_row_def)
  then show ?thesis using assms(1) None
    by (auto simp: pause_controlled_session_def Let_def session_stopped_def paused_state_def pause_row_def split: if_splits)
next
  case (Some x)
  then have "x \<in> set (tb_states db)" by (auto simp: find_state_def find_Some_iff)
  then show ?thesis using assms Some
    by (auto simp: pause_controlled_session_def Let_def session_stopped_def paused_state_def statuses_ok_def split: if_splits)
qed

lemma revoke_stops:
  assumes "find_session i db = Some s" "tb_sessions db' = map (revoke_row i now) (tb_sessions db) @ rows"
  shows "session_stopped i db'"
proof -
  have "rs_id s = i" using assms(1) by (auto simp: find_session_def find_Some_iff)
  then have "rs_status (revoke_row i now s) \<noteq> ''enabled''" by (simp add: revoke_row_def)
  moreover have "find_session i db' = Some (revoke_row i now s)"
    by (rule find_session_append[OF assms(2) _ assms(1)]) (auto simp: retires_def)
  ultimately show ?thesis by (simp add: session_stopped_def)
qed

lemma stopped_by_stops:
  assumes "stopped_by digest read c db = Some i" "statuses_ok db"
  shows "session_stopped i (session_step digest read c db)"
proof (cases c)
  case (Pause p)
  obtain a db' where a: "pause_controlled_session p db = (a, db')" by force
  then show ?thesis using assms pause_stops Pause by (auto simp: stopped_by_def split: pause_answer.splits)
next
  case (Revoke k)
  obtain a db' where a: "revoke_controlled_session k db = (a, db')" by force
  then obtain reused s k' where k: "a = SessionRevoked reused s k'" "i = rk_session k"
    using assms(1) Revoke by (auto simp: stopped_by_def split: session_answer.splits)
  obtain s where s: "find_session (rk_session k) db = Some s"
    using a k by (cases "find_session (rk_session k) db") (auto simp: revoke_controlled_session_def)
  have "db' = db \<and> rs_status s \<noteq> ''enabled'' \<or>
      tb_sessions db' = map (revoke_row (rk_session k) (rk_created_at k)) (tb_sessions db)"
    using a k s by (auto simp: revoke_controlled_session_def split: if_splits option.splits)
  then have "session_stopped (rk_session k) db'"
    using revoke_stops[OF s, of db' _ "[]"] s by (auto simp: session_stopped_def)
  then show ?thesis using a k Revoke by simp
next
  case (Replace q)
  obtain a db' where a: "replace_paused_controlled_session digest read q db = (a, db')" by force
  then obtain s where k: "a = SessionIssued False s" "i = rq_predecessor q"
    using assms(1) Replace by (auto simp: stopped_by_def split: session_answer.splits bool.splits)
  from a have "session_stopped (rq_predecessor q) db'"
  proof (cases rule: replace_cases)
    case (2 payload ms row)
    obtain p where "find_session (rq_predecessor q) db = Some p" using validation_Nil[OF 2(1)] by metis
    then show ?thesis using revoke_stops[where now = "rs_created_at q" and rows = "[row]"] 2(6) by simp
  qed (use k in blast)
  then show ?thesis using a k Replace by simp
qed (use assms(1) in \<open>simp_all add: stopped_by_def\<close>)

text \<open>C37: a stopped session stays stopped. Once a pause or a revocation of a session is answered, or the session is
  replaced, whatever is requested afterwards and in whatever order, no order is admitted for it: its admissions remain
  those it had.\<close>

theorem stopped_session_admits_nothing:
  assumes "stopped_by digest read c (session_run digest read cs empty_session_db) = Some i"
  shows "filter (\<lambda>a. ra_session a = i) (tb_admissions (session_run digest read (cs @ c # ds) empty_session_db)) =
    filter (\<lambda>a. ra_session a = i) (tb_admissions (session_run digest read cs empty_session_db))"
proof -
  let ?db = "session_run digest read cs empty_session_db"
  have "session_stopped i (session_step digest read c ?db)" by (rule stopped_by_stops[OF assms statuses_of_run])
  then have "filter (\<lambda>a. ra_session a = i) (tb_admissions (session_run digest read ds (session_step digest read c ?db))) =
      filter (\<lambda>a. ra_session a = i) (tb_admissions (session_step digest read c ?db))" by (rule stopped_run)
  moreover have "tb_admissions (session_step digest read c ?db) = tb_admissions ?db"
    using assms by (cases rule: step_cases[of digest read c ?db]) (auto simp: stopped_by_def)
  ultimately show ?thesis by simp
qed

section \<open>A closed gate\<close>

text \<open>The revision of the gate a session is bound to.\<close>

definition bound_revision :: "runtime_session \<Rightarrow> int option" where
  "bound_revision s = map_option (\<lambda>b. jnum (jget b ''revision'')) (automatic_trading_binding_from_session_payload (rs_payload s))"

definition bound_to :: "(runtime_session \<Rightarrow> bool) \<Rightarrow> int \<Rightarrow> session_db \<Rightarrow> bool" where
  "bound_to P n db = (\<forall>s \<in> set (tb_sessions db). P s \<longrightarrow> (case bound_revision s of None \<Rightarrow> True | Some r \<Rightarrow> r \<le> n))"

lemma available_revision:
  assumes "gate_ok digest read db" "ce_available (snd (read_automatic_trading_control digest read db t))"
  shows "ce_revision (snd (read_automatic_trading_control digest read db t)) = gate_revision db"
  using assms(1)
proof (cases rule: gate_ok_cases)
  case 1
  then show ?thesis using assms(2)
    by (auto simp: read_automatic_trading_control_def resolve_persisted_automatic_trading_control_def automatic_trading_evidence_def
        split: if_splits)
next
  case (2 v)
  then have "0 \<le> t" using assms(2)
    by (auto simp: read_automatic_trading_control_def resolve_persisted_automatic_trading_control_def automatic_trading_evidence_def
        Let_def split: if_splits)
  then show ?thesis using 2 by (simp add: read_automatic_trading_control_def Let_def resolve_valid row_number_def)
qed

lemma bound_revision_of_bind:
  assumes "bind_session_payload digest read db payload ms = Some (rs_payload s)" "gate_ok digest read db"
    "bound_revision s = Some r"
  shows "r = gate_revision db"
proof -
  let ?ev = "snd (read_automatic_trading_control digest read db ms)"
  have ev: "ce_available ?ev" using assms(1) by (auto simp: bind_session_payload_def open_gate_def Let_def split: if_splits)
  let ?b = "\<lambda>tail. (''schema_version'', JStr BINDING_SCHEMA) # (''status'', JStr (ce_status ?ev)) # (''revision'', JNum (ce_revision ?ev)) # tail"
  obtain tail where "dict_put BINDING_KEY (JMap (?b tail)) payload = rs_payload s"
    using assms(1) by (auto simp: bind_session_payload_def Let_def split: if_splits)
  then have "jget (rs_payload s) BINDING_KEY = JMap (?b tail)" by (metis jget_put)
  moreover have "jget (?b tail) ''revision'' = JNum (ce_revision ?ev)" by (simp add: jget_def dict_get_default_def)
  ultimately obtain b where b: "jget (rs_payload s) BINDING_KEY = JMap b" "jget b ''revision'' = JNum (ce_revision ?ev)" by blast
  have "r = jnum (jget b ''revision'')"
    using assms(3) b(1) by (auto simp: bound_revision_def automatic_trading_binding_from_session_payload_def split: if_splits jdoc.splits)
  then show ?thesis using b(2) available_revision[OF assms(2) ev] by (simp add: jnum_def)
qed

lemma step_gate:
  assumes "gate_ok digest read (tb_control db)"
  shows "gate_ok digest read (tb_control (session_step digest read c db)) \<and>
    gate_revision (tb_control db) \<le> gate_revision (tb_control (session_step digest read c db)) \<and>
    closed_revision (tb_control db) \<le> closed_revision (tb_control (session_step digest read c db))"
proof (cases rule: step_cases[of digest read c db])
  case (gate expected v acknowledgement answer control)
  then show ?thesis using assms
  proof (cases answer)
    case (CasUpdated r)
    show ?thesis using cas_effect[OF assms gate(2)[unfolded CasUpdated]] gate(3) by simp
  next
    case (CasConflict r d)
    show ?thesis using cas_conflict_unchanged[OF gate(2)[unfolded CasConflict]] gate(3) assms by simp
  qed
qed (use assms in auto)

lemma sessions_are_bound:
  "gate_ok digest read (tb_control (session_run digest read cs empty_session_db)) \<and>
   bound_to (\<lambda>_. True) (gate_revision (tb_control (session_run digest read cs empty_session_db)))
     (session_run digest read cs empty_session_db)"
proof (rule session_run_invariant[where
    P = "\<lambda>db. gate_ok digest read (tb_control db) \<and> bound_to (\<lambda>_. True) (gate_revision (tb_control db)) db"])
  fix c db
  assume ok: "gate_ok digest read (tb_control db) \<and> bound_to (\<lambda>_. True) (gate_revision (tb_control db)) db"
  let ?db = "session_step digest read c db"
  obtain f rows where f: "retires f" "tb_sessions ?db = map f (tb_sessions db) @ rows"
    "rows = [] \<or> (\<exists>row. rows = [row] \<and> grants digest read db f row)" by (rule step_sessions)
  note gate = step_gate[of digest read db c]
  have "case bound_revision s of None \<Rightarrow> True | Some r \<Rightarrow> r \<le> gate_revision (tb_control ?db)"
    if s: "s \<in> set (tb_sessions ?db)" for s
  proof (cases "s \<in> set rows")
    case True
    then have "\<exists>payload ms. bind_session_payload digest read (tb_control db) payload ms = Some (rs_payload s)"
      using f(3) unfolding grants_def by fastforce
    then show ?thesis using bound_revision_of_bind ok gate by (fastforce split: option.splits)
  next
    case False
    then obtain s' where "s = f s'" "s' \<in> set (tb_sessions db)" using s f(2) by auto
    then show ?thesis using ok gate f(1) by (fastforce simp: bound_to_def bound_revision_def retires_keeps split: option.splits)
  qed
  then show "gate_ok digest read (tb_control ?db) \<and> bound_to (\<lambda>_. True) (gate_revision (tb_control ?db)) ?db"
    using gate ok by (simp add: bound_to_def)
qed (simp add: empty_session_db_def gate_ok_def bound_to_def)

lemma closed_gate_blocks:
  assumes ok: "gate_ok digest read control" and n: "1 \<le> n" "n \<le> closed_revision control"
    and s: "case bound_revision s of None \<Rightarrow> True | Some r \<Rightarrow> r \<le> n"
  shows "automatic_blockers digest read control q s \<noteq> []"
proof
  assume "automatic_blockers digest read control q s = []"
  note none = this[unfolded automatic_blockers_def Let_def]
  let ?ev = "resolve_persisted_automatic_trading_control digest read
    (fst (read_automatic_trading_control digest read control (ra_admitted_ms q))) (ra_admitted_ms q) (Some (aq_revision q))
    (Some (aq_control_fingerprint q))"
  obtain v where v: "cb_row control = Some (JMap v)" "control_is_valid digest read v"
    using ok by (cases rule: gate_ok_cases) (use n in \<open>auto simp: row_number_def\<close>)
  have blockers: "ce_blockers ?ev = []" using none by simp
  have lineage: "ce_lineage ?ev = map (\<lambda>k. (k, jget v k)) LINEAGE_FIELDS"
    using blockers v by (auto simp: resolve_persisted_automatic_trading_control_def read_automatic_trading_control_def
        automatic_trading_evidence_def Let_def split: if_splits)
  have last: "jget (ce_lineage ?ev) ''last_disabled_revision'' = jget v ''last_disabled_revision''"
    by (simp add: lineage LINEAGE_FIELDS_def) (simp add: jget_def dict_get_default_def)
  have closed: "n \<le> jnum (jget v ''last_disabled_revision'')" using n(2) v(1) by (simp add: row_number_def)
  obtain b where b: "automatic_trading_binding_from_session_payload (rs_payload s) = Some b"
    using none by (cases "automatic_trading_binding_from_session_payload (rs_payload s)") (auto simp: binding_blockers_def)
  have "jnum (jget b ''revision'') \<le> n" using s b by (simp add: bound_revision_def)
  moreover have "jget v ''last_disabled_revision'' \<noteq> JNil" using closed n(1) by (auto simp: jnum_def)
  ultimately have "lineage_blockers read s (Some b) ?ev \<noteq> []" using closed by (simp add: lineage_blockers_def last)
  then show False using none b by simp
qed

text \<open>A session that the gate has outlived: it is bound to a revision that was closed since.\<close>

definition outlived :: "hash \<Rightarrow> stamp_reader \<Rightarrow> string \<Rightarrow> int \<Rightarrow> session_db \<Rightarrow> bool" where
  "outlived digest read i n db = (gate_ok digest read (tb_control db) \<and> n \<le> closed_revision (tb_control db) \<and>
     i \<in> set (map rs_id (tb_sessions db)) \<and> bound_to (\<lambda>s. rs_id s = i) n db)"

lemma outlived_step:
  assumes "outlived digest read i n db" "1 \<le> n"
  shows "outlived digest read i n (session_step digest read c db)"
    and "filter (\<lambda>a. ra_session a = i) (tb_admissions (session_step digest read c db)) = filter (\<lambda>a. ra_session a = i) (tb_admissions db)"
proof -
  let ?db = "session_step digest read c db"
  obtain f rows where f: "retires f" "tb_sessions ?db = map f (tb_sessions db) @ rows"
    "rows = [] \<or> (\<exists>row. rows = [row] \<and> grants digest read db f row)" by (rule step_sessions)
  have ids: "map rs_id (map f (tb_sessions db)) = map rs_id (tb_sessions db)" by (simp add: retires_keeps[OF f(1)])
  have "rs_id s \<noteq> i" if "s \<in> set rows" for s
  proof -
    have "rs_id s \<notin> set (map rs_id (map f (tb_sessions db)))" using that f(3) by (auto simp: grants_def session_row_allowed_def)
    then show ?thesis using assms(1) unfolding ids outlived_def by blast
  qed
  moreover have "case bound_revision (f s) of None \<Rightarrow> True | Some r \<Rightarrow> r \<le> n" if "s \<in> set (tb_sessions db)" "rs_id s = i" for s
    using that assms(1) by (auto simp: outlived_def bound_to_def bound_revision_def retires_keeps[OF f(1)])
  ultimately have "bound_to (\<lambda>s. rs_id s = i) n ?db" by (auto simp: bound_to_def f(2) retires_keeps[OF f(1)])
  moreover have "i \<in> set (map rs_id (tb_sessions ?db))" unfolding f(2) map_append ids using assms(1) by (simp add: outlived_def)
  ultimately show "outlived digest read i n ?db" using step_gate[of digest read db c] assms(1) by (auto simp: outlived_def)
  show "filter (\<lambda>a. ra_session a = i) (tb_admissions ?db) = filter (\<lambda>a. ra_session a = i) (tb_admissions db)"
  proof (cases rule: step_cases[of digest read c db])
    case (admitted q s before rate)
    have "ra_session q \<noteq> i"
    proof
      assume "ra_session q = i"
      then have "s \<in> set (tb_sessions db)" "rs_id s = i" using admitted(2) by (auto simp: find_session_def find_Some_iff)
      then show False using closed_gate_blocks[of digest read "tb_control db" n s q] admitted(5) assms
        by (auto simp: outlived_def bound_to_def)
    qed
    then show ?thesis using admitted by simp
  qed auto
qed

lemma outlived_run:
  assumes "outlived digest read i n db" "1 \<le> n"
  shows "filter (\<lambda>a. ra_session a = i) (tb_admissions (session_run digest read cs db)) = filter (\<lambda>a. ra_session a = i) (tb_admissions db)"
  using assms(1)
proof (induction cs arbitrary: db)
  case (Cons c cs)
  then show ?case using outlived_step[OF Cons.prems assms(2)] by simp
qed simp

text \<open>C38: closing the gate stops every session. Once an operator has disabled automatic trading, none of the sessions
  issued before admits an order again, whatever is requested afterwards: not even after the gate is opened anew.\<close>

theorem closing_the_gate_stops_every_session:
  assumes "db = session_run digest read cs empty_session_db"
    "compare_and_set_automatic_trading digest read expected v acknowledgement (tb_control db) = Inr (CasUpdated r, control)"
    "jget v ''configured_enabled'' = JTruth False" "i \<in> set (map rs_id (tb_sessions db))"
  shows "filter (\<lambda>a. ra_session a = i)
      (tb_admissions (session_run digest read (SetGate expected v acknowledgement # ds) db)) =
    filter (\<lambda>a. ra_session a = i) (tb_admissions db)"
proof -
  let ?db = "db\<lparr>tb_control := control\<rparr>"
  have step: "session_step digest read (SetGate expected v acknowledgement) db = ?db" by (simp add: set_gate_def assms(2))
  note bound = sessions_are_bound[of digest read cs, folded assms(1)]
  note effect = cas_effect[OF conjunct1[OF bound] assms(2)]
  have r: "1 \<le> r" "gate_revision (tb_control db) \<le> r" using effect closed_revision_bounds[OF conjunct1[OF bound]] by auto
  have "outlived digest read i r ?db"
    using effect assms(3,4) conjunct2[OF bound] r(2) unfolding outlived_def bound_to_def
    by (fastforce split: option.splits)
  then show ?thesis using outlived_run[OF _ r(1), of digest read i ?db ds] unfolding session_run_simps step by simp
qed

section \<open>A sample\<close>

definition sample_pause :: pause_event where
  "sample_pause = \<lparr>pe_id = ''p1'', pe_session = ''s1'', pe_fingerprint = ''f1'', pe_reservation = ''r1'', pe_gate_fingerprint = ''gf'',
     pe_reason_fingerprint = ''rf'', pe_reasons = [''drift''], pe_gate_snapshot = [], pe_paused_ms = 4500, pe_paused_at = ''now'',
     pe_status = [], pe_payload = [], pe_created_at = ''now''\<rparr>"

lemma stopped_session_admits_nothing_witness:
  "map ra_id (filter (\<lambda>a. ra_session a = ''s1'') (tb_admissions (session_run sample_digest sample_read
    (sample_admissions @ [Pause sample_pause, Admit (sample_admission ''o4'' 65000)]) empty_session_db))) = [''o1'', ''o2'']"
proof -
  have "stopped_by sample_digest sample_read (Pause sample_pause)
      (session_run sample_digest sample_read sample_admissions empty_session_db) = Some ''s1''"
    unfolding sample_admitted
    by (simp add: stopped_by_def pause_controlled_session_def find_state_def sample_session_db_def empty_session_db_def
        sample_pause_def Let_def)
  note s = stopped_session_admits_nothing[OF this, of "[Admit (sample_admission ''o4'' 65000)]"]
  show ?thesis unfolding s sample_admitted by (simp add: sample_admission_def)
qed

definition sample_disabled :: jobject where
  "sample_disabled = [(''schema_version'', JStr CONTROL_SCHEMA), (''configured_enabled'', JTruth False), (''revision'', JNum 2),
     (''control_fingerprint'', JStr (replicate 64 CHR ''0'')), (''reason'', JStr ''close''), (''operator_id'', JStr ''op''),
     (''effective_at'', JStr ''a''), (''effective_at_epoch_ms'', JNum 1000), (''expires_at'', JNil),
     (''expires_at_epoch_ms'', JNil), (''last_disabled_at'', JStr ''a''), (''last_disabled_at_epoch_ms'', JNum 1000),
     (''last_disabled_revision'', JNum 2), (''last_disabled_control_identity'', JStr (replicate 64 CHR ''0'')),
     (''updated_at'', JStr ''a'')]"

lemma sample_disabled_valid: "control_is_valid sample_digest sample_read sample_disabled"
proof -
  have fields: "set (dict_keys sample_disabled) = set CONTROL_FIELDS" by code_simp
  have "fingerprint_text (replicate 64 CHR ''0'')" "str_strip ''close'' \<noteq> []" "str_strip ''op'' \<noteq> []"
    "timestamp_epoch_ms sample_read (JStr ''a'') = Some 1000" by code_simp+
  then show ?thesis unfolding control_is_valid_def fields
    by (simp add: sample_disabled_def jget_def dict_get_default_def timestamp_matches_epoch_def expiry_is_valid_def
        last_disabled_lineage_is_valid_def LINEAGE_FIELDS_def automatic_trading_disable_identity_def
        automatic_trading_control_fingerprint_def sample_digest_def)
qed

lemma sample_disabled_reads:
  "jget sample_disabled ''configured_enabled'' = JTruth False" "jget sample_disabled ''effective_at_epoch_ms'' = JNum 1000"
  "jget sample_disabled ''revision'' = JNum 2" "jget sample_disabled ''effective_at'' = JStr ''a''"
  "jget sample_disabled ''last_disabled_at'' = JStr ''a''" "jget sample_disabled ''last_disabled_at_epoch_ms'' = JNum 1000"
  "jget sample_disabled ''last_disabled_revision'' = JNum 2"
  "jget sample_disabled ''last_disabled_control_identity'' = JStr (replicate 64 CHR ''0'')"
  by (simp_all add: sample_disabled_def jget_def dict_get_default_def)

lemma sample_disables:
  "\<exists>control. compare_and_set_automatic_trading sample_digest sample_read 1 sample_disabled DISABLE_ACKNOWLEDGEMENT sample_gate =
    Inr (CasUpdated 2, control)"
proof -
  have "timed_evidence sample_disabled 1000 = timed_evidence sample_disabled 1000\<lparr>ce_status := ''disabled''\<rparr>"
    by (simp add: timed_evidence_def Let_def sample_disabled_reads jtrue_def)
  then have "ce_status (timed_evidence sample_disabled 1000) = ''disabled''" by (metis control_evidence.select_convs(1) control_evidence.surjective control_evidence.update_convs(1))
  then show ?thesis
    by (simp add: compare_and_set_automatic_trading_def cas_transaction_def current_control_def sample_gate_def
        automatic_trading_transition_error_def sample_control_reads sample_disabled_reads Let_def resolve_valid[OF sample_control_valid]
        resolve_valid[OF sample_disabled_valid] sample_timed expected_last_disabled_lineage_def
        automatic_trading_disable_identity_def sample_digest_def jnum_def)
qed

lemma closing_the_gate_stops_every_session_witness:
  "map ra_id (filter (\<lambda>a. ra_session a = ''s1'') (tb_admissions (session_run sample_digest sample_read
    [SetGate 1 sample_disabled DISABLE_ACKNOWLEDGEMENT, Admit (sample_admission ''o4'' 65000)]
    (session_run sample_digest sample_read sample_admissions empty_session_db)))) = [''o1'', ''o2'']"
proof -
  have control: "tb_control (session_run sample_digest sample_read sample_admissions empty_session_db) = sample_gate"
    unfolding sample_admitted by (simp add: sample_session_db_def)
  obtain control where cas: "compare_and_set_automatic_trading sample_digest sample_read 1 sample_disabled DISABLE_ACKNOWLEDGEMENT
      (tb_control (session_run sample_digest sample_read sample_admissions empty_session_db)) = Inr (CasUpdated 2, control)"
    unfolding control using sample_disables by blast
  have i: "''s1'' \<in> set (map rs_id (tb_sessions (session_run sample_digest sample_read sample_admissions empty_session_db)))"
    unfolding sample_admitted by (simp add: sample_session_db_def sample_session_def sample_session_request_def)
  note s = closing_the_gate_stops_every_session[OF refl cas sample_disabled_reads(1) i, of "[Admit (sample_admission ''o4'' 65000)]"]
  show ?thesis unfolding s unfolding sample_admitted by (simp add: sample_admission_def)
qed

end
