(* ===== verification/Session_Audit.thy ===== *)
theory Session_Audit
  imports Session_Stops
begin

text \<open>
  What the tables of controlled sessions show afterwards. Every admission was made once for its order, while a session
  with its own reserved budget was in effect; a replacement takes over nothing its predecessor did not have, and only
  after the gates were clear for long enough.
\<close>

section \<open>Every admission has a session and a budget\<close>

definition session_backed :: "session_db \<Rightarrow> runtime_session \<Rightarrow> bool" where
  "session_backed db s = list_ex (\<lambda>v. rv_id v = rs_reservation s \<and> rv_authorization v = rs_authorization s \<and>
     rv_account v = rs_account s \<and> rv_strategy v = rs_strategy s) (tb_reservations db)"

definition admission_backed :: "session_db \<Rightarrow> rate_admission \<Rightarrow> bool" where
  "admission_backed db a = list_ex (\<lambda>s. rs_id s = ra_session a \<and> rs_fingerprint s = ra_session_fingerprint a \<and>
     rs_reservation s = ra_reservation a \<and> rs_effective_ms s \<le> ra_admitted_ms a \<and> ra_admitted_ms a < rs_expires_ms s) (tb_sessions db)"

definition audit_ok :: "session_db \<Rightarrow> bool" where
  "audit_ok db = (distinct (map rv_id (tb_reservations db)) \<and> distinct (map rs_id (tb_sessions db)) \<and>
     distinct (map rs_reservation (tb_sessions db)) \<and> (\<forall>s \<in> set (tb_sessions db). session_backed db s) \<and>
     distinct (map (\<lambda>a. (ra_session a, ra_order a)) (tb_admissions db)) \<and>
     distinct (map (\<lambda>a. (ra_session a, ra_request a)) (tb_admissions db)) \<and>
     (\<forall>a \<in> set (tb_admissions db). admission_backed db a))"

lemma step_reservation_rows:
  "\<exists>rows. tb_reservations (session_step digest read c db) = tb_reservations db @ rows \<and> distinct (map rv_id rows) \<and>
     set (map rv_id rows) \<inter> set (map rv_id (tb_reservations db)) = {}"
  by (cases rule: step_cases[of digest read c db]) auto

lemma admitted_row_backed:
  assumes "find_session (ra_session q) db = Some s" "session_blockers q (Some s) = []"
  shows "admission_backed db (admission_row q)"
proof -
  have "s \<in> set (tb_sessions db)" "rs_id s = ra_session q" using assms(1) by (auto simp: find_session_def find_Some_iff)
  moreover have "rs_fingerprint s = ra_session_fingerprint q" "rs_reservation s = ra_reservation q"
    "rs_effective_ms s \<le> ra_admitted_ms q" "ra_admitted_ms q < rs_expires_ms s"
    using assms(2) by (auto simp: session_blockers_def split: if_splits)
  ultimately show ?thesis by (auto simp: admission_backed_def list_ex_iff)
qed

lemma audit_step:
  assumes "audit_ok db"
  shows "audit_ok (session_step digest read c db)"
proof -
  let ?db = "session_step digest read c db"
  obtain vs where vs: "tb_reservations ?db = tb_reservations db @ vs" "distinct (map rv_id vs)"
    "set (map rv_id vs) \<inter> set (map rv_id (tb_reservations db)) = {}" using step_reservation_rows by blast
  obtain f rows where f: "retires f" "tb_sessions ?db = map f (tb_sessions db) @ rows"
    "rows = [] \<or> (\<exists>row. rows = [row] \<and> grants digest read db f row)" by (rule step_sessions)
  have keep: "session_backed ?db (f s)" if "session_backed db s" for s
    using that by (auto simp: session_backed_def list_ex_iff vs(1) retires_keeps[OF f(1)])
  have kept: "admission_backed ?db a" if a: "admission_backed db a" for a
  proof -
    from a obtain s where "s \<in> set (tb_sessions db)" "rs_id (f s) = ra_session a \<and> rs_fingerprint (f s) = ra_session_fingerprint a \<and>
        rs_reservation (f s) = ra_reservation a \<and> rs_effective_ms (f s) \<le> ra_admitted_ms a \<and> ra_admitted_ms a < rs_expires_ms (f s)"
      by (auto simp: admission_backed_def list_ex_iff retires_keeps[OF f(1)])
    moreover from this have "f s \<in> set (tb_sessions ?db)" by (simp add: f(2))
    ultimately show ?thesis unfolding admission_backed_def list_ex_iff by blast
  qed
  have new: "session_backed ?db s" if "s \<in> set rows" for s
  proof -
    have "\<exists>v. find_reservation (rs_reservation s) db = Some v \<and> rv_authorization v = rs_authorization s \<and>
        rv_account v = rs_account s \<and> rv_strategy v = rs_strategy s" using that f(3) by (auto simp: grants_def)
    then show ?thesis by (auto simp: session_backed_def list_ex_iff vs(1) find_reservation_def find_Some_iff)
  qed
  have "distinct (map rs_id (tb_sessions ?db)) \<and> distinct (map rs_reservation (tb_sessions ?db))"
  proof -
    have same: "map rs_id (map f (tb_sessions db)) = map rs_id (tb_sessions db)"
      "map rs_reservation (map f (tb_sessions db)) = map rs_reservation (tb_sessions db)" by (simp_all add: retires_keeps[OF f(1)])
    have "set (map rs_id (map f (tb_sessions db))) \<inter> set (map rs_id rows) = {}"
      "set (map rs_reservation (map f (tb_sessions db))) \<inter> set (map rs_reservation rows) = {}"
      using f(3) by (elim disjE exE; simp add: grants_def session_row_allowed_def)+
    moreover have "distinct (map rs_id rows)" "distinct (map rs_reservation rows)" using f(3) by auto
    moreover have "distinct (map rs_id (tb_sessions db))" "distinct (map rs_reservation (tb_sessions db))"
      using assms by (simp_all add: audit_ok_def)
    ultimately show ?thesis unfolding f(2) map_append distinct_append same by blast
  qed
  moreover have "distinct (map rv_id (tb_reservations ?db))" using vs assms by (auto simp: audit_ok_def)
  moreover have "\<forall>s \<in> set (tb_sessions ?db). session_backed ?db s" using keep new assms by (auto simp: f(2) audit_ok_def)
  moreover have "distinct (map (\<lambda>a. (ra_session a, ra_order a)) (tb_admissions ?db)) \<and>
      distinct (map (\<lambda>a. (ra_session a, ra_request a)) (tb_admissions ?db)) \<and> (\<forall>a \<in> set (tb_admissions ?db). admission_backed ?db a)"
  proof (cases rule: step_cases[of digest read c db])
    case (admitted q s before rate)
    have "admission_backed ?db (admission_row q)" using admitted_row_backed[OF admitted(2,3)] kept by blast
    then show ?thesis using admitted(6,12) assms kept
      by (auto simp: audit_ok_def conflict_blockers_def list_ex_iff split: if_splits)
  qed (use assms kept in \<open>auto simp: audit_ok_def\<close>)
  ultimately show ?thesis by (simp add: audit_ok_def)
qed



section \<open>Replacement\<close>

lemma widened_Nil:
  assumes "widened old new = []"
  shows "rv_authorization new = rv_authorization old \<and> rv_account new = rv_account old \<and> rv_strategy new = rv_strategy old \<and>
    rv_gross new \<le> rv_gross old \<and> rv_buy new \<le> rv_buy old \<and> rv_turnover new \<le> rv_turnover old \<and> rv_count new \<le> rv_count old"
    and "(s, n) \<in> set (rv_by_symbol new) \<Longrightarrow> s \<in> set (dict_keys (rv_by_symbol old)) \<and> n \<le> dict_get_default (rv_by_symbol old) s 0"
proof -
  note w = assms[unfolded widened_def append_is_Nil_conv map_is_Nil_conv]
  show "rv_authorization new = rv_authorization old \<and> rv_account new = rv_account old \<and> rv_strategy new = rv_strategy old \<and>
    rv_gross new \<le> rv_gross old \<and> rv_buy new \<le> rv_buy old \<and> rv_turnover new \<le> rv_turnover old \<and> rv_count new \<le> rv_count old"
    using w by (simp split: if_splits)
  have symbols: "set (dict_keys (rv_by_symbol new)) \<subseteq> set (dict_keys (rv_by_symbol old))"
    "\<not> (\<exists>(s, n) \<in> set (rv_by_symbol new). dict_get_default (rv_by_symbol old) s 0 < n)"
    using w by (simp_all split: if_splits)
  assume sn: "(s, n) \<in> set (rv_by_symbol new)"
  then have "s \<in> set (dict_keys (rv_by_symbol new))" by force
  then show "s \<in> set (dict_keys (rv_by_symbol old)) \<and> n \<le> dict_get_default (rv_by_symbol old) s 0" using symbols sn by force
qed

text \<open>The gates were clear again: two observations after the pause, far enough apart, with nothing else between them and
  the review.\<close>

definition gates_recovered :: "replacement_request \<Rightarrow> pause_state \<Rightarrow> gate_snapshot list \<Rightarrow> bool" where
  "gates_recovered q st snapshots = list_ex (\<lambda>g. list_ex (\<lambda>h. gs_session g = rq_predecessor q \<and> gs_session h = rq_predecessor q \<and>
     pa_paused_ms st < gs_observed_ms g \<and> gs_observed_ms g + rq_stability_ms q \<le> gs_observed_ms h \<and>
     gs_observed_ms h \<le> rq_reviewed_ms q \<and> rq_reviewed_ms q \<le> gs_observed_ms h + rq_max_age_ms q \<and>
     list_all (\<lambda>x. gs_session x = rq_predecessor q \<longrightarrow> gs_observed_ms g \<le> gs_observed_ms x \<longrightarrow>
       gs_observed_ms x \<le> rq_reviewed_ms q \<longrightarrow> gs_status x = ''clear'') snapshots) snapshots) snapshots"

lemma length_two: "length xs = 2 \<Longrightarrow> \<exists>g h. xs = [g, h]"
  by (auto simp: numeral_2_eq_2 length_Suc_conv)

lemma recovery_Nil:
  assumes "recovery_blockers q st snapshots = []"
  shows "gates_recovered q st snapshots"
proof -
  let ?pair = "sort_key gs_observed_ms (filter (\<lambda>g. gs_id g = rq_first_snapshot q \<or> gs_id g = rq_second_snapshot q) snapshots)"
  let ?own = "filter (\<lambda>g. gs_session g = rq_predecessor q) snapshots"
  note c = assms[unfolded recovery_blockers_def Let_def]
  have two: "length ?pair = 2" using c by (metis list.distinct(1))
  obtain g h where pair: "?pair = [g, h]" using length_two[OF two] by blast
  note c = c[unfolded if_not_P[OF not_not[THEN iffD2, OF two]] pair append_is_Nil_conv]
  have "set ?pair \<subseteq> set snapshots" by auto
  then have gh: "g \<in> set snapshots" "h \<in> set snapshots" unfolding pair by auto
  have "gs_session g = rq_predecessor q" "gs_session h = rq_predecessor q" using c by (auto split: if_splits)
  moreover have "\<not> list_ex (\<lambda>x. gs_observed_ms g \<le> gs_observed_ms x \<and> gs_observed_ms x \<le> rq_reviewed_ms q \<and> gs_status x \<noteq> ''clear'') ?own"
    "pa_paused_ms st < gs_observed_ms g" "rq_stability_ms q \<le> gs_observed_ms h - gs_observed_ms g"
    "gs_observed_ms h \<le> rq_reviewed_ms q" "rq_reviewed_ms q - gs_observed_ms h \<le> rq_max_age_ms q"
    using c by (simp_all add: not_le not_less split: if_splits)
  ultimately show ?thesis unfolding gates_recovered_def list_ex_iff
    by (intro bexI[OF _ gh(1)] bexI[OF _ gh(2)]) (auto simp: list_ex_iff list_all_iff)
qed

text \<open>C40: a replacement never widens what it replaces. A session is replaced only while it is paused; the new session is
  enabled under the same authorization, account and strategy, with a budget that is at most the old one in total and
  for each symbol, for orders the old one had, at no higher rate, for no longer, and from after the pause; the gates
  were observed clear for long enough; and the predecessor is revoked.\<close>

theorem replacement_never_widens:
  assumes "replace_paused_controlled_session digest read q db = (SessionIssued False s, db')"
  shows "\<exists>p st old new. find_session (rq_predecessor q) db = Some p \<and> paused_state (rq_predecessor q) db = Some st \<and>
    find_reservation (rs_reservation p) db = Some old \<and> find_reservation (rs_reservation s) db = Some new \<and>
    rv_authorization new = rv_authorization old \<and> rv_account new = rv_account old \<and> rv_strategy new = rv_strategy old \<and>
    rv_gross new \<le> rv_gross old \<and> rv_buy new \<le> rv_buy old \<and> rv_turnover new \<le> rv_turnover old \<and> rv_count new \<le> rv_count old \<and>
    (\<forall>(i, n) \<in> set (rv_by_symbol new). i \<in> set (dict_keys (rv_by_symbol old)) \<and> n \<le> dict_get_default (rv_by_symbol old) i 0) \<and>
    set (rs_order_ids s) \<subseteq> set (rs_order_ids p) \<and> rs_rate s \<le> rs_rate p \<and>
    rs_expires_ms s - rs_effective_ms s \<le> rs_expires_ms p - rs_effective_ms p \<and> pa_paused_ms st \<le> rs_effective_ms s \<and>
    gates_recovered q st (tb_snapshots db) \<and>
    map_option rs_status (find_session (rq_predecessor q) db') = Some ''revoked'' \<and> last (tb_sessions db') = s \<and> rs_status s = ''enabled''"
  using assms
proof (cases rule: replace_cases)
  case (2 payload ms row)
  have row: "row = s" "rs_reservation s = rs_reservation q" "rs_order_ids s = rs_order_ids q" "rs_rate s = rs_rate q"
    "rs_expires_ms s = rs_expires_ms q" "rs_effective_ms s = rs_effective_ms q" "rs_status s = ''enabled''"
    using 2(5) by (simp_all add: 2(3) runtime_session.truncate_def)
  obtain p st old new where v: "find_session (rq_predecessor q) db = Some p" "find_state (rq_predecessor q) db = Some st"
    "predecessor_blockers q p st = []" "find_reservation (rs_reservation p) db = Some old"
    "find_reservation (rs_reservation q) db = Some new" "widened old new = []" "window_blockers q p st = []"
    "recovery_blockers q st (tb_snapshots db) = []" using validation_Nil[OF 2(1)] by metis
  have p: "rs_status p = ''enabled''" "pa_status st = ''paused''" using v(3) by (auto simp: predecessor_blockers_def split: if_splits)
  have "rs_id p = rq_predecessor q" using v(1) by (auto simp: find_session_def find_Some_iff)
  moreover have "find_session (rq_predecessor q) db' = Some (revoke_row (rq_predecessor q) (rs_created_at q) p)"
    by (rule find_session_append[where rows = "[row]", OF _ _ v(1)]) (auto simp: 2(6) retires_def)
  ultimately have gone: "map_option rs_status (find_session (rq_predecessor q) db') = Some ''revoked''"
    using p(1) by (simp add: revoke_row_def)
  have "set (rs_order_ids q) \<subseteq> set (rs_order_ids p) \<and> rs_rate q \<le> rs_rate p \<and>
      rs_expires_ms q - rs_effective_ms q \<le> rs_expires_ms p - rs_effective_ms p \<and> pa_paused_ms st \<le> rs_effective_ms q"
    using v(7) by (simp add: window_blockers_def split: if_splits)
  moreover have "paused_state (rq_predecessor q) db = Some st" using v(2) p(2) by (simp add: paused_state_def)
  moreover have "\<forall>(i, n) \<in> set (rv_by_symbol new). i \<in> set (dict_keys (rv_by_symbol old)) \<and> n \<le> dict_get_default (rv_by_symbol old) i 0"
    using widened_Nil(2)[OF v(6)] by blast
  moreover have "last (tb_sessions db') = s" using 2(6) row(1) by simp
  ultimately show ?thesis
    using v(1,4,5) widened_Nil(1)[OF v(6)] recovery_Nil[OF v(8)] gone row by auto
qed blast

definition sample_clear :: "string \<Rightarrow> int \<Rightarrow> gate_snapshot" where
  "sample_clear i t = sample_snapshot\<lparr>gs_id := i, gs_observed_ms := t\<rparr>"

definition sample_paused :: session_db where
  "sample_paused = sample_session_db\<lparr>tb_states := [pause_row sample_pause [''drift'']],
     tb_snapshots := [sample_snapshot, sample_clear ''g2'' 5000, sample_clear ''g3'' 8000],
     tb_reservations := tb_reservations sample_session_db @
       [(sample_reservation ''r2'' ''10:00'' ''11:00'' 2)\<lparr>rv_status := ''reserved''\<rparr>]\<rparr>"

definition sample_replacement :: replacement_request where
  "sample_replacement = runtime_session.extend
     (sample_session_request\<lparr>rs_id := ''s2'', rs_fingerprint := ''f2'', rs_issuance := ''i2'', rs_reservation := ''r2'', rs_attestation := ''r2'',
       rs_order_ids := [''o3''], rs_effective_ms := 8500, rs_expires_ms := 60000, rs_effective_at := ''10:00'', rs_expires_at := ''11:00'', rs_rate := 1\<rparr>)
     (replacement_request.fields ''rep'' ''repf'' ''s1'' ''f1'' ''p1'' ''g2'' ''g3'' ''ret'' ''retf'' [] 9000 ''now'' 2000 5000 [])"

lemma sample_replaced:
  "\<exists>db. replace_paused_controlled_session sample_digest sample_read sample_replacement sample_paused =
    (SessionIssued False (enabled_row (runtime_session.truncate sample_replacement) [(BINDING_KEY, JMap sample_binding)]), db)"
proof -
  let ?q = sample_replacement and ?payload = "[(BINDING_KEY, JMap sample_binding)]"
  have "replacement_validation_blockers ?q sample_paused = []" by code_simp
  moreover have "revocation_row_allowed (retirement_row ?q) (tb_revocations sample_paused)"
    "session_row_allowed (enabled_row (runtime_session.truncate ?q) ?payload)
      (map (revoke_row (rq_predecessor ?q) (rs_created_at ?q)) (tb_sessions sample_paused))"
    "replacement_row_allowed (replacement_row ?q) (tb_replacements sample_paused)" "tb_replacements sample_paused = []"
    "timestamp_epoch_ms sample_read (JStr (rs_created_at ?q)) = Some 1000" "rs_payload ?q = []"
    by code_simp+
  moreover have "tb_control sample_paused = sample_gate" by (simp add: sample_paused_def sample_session_db_def)
  ultimately show ?thesis by (simp add: replace_paused_controlled_session_def sample_bind write_replacement_def Let_def)
qed

lemma replacement_never_widens_witness:
  "\<exists>db. replace_paused_controlled_session sample_digest sample_read sample_replacement sample_paused =
      (SessionIssued False (enabled_row (runtime_session.truncate sample_replacement) [(BINDING_KEY, JMap sample_binding)]), db) \<and>
    map_option rs_status (find_session ''s1'' db) = Some ''revoked''"
proof -
  obtain db where r: "replace_paused_controlled_session sample_digest sample_read sample_replacement sample_paused =
      (SessionIssued False (enabled_row (runtime_session.truncate sample_replacement) [(BINDING_KEY, JMap sample_binding)]), db)"
    using sample_replaced by blast
  have "rq_predecessor sample_replacement = ''s1''" by code_simp
  then show ?thesis using replacement_never_widens[OF r] r by auto
qed

end
