(* ===== verification/Spec2Isabelle.thy ===== *)
theory Spec2Isabelle
  imports Engine_Progress Replay_Streams Paper_Orders Targets Rebalance Oms_Boundary Ledger_Cash Ledger_Corrections Session_Audit
begin

text \<open>
  A verification library of Karkinos: of its trading core (the event bus, the book with positions,
  portfolio and entitlements, the costs, the risk gate, the paper broker and the backtest engine that
  connects them) and of the parts of its server that guard money: order management, the account
  ledger, the gate of automatic trading and the controlled trading sessions.

  \<^bold>\<open>Parts and their interaction.\<close> \<open>backtest/engine.py\<close> merges the bars of all symbols, groups them
  into sessions and publishes each bar on the bus of \<open>core/event_bus.py\<close>. The strategy answers with
  signals; a signal waits until a later bar of its symbol, when \<open>domain/portfolio.py\<close> sizes it into an
  order intent; the engine turns the intent into an order, applies the risk rules and the market
  rules of \<open>domain/a_share_limits.py\<close>, cuts it to the capacity of the bar and to the cash, prices it with
  \<open>execution/simulator.py\<close> and the schedules of \<open>execution/commission.py\<close>, and dispatches the fill to
  the portfolio and the strategy. \<open>backtest/distributions.py\<close> settles dividends and share awards at
  the boundaries of the sessions.

  \<^bold>\<open>Theories.\<close>
  \<^item> \<open>Prelude\<close>: results with exceptions, insertion-ordered dictionaries, texts.
  \<^item> \<open>Rounding\<close>, \<open>Decimals\<close>: Python's \<open>decimal\<close> with the default context (28 digits, half even):
    rounding as a function on rationals with its monotonicity and error bounds, and the operations as
    functions on a coefficient and an exponent, each proved to be the rounded exact result. Only
    finite numbers are modelled, without the sign of zero; exponents are not bounded.
  \<^item> \<open>Core_Types\<close> (\<open>core/types.py\<close>, \<open>core/events.py\<close>, \<open>core/clock.py\<close>): enumerations, event records,
    the simulated clock. Timestamps are microseconds, dates are day numbers.
  \<^item> \<open>Event_Bus\<close> (\<open>core/event_bus.py\<close>): subscription, dispatch, drain. What a handler does is a
    parameter. A drain spends fuel; the locale \<open>draining\<close> gives the fuel that is enough.
  \<^item> \<open>Instruments\<close> (\<open>domain/instrument.py\<close>, \<open>domain/a_share_limits.py\<close>): factories, board identity
    and daily price limits.
  \<^item> \<open>Positions\<close> (\<open>domain/portfolio_accounting.py\<close>, \<open>domain/position.py\<close>): fees of a fill, average cost,
    the T+1 lock, share awards; the invariant of share counts along every history of operations.
  \<^item> \<open>Portfolios\<close> (\<open>domain/portfolio.py\<close>): sizing, fills, settlement, entitlements, equity.
  \<^item> \<open>Fees\<close> (\<open>execution/commission.py\<close>, \<open>execution/slippage.py\<close>, \<open>execution/simulator.py\<close>).
  \<^item> \<open>Paper_Orders\<close> (\<open>execution/paper_broker.py\<close>): the order state machine and the broker.
  \<^item> \<open>Risk_Gate\<close> (\<open>risk/\<close>): rules, risk manager, pre-trade gate and preview.
  \<^item> \<open>Targets\<close> (\<open>domain/research_targets.py\<close>, \<open>risk/target_limits.py\<close>): research weights and entries.
  \<^item> \<open>Rebalance\<close> (\<open>execution/rebalance_order_generator.py\<close>): the plan of orders for target weights.
  \<^item> \<open>Distributions\<close> (\<open>backtest/distributions.py\<close>): terms and their replay.
  \<^item> \<open>Engine\<close>, \<open>Engine_Run\<close> (\<open>backtest/engine.py\<close>): handlers, and construction, sessions and run.
  \<^item> \<open>Engine_Safety\<close>: an invariant of every handler, dispatch, drain and session, from which the cash
    of a backtest never becomes negative.
  \<^item> \<open>Engine_Progress\<close>: the interpretation of \<open>draining\<close> on the engine's handlers, the termination of
    the loop that shrinks an order to the cash, and the rules of one execution.
  \<^item> \<open>Replay_Streams\<close> (\<open>data/handler.py\<close>, \<open>backtest/engine.py\<close>): data handlers, the streaming mode and its merge.

  \<^bold>\<open>Order management.\<close> The server keeps orders in tables of their own, beside the trading core.
  \<^item> \<open>Canonical_Json\<close> (\<open>server/contracts/content_identity.py\<close>): documents, their canonical text and fingerprint.
  \<^item> \<open>Order_Contracts\<close> (\<open>server/contracts/order_state.py\<close>, \<open>financial_values.py\<close>): commands and stored decimals.
  \<^item> \<open>Oms\<close> (\<open>server/persistence/oms.py\<close>, \<open>order_state_claims.py\<close>): tables and idempotent commands.
  \<^item> \<open>Oms_Service\<close> (\<open>server/services/controlled_execution/oms.py\<close>): the service in front of the tables.
  \<^item> \<open>Oms_Lifecycle\<close>: the abstract lifecycle of orders and its refinement by the tables.
  \<^item> \<open>Oms_Replay\<close>: typing of rows, repetition of commands, and the binding of a key to its content.
  \<^item> \<open>Oms_Boundary\<close>: histories of service operations; orders beyond the broker boundary; a way out for all.

  \<^bold>\<open>Account ledger.\<close> The server keeps the real account as a ledger of entries and replays it.
  \<^item> \<open>Ledger\<close> (\<open>server/ledger/models.py\<close>, \<open>server/projections/service.py\<close>): entries and their operations.
  \<^item> \<open>Ledger_Replay\<close>: corrections, the dispatch on kinds and the order of the replay.
  \<^item> \<open>Ledger_Valuation\<close>: quotes, valuation, the accumulator, the equity curve and series.
  \<^item> \<open>Ledger_Facts\<close>: independence of the reading order and the consistency of positions.
  \<^item> \<open>Ledger_Cash\<close>: the cash flow of an entry; the replayed cash is the sum of the flows.
  \<^item> \<open>Ledger_Corrections\<close> (\<open>server/projections/ledger_exclusion_correction.py\<close> and the plans on it):
    corrections that remove entries, and the proof that they restore the account.

  \<^bold>\<open>Controlled trading.\<close> Automatic trading needs a gate that an operator opens for a limited time, and
  sessions with a reserved budget, each of which admits single orders. All of it lives in tables that
  change by one transaction at a time, so a table is a list of rows and a history is a list of commands.
  \<^item> \<open>Trading_Control\<close> (\<open>server/contracts/automatic_trading.py\<close>, \<open>server/persistence/runtime_controls.py\<close>,
    \<open>automatic_trading_session_binding.py\<close>, \<open>server/services/controlled_execution/trading_controls.py\<close>):
    the persisted gate, its compare-and-set, and the binding of sessions to its revisions.
  \<^item> \<open>Session_Budgets\<close> (\<open>server/persistence/controlled_session_budgets.py\<close>): the tables and the reservation of
    capital; the locale \<open>windowed\<close> bounds totals over windows of time for a table that only grows.
  \<^item> \<open>Session_Authority\<close> (\<open>controlled_session_issuance_uow.py\<close>, \<open>_revocation_uow\<close>, \<open>_pause_uow\<close>,
    \<open>_gate_snapshots\<close>, \<open>_rate_admission_uow\<close>, \<open>_replacement_uow\<close>): the life of a session.
  \<^item> \<open>Session_Safety\<close>: histories of transactions; capacities and rates are never exceeded.
  \<^item> \<open>Session_Stops\<close>: what stops a session stops it for good, and closing the gate stops all of them.
  \<^item> \<open>Session_Audit\<close>: every admission was authorised, and a replacement never widens its predecessor.

  \<^bold>\<open>Errors and non-termination.\<close> A raise is a value (\<open>Inl\<close>, or an exception beside the world it leaves
  behind). Loops that need not end are \<open>partial_function\<close>s (\<open>shrink_to_cash\<close>, \<open>fund_loop\<close>), with
  theorems that they return when quantities are whole lots within the precision, or spend fuel
  (\<open>drain\<close>, \<open>run_handler\<close>). The fuel of a drain must exceed the weight of its queue: one for each
  signal, alert or decision, \<open>2 * K + 3\<close> for an order and \<open>2 * K + 4\<close> for an intent, where \<open>K\<close> bounds
  what a callback of the strategy publishes.

  \<^bold>\<open>Parameters.\<close> The strategy's callbacks, the risk rules, the random identifiers and the callbacks of a
  session are arguments of the engine. On the server the hash of canonical texts, the reader and the writer of
  ISO timestamps and the clock are arguments, and JSON columns hold their documents.

  \<^bold>\<open>Not modelled.\<close> The result document of a backtest and its metrics (binary floating point), risk rules
  that compute in binary floating point, the live clock, and of the server what only moves data: HTTP,
  routes, listing queries, workers, a locked database, most application services; data providers,
  analytics, account import, research agents, scripts and the web client.
\<close>

end
